(* ===== verification/Mf_Prelude.thy ===== *)
theory Mf_Prelude
  imports Main "HOL-Library.Word"
begin

unbundle bit_operations_syntax

text \<open>
  Shared vocabulary of the development: the machine integer types of the AVR target (an
  \<^verbatim>\<open>int\<close> of avr-gcc has 16 bits, so \<^verbatim>\<open>uint16_t\<close> arithmetic wraps at 65536), the result
  type of a computation that may leave the C abstract machine, the collections of facts
  the component proofs unfold, and generic lemmas on lists, loops and words.
\<close>

type_synonym u8 = "8 word"
type_synonym u16 = "16 word"
type_synonym u32 = "32 word"
type_synonym u64 = "64 word"

named_theorems mf_defs "definitions of operations that component proofs unfold"
named_theorems mf_inv "preservation of the component invariants"
named_theorems mf_frame "parts of the state an operation leaves alone"

section \<open>Computations that may stop\<close>

text \<open>
  A handler either returns the new state or stops: because it accesses memory outside the
  object it indexes (undefined behaviour in C, silent corruption on the AVR), because it
  dereferences the null pointer, because it enters a loop that never ends (until the
  watchdog resets the chip), or because it hands control to the bootloader for good.
\<close>

datatype stop = Out_Of_Bounds | Null_Pointer | Hang | Bootloader

type_synonym 'a run = "stop + 'a"

definition andthen :: "'a run \<Rightarrow> ('a \<Rightarrow> 'b run) \<Rightarrow> 'b run" where
  "andthen m f = (case m of Inl e \<Rightarrow> Inl e | Inr x \<Rightarrow> f x)"

lemma andthen_simps [simp]:
  "andthen (Inl e) f = Inl e"
  "andthen (Inr x) f = f x"
  by (simp_all add: andthen_def)

lemma andthen_Inr_iff: "andthen m f = Inr y \<longleftrightarrow> (\<exists>x. m = Inr x \<and> f x = Inr y)"
  by (cases m) simp_all

lemma andthen_Inl_iff: "andthen m f = Inl e \<longleftrightarrow> m = Inl e \<or> (\<exists>x. m = Inr x \<and> f x = Inl e)"
  by (cases m) simp_all

lemma andthen_Inr: "andthen m Inr = m"
  by (cases m) simp_all

lemma andthen_assoc: "andthen (andthen m f) g = andthen m (\<lambda>x. andthen (f x) g)"
  by (cases m) simp_all

text \<open>A checked array access: the index has to lie inside the array.\<close>

definition load :: "'a list \<Rightarrow> nat \<Rightarrow> 'a run" where
  "load xs i = (if i < length xs then Inr (xs ! i) else Inl Out_Of_Bounds)"

definition store :: "'a list \<Rightarrow> nat \<Rightarrow> 'a \<Rightarrow> 'a list run" where
  "store xs i x = (if i < length xs then Inr (xs[i := x]) else Inl Out_Of_Bounds)"

lemma load_in [simp]: "i < length xs \<Longrightarrow> load xs i = Inr (xs ! i)"
  by (simp add: load_def)

lemma load_out [simp]: "length xs \<le> i \<Longrightarrow> load xs i = Inl Out_Of_Bounds"
  by (simp add: load_def)

lemma store_in [simp]: "i < length xs \<Longrightarrow> store xs i x = Inr (xs[i := x])"
  by (simp add: store_def)

lemma store_out [simp]: "length xs \<le> i \<Longrightarrow> store xs i x = Inl Out_Of_Bounds"
  by (simp add: store_def)

lemma store_Inr_iff: "store xs i x = Inr ys \<longleftrightarrow> i < length xs \<and> ys = xs[i := x]"
  by (auto simp: store_def)

lemma load_Inr_iff: "load xs i = Inr x \<longleftrightarrow> i < length xs \<and> x = xs ! i"
  by (auto simp: load_def)

text \<open>A counted loop whose body may stop.\<close>

fun for_run :: "('i \<Rightarrow> 's \<Rightarrow> 's run) \<Rightarrow> 'i list \<Rightarrow> 's \<Rightarrow> 's run" where
  "for_run f [] s = Inr s"
| "for_run f (i # is) s = andthen (f i s) (for_run f is)"

lemma for_run_append: "for_run f (xs @ ys) s = andthen (for_run f xs s) (for_run f ys)"
proof (induction xs arbitrary: s)
  case Nil
  then show ?case by simp
next
  case (Cons x xs)
  then show ?case by (cases "f x s") simp_all
qed

lemma for_run_invariant:
  assumes "for_run f is s = Inr t" and "P s"
    and "\<And>i s s'. i \<in> set is \<Longrightarrow> P s \<Longrightarrow> f i s = Inr s' \<Longrightarrow> P s'"
  shows "P t"
  using assms
proof (induction "is" arbitrary: s)
  case Nil
  then show ?case by simp
next
  case (Cons i "is")
  from Cons.prems(1) obtain s' where s': "f i s = Inr s'" and rest: "for_run f is s' = Inr t"
    by (auto simp: andthen_Inr_iff)
  from Cons.prems(2,3) s' have "P s'" by (meson list.set_intros(1))
  with rest Cons.prems(3) show ?case by (intro Cons.IH) auto
qed

lemma for_run_total:
  assumes "P s"
    and "\<And>i s. i \<in> set is \<Longrightarrow> P s \<Longrightarrow> \<exists>s'. f i s = Inr s' \<and> P s'"
  shows "\<exists>t. for_run f is s = Inr t \<and> P t"
  using assms
proof (induction "is" arbitrary: s)
  case Nil
  then show ?case by simp
next
  case (Cons i "is")
  then obtain s' where "f i s = Inr s'" "P s'" by (meson list.set_intros(1))
  with Cons show ?case by auto
qed

text \<open>A run that satisfies \<open>P\<close> when it returns, and stops only by entering the boot loader.\<close>

definition returns :: "('a \<Rightarrow> bool) \<Rightarrow> 'a run \<Rightarrow> bool" where
  "returns P r = (case r of Inl e \<Rightarrow> e = Bootloader | Inr x \<Rightarrow> P x)"

lemma returns_simps [simp]: "returns P (Inr x) = P x" "returns P (Inl e) = (e = Bootloader)"
  by (simp_all add: returns_def)

lemma returns_andthen: "returns P r \<Longrightarrow> (\<And>x. P x \<Longrightarrow> returns Q (f x)) \<Longrightarrow> returns Q (andthen r f)"
  by (cases r) simp_all

lemma returns_mono: "returns P r \<Longrightarrow> (\<And>x. P x \<Longrightarrow> Q x) \<Longrightarrow> returns Q r"
  by (cases r) simp_all

lemma returns_for_run:
  assumes "P s" "\<And>i s. i \<in> set is \<Longrightarrow> P s \<Longrightarrow> returns P (f i s)"
  shows "returns P (for_run f is s)"
  using assms
proof (induction "is" arbitrary: s)
  case (Cons i "is")
  have "returns P (for_run f is s')" if "P s'" for s' using that Cons.prems(2) by (intro Cons.IH) auto
  moreover have "returns P (f i s)" using Cons.prems by simp
  ultimately show ?case by (auto intro: returns_andthen)
qed simp

text \<open>A run that returns, with a result that satisfies \<open>P\<close>.\<close>

definition ok :: "('a \<Rightarrow> bool) \<Rightarrow> 'a run \<Rightarrow> bool" where
  "ok P r \<longleftrightarrow> (\<exists>x. r = Inr x \<and> P x)"

lemma ok_simps [simp]: "ok P (Inr x) = P x" "\<not> ok P (Inl e)"
  by (simp_all add: ok_def)

lemma ok_andthen: "ok P r \<Longrightarrow> (\<And>x. P x \<Longrightarrow> ok Q (f x)) \<Longrightarrow> ok Q (andthen r f)"
  by (cases r) simp_all

lemma ok_mono: "ok P r \<Longrightarrow> (\<And>x. P x \<Longrightarrow> Q x) \<Longrightarrow> ok Q r"
  by (cases r) simp_all

lemma ok_returns: "ok P r \<Longrightarrow> returns P r"
  by (cases r) simp_all

lemma ok_for_run:
  assumes "P s" "\<And>i s. i \<in> set is \<Longrightarrow> P s \<Longrightarrow> ok P (f i s)"
  shows "ok P (for_run f is s)"
  using for_run_total [of P s "is" f] assms by (simp add: ok_def)

lemma for_run_upt:
  assumes "Q 0 s"
    and "\<And>i s. i < n \<Longrightarrow> Q i s \<Longrightarrow> \<exists>s'. f i s = Inr s' \<and> Q (Suc i) s'"
  shows "\<exists>t. for_run f [0..<n] s = Inr t \<and> Q n t"
  using assms(2)
proof (induction n)
  case 0
  then show ?case using assms(1) by simp
next
  case (Suc n)
  then obtain t where "for_run f [0..<n] s = Inr t" "Q n t" by (meson less_SucI)
  with Suc.prems [of n t] show ?case by (auto simp: for_run_append)
qed

lemma for_run_Inr: "for_run (\<lambda>i s. Inr (g i s)) is s = Inr (fold g is s)"
  by (induction "is" arbitrary: s) simp_all

text \<open>A loop that fills a block of cells.\<close>

lemma for_run_store_block:
  assumes "off + n \<le> length xs"
  shows "for_run (\<lambda>i xs. store xs (off + i) (f i)) [0..<n] xs
     = Inr (take off xs @ map f [0..<n] @ drop (off + n) xs)"
  using assms
proof (induction n)
  case (Suc n)
  then have "for_run (\<lambda>i xs. store xs (off + i) (f i)) [0..<n] xs
     = Inr (take off xs @ map f [0..<n] @ drop (off + n) xs)" by simp
  moreover have "drop (off + n) xs = xs ! (off + n) # drop (off + Suc n) xs"
    using Suc.prems by (simp add: Cons_nth_drop_Suc)
  ultimately show ?case using Suc.prems
    by (simp add: for_run_append list_update_append min_def)
qed simp

section \<open>Loops that cannot stop\<close>

lemma fold_invariant_set:
  assumes "P s" and "\<And>x s. x \<in> set xs \<Longrightarrow> P s \<Longrightarrow> P (f x s)"
  shows "P (fold f xs s)"
  using assms by (induction xs arbitrary: s) auto

lemma fold_frame:
  assumes "\<And>x s. g (f x s) = g s"
  shows "g (fold f xs s) = g s"
  using assms by (induction xs arbitrary: s) auto

lemma length_fold_update:
  assumes "\<And>x ys. length (f x ys) = length ys"
  shows "length (fold f xs ys) = length ys"
  using assms by (rule fold_frame)

text \<open>Writing a whole range of cells.\<close>

lemma fold_update_nth:
  "distinct is \<Longrightarrow> j < length xs \<Longrightarrow>
   fold (\<lambda>i ys. ys[i := f i]) is xs ! j = (if j \<in> set is then f j else xs ! j)"
proof (induction "is" arbitrary: xs)
  case Nil
  then show ?case by simp
next
  case (Cons i "is")
  then show ?case by (cases "j = i") auto
qed

section \<open>Words\<close>

lemma unat_u8_less [simp]: "unat (x :: u8) < 256"
  using unsigned_less [of x, where ?'a = nat] by simp

lemma unat_u16_less [simp]: "unat (x :: u16) < 65536"
  using unsigned_less [of x, where ?'a = nat] by simp

lemma and_mask7_less: "unat (x AND 0x7F :: u8) < 128"
  using word_and_le1 [of x "0x7F"] by (simp add: word_le_nat_alt)

lemma and_mask4_less: "unat (x AND 0x0F :: u8) < 16"
  using word_and_le1 [of x "0x0F"] by (simp add: word_le_nat_alt)

lemma u8_cases_less:
  assumes "(x :: u8) < of_nat n" and "n \<le> 255"
  shows "unat x < n"
  using assms by (simp add: word_less_nat_alt unat_of_nat)

text \<open>A finite check over the first \<open>n\<close> bytes covers every byte below \<open>n\<close>.\<close>

lemma u8_all_below:
  assumes "list_all (\<lambda>i. P (of_nat i :: u8)) [0..<n]" and "unat x < n"
  shows "P x"
proof -
  have "P (of_nat i)" if "i < n" for i using assms(1) that by (simp add: list_all_iff)
  from this [OF assms(2)] show ?thesis by simp
qed

text \<open>The position of a single bit: \<^verbatim>\<open>1 << i\<close> on a 64-bit word.\<close>

definition key_bit :: "nat \<Rightarrow> u64" where
  "key_bit i = push_bit i 1"

lemma bit_key_bit [simp]: "bit (key_bit i) j \<longleftrightarrow> i = j \<and> j < 64"
  by (auto simp: key_bit_def bit_simps)

lemma and_key_bit_nonzero: "i < 64 \<Longrightarrow> x AND key_bit i \<noteq> 0 \<longleftrightarrow> bit x i"
proof -
  assume "i < 64"
  have "x AND key_bit i = 0 \<longleftrightarrow> (\<forall>n<64. \<not> bit (x AND key_bit i) n)"
    by (simp add: bit_eq_iff)
  with \<open>i < 64\<close> show ?thesis by (auto simp: bit_and_iff)
qed

lemma key_bit_0: "key_bit 0 = 1"
  by (simp add: key_bit_def)

lemma key_bit_Suc: "push_bit 1 (key_bit i) = key_bit (Suc i)"
  by (simp add: key_bit_def)

end
