(* ===== verification/Mf_Key.thy ===== *)
theory Mf_Key
  imports Mf_Prelude
begin

unbundle bit_operations_syntax

text \<open>
  The button matrix (\<^verbatim>\<open>key.c\<close>, \<^verbatim>\<open>key.h\<close>): the timer interrupt that shifts 64 button
  levels into a ring buffer of ten samples, the debounced key state computed from it, and
  the press and release edges between two polls.  The record holds the globals of
  \<^verbatim>\<open>key.c\<close>, the interrupt's static \<^verbatim>\<open>buffer_pos\<close>, and the AVR registers the file writes.

  The ring buffer refines a queue of the ten most recent samples (locale
  \<open>sample_window\<close>, interpreted on the interrupt routine).
\<close>

section \<open>State and operations\<close>

record key_globals =
  g_key_debounce_buffer :: "u64 list"
  buffer_pos :: u8
  g_key_state :: u64
  g_key_prev_state :: u64
  g_key_up :: u64
  g_key_down :: u64
  g_key_bank_last_up :: u64
  system_time_ms :: u16
  last_led_refresh_time_ms :: u16
  DDRC_key :: u8
  DDRD :: u8
  PORTC_key :: u8
  PORTD :: u8
  TCCR0B :: u8
  TCNT0 :: u8
  TIMSK0 :: u8
  interrupts_enabled :: bool

definition DEBOUNCE_BUFFER_SIZE :: nat where "DEBOUNCE_BUFFER_SIZE = 10"
definition TIMER_TIMEOUT_1MS :: u8 where "TIMER_TIMEOUT_1MS = 0xD0"
definition LED_REFRESH_LIMIT :: u16 where "LED_REFRESH_LIMIT = 25"

text \<open>Port pins: \<^verbatim>\<open>KEY_BIT = _BV(PC7)\<close>, \<^verbatim>\<open>KEY_CLOCK = _BV(PD7)\<close>, \<^verbatim>\<open>KEY_LATCH = _BV(PD6)\<close>.\<close>

definition KEY_BIT :: u8 where "KEY_BIT = 0x80"
definition KEY_CLOCK :: u8 where "KEY_CLOCK = 0x80"
definition KEY_LATCH :: u8 where "KEY_LATCH = 0x40"

text \<open>Bits of the timer registers: \<^verbatim>\<open>CS02\<close>, \<^verbatim>\<open>CS01\<close>, \<^verbatim>\<open>CS00\<close> of \<^verbatim>\<open>TCCR0B\<close> and \<^verbatim>\<open>TOIE0\<close> of \<^verbatim>\<open>TIMSK0\<close>.\<close>

definition BV_CS02 :: u8 where "BV_CS02 = 0x04"
definition BV_CS01 :: u8 where "BV_CS01 = 0x02"
definition BV_CS00 :: u8 where "BV_CS00 = 0x01"
definition BV_TOIE0 :: u8 where "BV_TOIE0 = 0x01"

text \<open>
  \<^verbatim>\<open>memset(g_key_debounce_buffer, 0, DEBOUNCE_BUFFER_SIZE*sizeof(uint32_t))\<close> clears forty
  bytes; the cells have eight bytes each, so it clears five cells.
\<close>

definition memset_u64_cells :: "u64 list \<Rightarrow> nat \<Rightarrow> u64 list" where
  "memset_u64_cells xs bytes = replicate (bytes div 8) 0 @ drop (bytes div 8) xs"

definition key_setup :: "key_globals \<Rightarrow> key_globals" where
  "key_setup k = k\<lparr>
     DDRD := DDRD k OR KEY_CLOCK OR KEY_LATCH,
     DDRC_key := DDRC_key k AND NOT KEY_BIT,
     PORTC_key := PORTC_key k OR KEY_BIT,
     PORTD := PORTD k OR KEY_CLOCK OR KEY_LATCH,
     g_key_debounce_buffer :=
       memset_u64_cells (g_key_debounce_buffer k) (DEBOUNCE_BUFFER_SIZE * 4),
     TCCR0B := (TCCR0B k OR BV_CS02) AND NOT BV_CS01 AND NOT BV_CS00,
     TCNT0 := TIMER_TIMEOUT_1MS,
     TIMSK0 := TIMSK0 k OR BV_TOIE0,
     interrupts_enabled := True,
     g_key_state := 0,
     g_key_prev_state := 0,
     g_key_up := 0,
     g_key_down := 0\<rparr>"

definition key_disable :: "key_globals \<Rightarrow> key_globals" where
  "key_disable k = k\<lparr>TIMSK0 := TIMSK0 k AND NOT BV_TOIE0\<rparr>"

text \<open>
  One pass of the sampling loop: \<open>pin i\<close> is the level of the key input at the \<open>i\<close>-th
  clock.  The loop carries the collected value and the bit to set next.
\<close>

definition sample_step :: "(nat \<Rightarrow> bool) \<Rightarrow> nat \<Rightarrow> u64 \<times> u64 \<Rightarrow> u64 \<times> u64" where
  "sample_step pin i = (\<lambda>(value, b). (value OR (if pin i then 0 else b), push_bit 1 b))"

definition read_sample :: "(nat \<Rightarrow> bool) \<Rightarrow> u64" where
  "read_sample pin = NOT (fst (fold (sample_step pin) [0..<64] (0, 1)))"

text \<open>
  The timer interrupt.  The clock and latch lines end where the source leaves them: latch
  low, clock high.
\<close>

definition TIMER0_OVF_vect :: "(nat \<Rightarrow> bool) \<Rightarrow> key_globals \<Rightarrow> key_globals" where
  "TIMER0_OVF_vect pin k = k\<lparr>
     TCNT0 := TIMER_TIMEOUT_1MS,
     PORTD := ((PORTD k OR KEY_LATCH) AND NOT KEY_LATCH) OR KEY_CLOCK,
     g_key_debounce_buffer := (g_key_debounce_buffer k)[unat (buffer_pos k) := read_sample pin],
     buffer_pos := (buffer_pos k + 1) mod of_nat DEBOUNCE_BUFFER_SIZE,
     system_time_ms := system_time_ms k + 1\<rparr>"

definition key_read :: "key_globals \<Rightarrow> u32 \<times> key_globals" where
  "key_read k =
     (let st = fold (\<lambda>i acc. acc AND g_key_debounce_buffer k ! i)
                 [0..<DEBOUNCE_BUFFER_SIZE] 0xffffffffffffffff
      in (ucast st, k\<lparr>g_key_state := st\<rparr>))"

definition key_calc :: "key_globals \<Rightarrow> key_globals" where
  "key_calc k = k\<lparr>
     g_key_down := (g_key_prev_state k XOR g_key_state k) AND g_key_state k,
     g_key_up := (g_key_prev_state k XOR g_key_state k) AND g_key_prev_state k,
     g_key_prev_state := g_key_state k\<rparr>"

text \<open>A poll of the main loop: \<^verbatim>\<open>key_read()\<close> then \<^verbatim>\<open>key_calc()\<close>.\<close>

definition key_poll :: "key_globals \<Rightarrow> key_globals" where
  "key_poll k = key_calc (snd (key_read k))"

section \<open>Invariant\<close>

definition key_wf :: "key_globals \<Rightarrow> bool" where
  "key_wf k \<longleftrightarrow> length (g_key_debounce_buffer k) = DEBOUNCE_BUFFER_SIZE
                \<and> unat (buffer_pos k) < DEBOUNCE_BUFFER_SIZE"

text \<open>The samples in the buffer, oldest first.\<close>

definition recent_samples :: "key_globals \<Rightarrow> u64 list" where
  "recent_samples k =
     drop (unat (buffer_pos k)) (g_key_debounce_buffer k) @
     take (unat (buffer_pos k)) (g_key_debounce_buffer k)"

section \<open>The sampling loop\<close>

lemma sample_loop:
  "n \<le> 64 \<Longrightarrow>
   fold (sample_step pin) [0..<n] (0, 1) = (v, b) \<Longrightarrow>
   b = push_bit n 1 \<and> (\<forall>j<64. bit v j \<longleftrightarrow> j < n \<and> \<not> pin j)"
proof (induction n arbitrary: v b)
  case 0
  then show ?case by simp
next
  case (Suc n)
  obtain v' b' where eq: "fold (sample_step pin) [0..<n] (0, 1) = (v', b')"
    by fastforce
  from Suc.IH [OF _ eq] Suc.prems(1)
  have b': "b' = push_bit n 1" and v': "\<forall>j<64. bit v' j \<longleftrightarrow> j < n \<and> \<not> pin j"
    by auto
  from Suc.prems(2) have "sample_step pin n (v', b') = (v, b)"
    by (simp add: eq)
  then have "v = v' OR (if pin n then 0 else b')" "b = push_bit 1 b'"
    by (auto simp: sample_step_def)
  with b' v' show ?case
    by (auto simp: bit_simps less_Suc_eq)
qed

lemma bit_read_sample: "j < 64 \<Longrightarrow> bit (read_sample pin) j \<longleftrightarrow> pin j"
proof -
  assume j: "j < 64"
  obtain v b where eq: "fold (sample_step pin) [0..<64] (0, 1) = (v, b)"
    by fastforce
  have "\<forall>j<64. bit v j \<longleftrightarrow> j < 64 \<and> \<not> pin j"
    using sample_loop [OF _ eq] by simp
  with j eq show ?thesis by (simp add: read_sample_def bit_not_iff)
qed

section \<open>The debounce window\<close>

text \<open>
  What the debouncer relies on: a window of fixed size to which every interrupt appends one
  sample, dropping the oldest.
\<close>

locale sample_window =
  fixes push :: "'x \<Rightarrow> 's \<Rightarrow> 's"
    and window :: "'s \<Rightarrow> 'a list"
    and sample :: "'x \<Rightarrow> 'a"
    and inv :: "'s \<Rightarrow> bool"
    and size :: nat
  assumes size_pos: "0 < size"
    and window_length: "inv s \<Longrightarrow> length (window s) = size"
    and window_push: "inv s \<Longrightarrow> window (push x s) = tl (window s) @ [sample x]"
    and inv_push: "inv s \<Longrightarrow> inv (push x s)"
begin

lemma inv_run: "inv s \<Longrightarrow> inv (fold push xs s)"
  by (induction xs arbitrary: s) (auto intro: inv_push)

lemma window_run: "inv s \<Longrightarrow> window (fold push xs s) = drop (length xs) (window s @ map sample xs)"
proof (induction xs arbitrary: s)
  case Nil
  then show ?case by simp
next
  case (Cons x xs)
  then obtain w ws where w: "window s = w # ws"
    using window_length size_pos by (cases "window s") fastforce+
  show ?case using Cons by (simp add: inv_push window_push w del: drop_append)
qed

lemma window_full:
  assumes "inv s" and "size \<le> length xs"
  shows "window (fold push xs s) = map sample (drop (length xs - size) xs)"
  using assms by (simp add: window_run window_length drop_map)

end

lemma buffer_pos_next:
  assumes "unat p < 10"
  shows "unat ((p + 1) mod 10 :: u8) = (if unat p = 9 then 0 else Suc (unat p))"
proof -
  have "unat (p + 1) = Suc (unat p)"
    using assms by (simp add: unat_word_ariths)
  then show ?thesis using assms by (simp add: unat_mod)
qed

interpretation debounce: sample_window TIMER0_OVF_vect recent_samples read_sample key_wf
  DEBOUNCE_BUFFER_SIZE
proof unfold_locales
  fix k pin
  assume wf: "key_wf k"
  let ?p = "unat (buffer_pos k)" and ?b = "g_key_debounce_buffer k"
  from wf have p: "?p < 10" and len: "length ?b = 10"
    by (simp_all add: key_wf_def DEBOUNCE_BUFFER_SIZE_def)
  show "length (recent_samples k) = DEBOUNCE_BUFFER_SIZE"
    using p len by (simp add: recent_samples_def DEBOUNCE_BUFFER_SIZE_def)
  show "key_wf (TIMER0_OVF_vect pin k)"
    using p len by (simp add: key_wf_def TIMER0_OVF_vect_def DEBOUNCE_BUFFER_SIZE_def buffer_pos_next)
  have d: "drop ?p ?b = ?b ! ?p # drop (Suc ?p) ?b"
    using p len by (simp add: Cons_nth_drop_Suc)
  have t: "take (Suc ?p) (?b[?p := x]) = take ?p ?b @ [x]" for x
    using p len by (simp add: take_Suc_conv_app_nth)
  show "recent_samples (TIMER0_OVF_vect pin k) = tl (recent_samples k) @ [read_sample pin]"
  proof (cases "?p = 9")
    case True
    with len have "take 10 (?b[9 := read_sample pin]) = ?b[9 := read_sample pin]" by simp
    with t True d len show ?thesis
      by (simp add: recent_samples_def TIMER0_OVF_vect_def DEBOUNCE_BUFFER_SIZE_def buffer_pos_next)
  next
    case False
    with t p d len show ?thesis
      by (simp add: recent_samples_def TIMER0_OVF_vect_def DEBOUNCE_BUFFER_SIZE_def buffer_pos_next)
  qed
qed (simp add: DEBOUNCE_BUFFER_SIZE_def)

lemma set_recent_samples: "key_wf k \<Longrightarrow> set (recent_samples k) = set (g_key_debounce_buffer k)"
  by (metis append_take_drop_id recent_samples_def set_append sup_commute)

lemma fold_and_bits:
  fixes acc :: u64
  shows "bit (fold (\<lambda>x acc. acc AND x) xs acc) j \<longleftrightarrow> bit acc j \<and> (\<forall>x \<in> set xs. bit x j)"
  by (induction xs arbitrary: acc) (auto simp: bit_and_iff)

lemma fold_upt_nth: "fold (\<lambda>i acc. f (xs ! i) acc) [0..<length xs] = fold f xs"
proof -
  have "fold f xs = fold f (map ((!) xs) [0..<length xs])"
    by (simp add: map_nth)
  then show ?thesis by (simp add: fold_map comp_def)
qed

lemma bit_key_read:
  assumes "key_wf k" and "j < 64"
  shows "bit (g_key_state (snd (key_read k))) j \<longleftrightarrow> (\<forall>x \<in> set (recent_samples k). bit x j)"
proof -
  let ?b = "g_key_debounce_buffer k"
  have len: "length ?b = DEBOUNCE_BUFFER_SIZE" using assms(1) by (simp add: key_wf_def)
  have "g_key_state (snd (key_read k)) = fold (\<lambda>x acc. acc AND x) ?b 0xffffffffffffffff"
    using fold_upt_nth [of "\<lambda>x acc. acc AND x" ?b] by (simp add: key_read_def len Let_def)
  moreover have "bit (0xffffffffffffffff :: u64) j"
  proof -
    have "(0xffffffffffffffff :: u64) = - 1" by simp
    with assms(2) show ?thesis by (simp only: bit_minus_1_iff) simp
  qed
  ultimately show ?thesis
    using assms(1) by (simp add: fold_and_bits set_recent_samples)
qed

section \<open>Edges between polls\<close>

lemma bit_key_calc:
  "bit (g_key_down (key_calc k)) j \<longleftrightarrow> bit (g_key_state k) j \<and> \<not> bit (g_key_prev_state k) j"
  "bit (g_key_up (key_calc k)) j \<longleftrightarrow> bit (g_key_prev_state k) j \<and> \<not> bit (g_key_state k) j"
  by (auto simp: key_calc_def bit_simps)

lemma key_calc_frame [mf_frame]:
  "g_key_state (key_calc k) = g_key_state k"
  "g_key_prev_state (key_calc k) = g_key_state k"
  "g_key_bank_last_up (key_calc k) = g_key_bank_last_up k"
  "system_time_ms (key_calc k) = system_time_ms k"
  "last_led_refresh_time_ms (key_calc k) = last_led_refresh_time_ms k"
  by (simp_all add: key_calc_def)

lemma key_read_frame [mf_frame]:
  "g_key_prev_state (snd (key_read k)) = g_key_prev_state k"
  "g_key_bank_last_up (snd (key_read k)) = g_key_bank_last_up k"
  "system_time_ms (snd (key_read k)) = system_time_ms k"
  "last_led_refresh_time_ms (snd (key_read k)) = last_led_refresh_time_ms k"
  by (simp_all add: key_read_def Let_def)

lemma TIMER0_frame [mf_frame]:
  "g_key_prev_state (TIMER0_OVF_vect pin k) = g_key_prev_state k"
  "g_key_bank_last_up (TIMER0_OVF_vect pin k) = g_key_bank_last_up k"
  by (simp_all add: TIMER0_OVF_vect_def)

lemma key_wf_key_poll [mf_inv]: "key_wf k \<Longrightarrow> key_wf (key_poll k)"
  by (simp add: key_poll_def key_calc_def key_read_def key_wf_def Let_def)

lemma key_wf_key_setup [mf_inv]: "key_wf k \<Longrightarrow> key_wf (key_setup k)"
  by (simp add: key_wf_def key_setup_def memset_u64_cells_def DEBOUNCE_BUFFER_SIZE_def)

lemma key_wf_key_disable [mf_inv]: "key_wf k \<Longrightarrow> key_wf (key_disable k)"
  by (simp add: key_wf_def key_disable_def)

text \<open>
  A round is any number of timer interrupts followed by one poll.  The trace of a key
  records, per round, whether the poll reported a press and whether it reported a release.
\<close>

definition key_round :: "(nat \<Rightarrow> bool) list \<Rightarrow> key_globals \<Rightarrow> key_globals" where
  "key_round pins k = key_poll (fold TIMER0_OVF_vect pins k)"

fun edge_trace :: "nat \<Rightarrow> (nat \<Rightarrow> bool) list list \<Rightarrow> key_globals \<Rightarrow> (bool \<times> bool) list" where
  "edge_trace j [] k = []"
| "edge_trace j (pins # rounds) k =
     (let k' = key_round pins k
      in (bit (g_key_down k') j, bit (g_key_up k') j) # edge_trace j rounds k')"

fun alternating :: "bool \<Rightarrow> (bool \<times> bool) list \<Rightarrow> bool" where
  "alternating held [] \<longleftrightarrow> True"
| "alternating held ((down, up) # es) \<longleftrightarrow>
     \<not> (down \<and> up) \<and> (down \<longrightarrow> \<not> held) \<and> (up \<longrightarrow> held) \<and>
     alternating (down \<or> held \<and> \<not> up) es"

lemma prev_state_run [mf_frame]:
  "g_key_prev_state (fold TIMER0_OVF_vect pins k) = g_key_prev_state k"
  by (rule fold_frame) (simp add: mf_frame)

lemma key_round_edges:
  fixes k pins j
  defines "k' \<equiv> key_round pins k"
  shows "bit (g_key_down k') j \<longleftrightarrow> bit (g_key_prev_state k') j \<and> \<not> bit (g_key_prev_state k) j"
    and "bit (g_key_up k') j \<longleftrightarrow> bit (g_key_prev_state k) j \<and> \<not> bit (g_key_prev_state k') j"
  by (simp_all add: k'_def key_round_def key_poll_def bit_key_calc mf_frame)

lemma key_read_last_ten:
  assumes "key_wf k" and "10 \<le> length pins" and "j < 64"
  shows "bit (g_key_state (snd (key_read (fold TIMER0_OVF_vect pins k)))) j
         \<longleftrightarrow> (\<forall>pin \<in> set (drop (length pins - 10) pins). pin j)"
proof -
  have "key_wf (fold TIMER0_OVF_vect pins k)"
    using assms(1) by (rule debounce.inv_run)
  moreover have "recent_samples (fold TIMER0_OVF_vect pins k)
                 = map read_sample (drop (length pins - 10) pins)"
    using debounce.window_full [of k pins] assms by (simp add: DEBOUNCE_BUFFER_SIZE_def)
  ultimately show ?thesis
    using assms(3) by (simp add: bit_key_read bit_read_sample)
qed

section \<open>Properties\<close>

text \<open>C2: debouncing.  After at least ten timer interrupts, a poll reports a key as pressed
  exactly when the key's input was high in each of the ten most recent samples, whatever
  the buffer held before.
\<close>

theorem debounce_last_ten:
  assumes "key_wf k" and "10 \<le> length pins" and "j < 64"
  shows "bit (g_key_state (snd (key_read (fold TIMER0_OVF_vect pins k)))) j
         \<longleftrightarrow> (\<forall>pin \<in> set (drop (length pins - 10) pins). pin j)"
  using assms by (rule key_read_last_ten)

text \<open>C25: presses and releases of a key alternate.  Over any sequence of rounds of interrupts
  and polls, no poll reports a press and a release of one key at once, a press is only
  reported for a key not held, and a release only for a key held since its last press.
\<close>

theorem press_release_alternate:
  "alternating (bit (g_key_prev_state k) j) (edge_trace j rounds k)"
proof (induction rounds arbitrary: k)
  case Nil
  then show ?case by simp
next
  case (Cons pins rounds)
  let ?k = "key_round pins k"
  have "(bit (g_key_down ?k) j \<or> bit (g_key_prev_state k) j \<and> \<not> bit (g_key_up ?k) j)
        = bit (g_key_prev_state ?k) j"
    using key_round_edges [of pins k j] by blast
  with Cons.IH [of ?k] key_round_edges [of pins k j] show ?case
    by (auto simp: Let_def)
qed

text \<open>\<^verbatim>\<open>key_setup\<close> clears the first five samples only.  The upper half of the debounce
  buffer keeps what it held, since the size passed to \<^verbatim>\<open>memset\<close> counts four bytes for each
  of the ten eight-byte cells.
\<close>

theorem key_setup_clears_half:
  assumes "key_wf k" and "i < 10"
  shows "g_key_debounce_buffer (key_setup k) ! i
         = (if i < 5 then 0 else g_key_debounce_buffer k ! i)"
  using assms
  by (simp add: key_setup_def memset_u64_cells_def key_wf_def DEBOUNCE_BUFFER_SIZE_def nth_append)

section \<open>Witnesses\<close>

definition key_example :: key_globals where
  "key_example = \<lparr>g_key_debounce_buffer = replicate 10 0xFF, buffer_pos = 3, g_key_state = 0,
     g_key_prev_state = 0, g_key_up = 0, g_key_down = 0, g_key_bank_last_up = 0,
     system_time_ms = 0, last_led_refresh_time_ms = 0, DDRC_key = 0, DDRD = 0, PORTC_key = 0,
     PORTD = 0, TCCR0B = 0, TCNT0 = 0, TIMSK0 = 0, interrupts_enabled = False\<rparr>"

lemma key_wf_example: "key_wf key_example"
  by (simp add: key_wf_def key_example_def DEBOUNCE_BUFFER_SIZE_def)

theorem debounce_last_ten_witness:
  "bit (g_key_state (snd (key_read
     (fold TIMER0_OVF_vect (replicate 10 (\<lambda>i. i = 7)) key_example)))) 7"
  using debounce_last_ten [OF key_wf_example, of "replicate 10 (\<lambda>i. i = 7)" 7] by simp

theorem key_setup_clears_half_witness:
  "g_key_debounce_buffer (key_setup key_example) ! 7 = 0xFF"
  using key_setup_clears_half [OF key_wf_example, of 7] by (simp add: key_example_def)

end
