(* ===== verification/Mf_Random.thy ===== *)
theory Mf_Random
  imports Mf_Prelude
begin

unbundle bit_operations_syntax

text \<open>
  Pseudo-random numbers and fixed-point helpers (\<^verbatim>\<open>random.c\<close>).  The record holds the two
  seeds.  Signed bytes are 8-bit words read with \<^const>\<open>sint\<close>; intermediate C arithmetic
  happens in the 16-bit \<^verbatim>\<open>int\<close> of the AVR.  The floating-point \<^verbatim>\<open>clampf\<close> has no caller and
  is left out.
\<close>

section \<open>State and operations\<close>

record random_globals =
  g_seed16 :: u16
  g_seed32 :: u32

definition random_init :: random_globals where
  "random_init = \<lparr>g_seed16 = 36243, g_seed32 = 2463534242\<rparr>"

definition sin_table :: "int list" where
  "sin_table =
    [   0,   24,   48,   70,   89,  105,  117,  124,
      127,  124,  117,  105,   89,   70,   48,   24,
        0,  -24,  -48,  -70,  -89, -105, -117, -124,
     -127, -124, -117, -105,  -89,  -70,  -48,  -24]"

definition grad_table :: "int list" where
  "grad_table =
    [  24,   24,   22,   19,   16,   12,    7,    3,
       -3,   -7,  -12,  -16,  -19,  -22,  -24,  -24,
      -24,  -24,  -22,  -19,  -16,  -12,   -7,   -3,
        3,    7,   12,   16,   19,   22,   24,   24]"

definition set_seed16 :: "u16 \<Rightarrow> random_globals \<Rightarrow> random_globals" where
  "set_seed16 seed r = r\<lparr>g_seed16 := seed\<rparr>"

definition xorshift16 :: "u16 \<Rightarrow> u16" where
  "xorshift16 s =
     (let s = s XOR push_bit 13 s;
          s = s XOR drop_bit 9 s;
          s = s XOR push_bit 7 s
      in s)"

definition random16 :: "random_globals \<Rightarrow> u16 \<times> random_globals" where
  "random16 r = (let s = xorshift16 (g_seed16 r) in (s, r\<lparr>g_seed16 := s\<rparr>))"

definition set_seed32 :: "u32 \<Rightarrow> random_globals \<Rightarrow> random_globals" where
  "set_seed32 seed r = r\<lparr>g_seed32 := seed\<rparr>"

definition xorshift32 :: "u32 \<Rightarrow> u32" where
  "xorshift32 s =
     (let s = s XOR push_bit 13 s;
          s = s XOR drop_bit 17 s;
          s = s XOR push_bit 5 s
      in s)"

definition random32 :: "random_globals \<Rightarrow> u32 \<times> random_globals" where
  "random32 r = (let s = xorshift32 (g_seed32 r) in (s, r\<lparr>g_seed32 := s\<rparr>))"

text \<open>
  \<^verbatim>\<open>(interp * grad) >> 3\<close> is an arithmetic shift of a 16-bit \<^verbatim>\<open>int\<close>, that is, division
  rounding down; the sum is cut back to a signed byte.
\<close>

definition sintable :: "u8 \<Rightarrow> u8" where
  "sintable angle =
     (let index = unat (drop_bit 3 angle);
          result = sin_table ! index;
          interp = uint (angle AND 0x7);
          grad = grad_table ! index
      in word_of_int (result + (interp * grad) div 8))"

text \<open>\<^verbatim>\<open>int16_t temp = t * (high-low)\<close>: the product is cut to 16 bits.\<close>

definition lerp :: "u8 \<Rightarrow> u8 \<Rightarrow> u8 \<Rightarrow> u8" where
  "lerp high low t =
     (let temp = sint (word_of_int (uint t * (uint high - uint low)) :: u16)
      in word_of_int (uint low + temp div 256))"

definition clamp :: "u8 \<Rightarrow> u8 \<Rightarrow> u8 \<Rightarrow> u8" where
  "clamp value low high =
     (if sint value < sint low then low
      else if sint value > sint high then high
      else value)"

definition clamp_cc :: "u8 \<Rightarrow> u8" where
  "clamp_cc value =
     (if sint value \<le> 0 then 0 else if sint value \<ge> 127 then 127 else value)"

text \<open>Division by zero, at \<^verbatim>\<open>t == min == max\<close>, has no defined result.\<close>

definition smoothstep :: "u8 \<Rightarrow> u8 \<Rightarrow> u8 \<Rightarrow> u8 option" where
  "smoothstep mn mx t =
     (if t < mn then Some 0
      else if t > mx then Some 255
      else if mx = mn then None
      else let x = (uint t - uint mn) div (uint mx - uint mn)
           in Some (word_of_int (3 * x * x - 2 * x * x * x)))"

definition random_color :: "random_globals \<Rightarrow> u32 \<times> random_globals" where
  "random_color rg =
     (let (v, rg') = random16 rg;
          phase = (ucast (drop_bit 8 v) :: u8);
          r = sintable phase + 127;
          g = sintable (phase + 85) + 127;
          b = sintable (phase + 170) + 127
      in (push_bit 16 (ucast r) OR push_bit 8 (ucast g) OR ucast b, rg'))"

section \<open>The generator\<close>

text \<open>Each xorshift step is undone by xorshift steps of the same kind.\<close>

lemma push_bit_zero: "16 \<le> n \<Longrightarrow> push_bit n (x :: u16) = 0"
  by (rule bit_word_eqI) (simp add: bit_push_bit_iff)

lemma drop_bit_zero: "16 \<le> n \<Longrightarrow> drop_bit n (x :: u16) = 0"
  by (rule bit_word_eqI) (auto simp: bit_drop_bit_eq dest: bit_imp_le_length)

lemma undo_push13: "(x XOR push_bit 13 x) XOR push_bit 13 (x XOR push_bit 13 x) = (x :: u16)"
  by (simp add: push_bit_xor push_bit_zero xor.assoc [symmetric]) (simp add: xor.assoc)

lemma undo_drop9: "(x XOR drop_bit 9 x) XOR drop_bit 9 (x XOR drop_bit 9 x) = (x :: u16)"
  by (simp add: drop_bit_xor drop_bit_zero xor.assoc [symmetric]) (simp add: xor.assoc)

lemma undo_push7:
  "(x XOR push_bit 7 x) XOR push_bit 7 (x XOR push_bit 7 x)
     XOR push_bit 14 (x XOR push_bit 7 x) = (x :: u16)"
  by (simp add: push_bit_xor push_bit_zero xor.assoc [symmetric]) (simp add: xor.assoc)

definition xorshift16_back :: "u16 \<Rightarrow> u16" where
  "xorshift16_back s =
     (let s = s XOR push_bit 7 s XOR push_bit 14 s;
          s = s XOR drop_bit 9 s;
          s = s XOR push_bit 13 s
      in s)"

lemma xorshift16_back: "xorshift16_back (xorshift16 s) = s"
  by (simp only: xorshift16_back_def xorshift16_def Let_def undo_push7 undo_drop9 undo_push13)

lemma xorshift16_zero: "xorshift16 0 = 0"
  by (simp add: xorshift16_def)

lemma xorshift16_nonzero: "s \<noteq> 0 \<Longrightarrow> xorshift16 s \<noteq> 0"
  by (metis xorshift16_back xorshift16_zero)

section \<open>Interpolation\<close>

text \<open>Cutting the product to 16 bits changes it by a multiple of 65536, which the final byte forgets.\<close>

lemma sint_u16_cut: "\<exists>k. sint (word_of_int x :: u16) = x + k * 65536"
proof -
  have "sint (word_of_int x :: u16) mod 65536 = x mod 65536"
    by (simp add: sint_uint take_bit_eq_mod unsigned_of_int signed_take_bit_eq_take_bit_shift mod_simps)
  then have "65536 dvd (sint (word_of_int x :: u16) - x)"
    by (simp add: mod_eq_dvd_iff)
  then obtain k where "sint (word_of_int x :: u16) - x = 65536 * k" ..
  then show ?thesis by (intro exI [of _ k]) simp
qed

lemma lerp_exact:
  "lerp high low t = word_of_int (uint low + (uint t * (uint high - uint low)) div 256)"
proof -
  let ?x = "uint t * (uint high - uint low)"
  obtain k where k: "sint (word_of_int ?x :: u16) = ?x + k * 65536"
    using sint_u16_cut by blast
  have "(?x + k * 65536) div 256 = ?x div 256 + k * 256"
    by (simp add: div_mult_self1 [of 256 ?x "k * 256", simplified mult.assoc])
  then have "lerp high low t = word_of_int ((uint low + ?x div 256) + k * 256)"
    by (simp only: lerp_def Let_def k add.assoc)
  also have "\<dots> = word_of_int (uint low + ?x div 256) + (word_of_int (k * 256) :: u8)"
    by simp
  also have "(word_of_int (k * 256) :: u8) = 0"
    by (rule word_of_int_eq_0_iff [THEN iffD2]) simp
  finally show ?thesis by simp
qed

text \<open>\<^verbatim>\<open>lerp\<close> interpolates.  Although the product is cut to a 16-bit \<^verbatim>\<open>int16_t\<close>, which
  overflows for half of the inputs, the returned byte is the rounded-down interpolation
  and lies between the two end points.
\<close>

theorem lerp_between:
  assumes "low \<le> high"
  shows "uint (lerp high low t) = uint low + (uint t * (uint high - uint low)) div 256
         \<and> low \<le> lerp high low t \<and> lerp high low t \<le> high"
proof -
  let ?d = "uint high - uint low"
  have "0 \<le> uint low" "uint high < 256"
    using uint_bounded [of high] by simp_all
  with assms have d: "0 \<le> ?d" "?d < 256"
    by (auto simp only: word_le_def)
  have t: "0 \<le> uint t" "uint t \<le> 255"
    using uint_bounded [of t] by simp_all
  have lo: "0 \<le> (uint t * ?d) div 256"
    using d t by (simp add: pos_imp_zdiv_nonneg_iff)
  have "uint t * ?d \<le> 255 * ?d"
    using d t by (intro mult_right_mono) auto
  moreover have "x div 256 \<le> d" if "x \<le> 255 * d" "0 \<le> d" for x d :: int
    using that by linarith
  ultimately have hi: "(uint t * ?d) div 256 \<le> ?d"
    using d(1) by blast
  have eq: "uint (lerp high low t) = uint low + (uint t * ?d) div 256"
    using lo hi uint_bounded [of high]
    by (simp only: lerp_exact uint_word_of_int) (simp add: uint_bounded)
  then show ?thesis
    using lo hi by (simp add: word_le_def)
qed

text \<open>The 16-bit generator never gets stuck at zero.  From a nonzero seed, which the
  initial seed 36243 is, every number it ever returns is nonzero.
\<close>

theorem random16_never_zero:
  assumes "g_seed16 r \<noteq> 0"
  shows "fst (random16 (((snd \<circ> random16) ^^ n) r)) \<noteq> 0"
proof -
  have "g_seed16 (((snd \<circ> random16) ^^ n) r) \<noteq> 0"
    by (induction n) (simp_all add: assms random16_def Let_def xorshift16_nonzero)
  then show ?thesis by (simp add: random16_def Let_def xorshift16_nonzero)
qed

end
