(* ===== verification/Mf_Combo.thy ===== *)
theory Mf_Combo
  imports Mf_Key
begin

unbundle bit_operations_syntax

text \<open>
  The combo recognizer (\<^verbatim>\<open>combo.c\<close>, \<^verbatim>\<open>combo.h\<close>): a table-driven machine over the edges of
  the lower sixteen keys that reports when one of five key combinations fires and when the
  key that completed it is released.  The record holds \<^verbatim>\<open>combo_state\<close> and the two static
  variables of \<^verbatim>\<open>combo_recognize\<close>.  Reading the transition table past its end is a
  \<^const>\<open>Out_Of_Bounds\<close> stop.
\<close>

section \<open>Data\<close>

datatype combo_action_t =
    COMBO_NONE
  | COMBO_A_DOWN | COMBO_B_DOWN | COMBO_C_DOWN | COMBO_D_DOWN | COMBO_E_DOWN
  | COMBO_A_RELEASE | COMBO_B_RELEASE | COMBO_C_RELEASE | COMBO_D_RELEASE | COMBO_E_RELEASE

text \<open>The values of the C enumeration.\<close>

fun combo_num :: "combo_action_t \<Rightarrow> nat" where
  "combo_num COMBO_NONE = 0"
| "combo_num COMBO_A_DOWN = 1"
| "combo_num COMBO_B_DOWN = 2"
| "combo_num COMBO_C_DOWN = 3"
| "combo_num COMBO_D_DOWN = 4"
| "combo_num COMBO_E_DOWN = 5"
| "combo_num COMBO_A_RELEASE = 6"
| "combo_num COMBO_B_RELEASE = 7"
| "combo_num COMBO_C_RELEASE = 8"
| "combo_num COMBO_D_RELEASE = 9"
| "combo_num COMBO_E_RELEASE = 10"

definition combo_of_num :: "nat \<Rightarrow> combo_action_t" where
  "combo_of_num n =
     [COMBO_NONE, COMBO_A_DOWN, COMBO_B_DOWN, COMBO_C_DOWN, COMBO_D_DOWN, COMBO_E_DOWN,
      COMBO_A_RELEASE, COMBO_B_RELEASE, COMBO_C_RELEASE, COMBO_D_RELEASE, COMBO_E_RELEASE] ! n"

record combo_state_t =
  state_num :: u8
  rule_key :: u8
  next_state :: u8
  rule_action :: combo_action_t

definition KEYDOWN :: u8 where "KEYDOWN = 0x10"
definition KEYUP :: u8 where "KEYUP = 0x20"

abbreviation rule :: "u8 \<Rightarrow> u8 \<Rightarrow> u8 \<Rightarrow> combo_action_t \<Rightarrow> combo_state_t" where
  "rule s k n a \<equiv> \<lparr>state_num = s, rule_key = k, next_state = n, rule_action = a\<rparr>"

definition state_offset :: "nat list" where
  "state_offset =
    [0,
     4, 5, 6, 7,
     8, 9, 10, 11,
     12, 13, 14,
     16, 17, 18, 19, 20, 21,
     22, 23, 24, 25, 26, 27, 28, 29, 30,
     32, 33, 34, 35, 36,
     38, 39,
     41, 42, 43]"

definition state_table :: "combo_state_t list" where
  "state_table =
    [rule 0 (0 OR KEYDOWN) 1 COMBO_NONE,
     rule 0 (5 OR KEYDOWN) 5 COMBO_NONE,
     rule 0 (4 OR KEYDOWN) 9 COMBO_NONE,
     rule 0 (8 OR KEYDOWN) 18 COMBO_NONE,
     rule 1 (1 OR KEYDOWN) 2 COMBO_NONE,
     rule 2 (2 OR KEYDOWN) 3 COMBO_NONE,
     rule 3 (3 OR KEYDOWN) 4 COMBO_A_DOWN,
     rule 4 (3 OR KEYUP) 0 COMBO_A_RELEASE,
     rule 5 (6 OR KEYDOWN) 6 COMBO_NONE,
     rule 6 (9 OR KEYDOWN) 7 COMBO_NONE,
     rule 7 (10 OR KEYDOWN) 8 COMBO_C_DOWN,
     rule 8 (10 OR KEYUP) 0 COMBO_C_RELEASE,
     rule 9 (4 OR KEYUP) 10 COMBO_NONE,
     rule 10 (5 OR KEYDOWN) 11 COMBO_NONE,
     rule 11 (5 OR KEYUP) 12 COMBO_NONE,
     rule 11 (6 OR KEYDOWN) 6 COMBO_NONE,
     rule 12 (6 OR KEYDOWN) 13 COMBO_NONE,
     rule 13 (6 OR KEYUP) 14 COMBO_NONE,
     rule 14 (6 OR KEYDOWN) 15 COMBO_NONE,
     rule 15 (6 OR KEYUP) 16 COMBO_NONE,
     rule 16 (7 OR KEYDOWN) 17 COMBO_D_DOWN,
     rule 17 (7 OR KEYUP) 0 COMBO_D_RELEASE,
     rule 18 (8 OR KEYUP) 19 COMBO_NONE,
     rule 19 (8 OR KEYDOWN) 20 COMBO_NONE,
     rule 20 (8 OR KEYUP) 21 COMBO_NONE,
     rule 21 (0 OR KEYDOWN) 22 COMBO_NONE,
     rule 22 (0 OR KEYUP) 23 COMBO_NONE,
     rule 23 (0 OR KEYDOWN) 24 COMBO_NONE,
     rule 24 (0 OR KEYUP) 25 COMBO_NONE,
     rule 25 (4 OR KEYDOWN) 26 COMBO_NONE,
     rule 26 (4 OR KEYUP) 27 COMBO_NONE,
     rule 26 (6 OR KEYDOWN) 6 COMBO_NONE,
     rule 27 (5 OR KEYDOWN) 28 COMBO_NONE,
     rule 28 (5 OR KEYUP) 29 COMBO_NONE,
     rule 29 (4 OR KEYDOWN) 30 COMBO_NONE,
     rule 30 (4 OR KEYUP) 31 COMBO_NONE,
     rule 31 (5 OR KEYDOWN) 32 COMBO_NONE,
     rule 31 (6 OR KEYDOWN) 13 COMBO_NONE,
     rule 32 (5 OR KEYUP) 33 COMBO_NONE,
     rule 33 (7 OR KEYDOWN) 34 COMBO_NONE,
     rule 33 (5 OR KEYDOWN) 11 COMBO_NONE,
     rule 34 (7 OR KEYUP) 35 COMBO_NONE,
     rule 35 (6 OR KEYDOWN) 36 COMBO_E_DOWN,
     rule 36 (6 OR KEYUP) 0 COMBO_E_RELEASE]"

record combo_globals =
  combo_state :: u8
  combo_action :: combo_action_t
  combo_release_key :: u16

definition combo_init :: combo_globals where
  "combo_init = \<lparr>combo_state = 0, combo_action = COMBO_NONE, combo_release_key = 0\<rparr>"

section \<open>Operations\<close>

text \<open>
  The loop of \<^verbatim>\<open>rightmost_bit_16\<close>: sixteen shifts empty the 16-bit mask, so sixteen
  iterations are enough (\<open>rightmost_loop_exit\<close> below).
\<close>

fun rightmost_loop :: "nat \<Rightarrow> u16 \<Rightarrow> u16 \<Rightarrow> u16" where
  "rightmost_loop 0 value b = b"
| "rightmost_loop (Suc n) value b =
     (if b \<noteq> 0 \<and> value AND b = 0 then rightmost_loop n value (push_bit 1 b) else b)"

definition rightmost_bit_16 :: "u16 \<Rightarrow> u16" where
  "rightmost_bit_16 value = rightmost_loop 16 value 1"

definition combo_setup :: "combo_globals \<Rightarrow> combo_globals" where
  "combo_setup c = c\<lparr>combo_state := 0\<rparr>"

text \<open>The test of one rule against the key masks.\<close>

definition keytest :: "u8 \<Rightarrow> u16 \<Rightarrow> u16 \<Rightarrow> u16 \<Rightarrow> bool" where
  "keytest keyrule keydown keyup keystate =
     (let keytest = keyrule AND 0xf0;
          keybit = keyrule AND 0x0f;
          keymask = (if keytest = KEYDOWN then keydown
                     else if keytest = KEYUP then keyup
                     else keystate)
      in push_bit (unat keybit) 1 AND keymask \<noteq> 0)"

text \<open>The scan over the rules of a state, starting at the row \<open>i\<close> of the table.\<close>

function combo_scan ::
  "u8 \<Rightarrow> u16 \<Rightarrow> u16 \<Rightarrow> u16 \<Rightarrow> nat \<Rightarrow> u8 \<times> combo_action_t \<Rightarrow> (u8 \<times> combo_action_t) run" where
  "combo_scan st keydown keyup keystate i acc =
     (if i < length state_table then
        (let r = state_table ! i in
         if state_num r = st then
           (if keytest (rule_key r) keydown keyup keystate
            then Inr (next_state r, rule_action r)
            else combo_scan st keydown keyup keystate (Suc i) (0, COMBO_NONE))
         else Inr acc)
      else Inl Out_Of_Bounds)"
  by pat_completeness auto
termination
  by (relation "measure (\<lambda>(_, _, _, _, i, _). length state_table - i)") auto

declare combo_scan.simps [simp del]

text \<open>
  The rest of \<^verbatim>\<open>combo_recognize\<close> once no combo is held: follow a rule of the current state or
  fall back to state 0, and remember the key that completed a combo.
\<close>

definition combo_transition ::
  "u16 \<Rightarrow> u16 \<Rightarrow> u16 \<Rightarrow> combo_globals \<Rightarrow> (combo_action_t \<times> combo_globals) run" where
  "combo_transition keydown keyup keystate c =
     andthen (load state_offset (unat (combo_state c))) (\<lambda>offset.
     andthen (combo_scan (combo_state c) keydown keyup keystate offset (0, combo_action c))
       (\<lambda>(nxt, a).
          let c = c\<lparr>combo_state := nxt, combo_action := a\<rparr>
          in Inr (a, if a \<noteq> COMBO_NONE
                     then c\<lparr>combo_release_key := rightmost_bit_16 keydown\<rparr> else c)))"

definition combo_recognize ::
  "u64 \<Rightarrow> u64 \<Rightarrow> u64 \<Rightarrow> combo_globals \<Rightarrow> (combo_action_t \<times> combo_globals) run" where
  "combo_recognize g_down g_up g_state c =
     (let keydown = (ucast g_down :: u16);
          keyup = (ucast g_up :: u16);
          keystate = (ucast g_state :: u16) in
      if keydown = 0 \<and> keyup = 0 then Inr (COMBO_NONE, c)
      else if keystate = 0x00F0 \<and> combo_action c \<noteq> COMBO_B_DOWN then
        (let keydown_bit = rightmost_bit_16 keydown in
         if keydown_bit = 0 then Inr (COMBO_NONE, c\<lparr>combo_action := COMBO_NONE\<rparr>)
         else Inr (COMBO_B_DOWN,
                   c\<lparr>combo_release_key := keydown_bit, combo_action := COMBO_B_DOWN\<rparr>))
      else if combo_action c \<noteq> COMBO_NONE \<and> combo_num (combo_action c) \<le> combo_num COMBO_E_DOWN then
        (if keystate AND combo_release_key c = 0 then
           (let a = combo_of_num (combo_num (combo_action c)
                      + (combo_num COMBO_A_RELEASE - combo_num COMBO_A_DOWN))
            in Inr (a, c\<lparr>combo_state := 0, combo_action := a\<rparr>))
         else Inr (COMBO_NONE, c))
      else combo_transition keydown keyup keystate c)"

text \<open>A run over polls: each poll gives the key masks of \<^verbatim>\<open>key_calc\<close>.\<close>

fun combo_run :: "(u64 \<times> u64 \<times> u64) list \<Rightarrow> combo_globals \<Rightarrow> (combo_action_t list \<times> combo_globals) run" where
  "combo_run [] c = Inr ([], c)"
| "combo_run ((d, u, s) # polls) c =
     andthen (combo_recognize d u s c) (\<lambda>(a, c').
     andthen (combo_run polls c') (\<lambda>(as, c''). Inr (a # as, c'')))"

text \<open>The masks \<^verbatim>\<open>key_calc\<close> produces from two successive key states, and a whole sequence of them.\<close>

definition edge_masks :: "u64 \<Rightarrow> u64 \<Rightarrow> u64 \<times> u64 \<times> u64" where
  "edge_masks p s = ((p XOR s) AND s, (p XOR s) AND p, s)"

fun edge_polls :: "u64 \<Rightarrow> u64 list \<Rightarrow> (u64 \<times> u64 \<times> u64) list" where
  "edge_polls p [] = []"
| "edge_polls p (s # ss) = edge_masks p s # edge_polls s ss"

lemma key_calc_edge_masks:
  "(g_key_down (key_calc k), g_key_up (key_calc k), g_key_state (key_calc k))
   = edge_masks (g_key_prev_state k) (g_key_state k)"
  by (simp add: key_calc_def edge_masks_def)

section \<open>The lowest set bit\<close>

lemma and_push_bit_zero: "i < 16 \<Longrightarrow> (v :: u16) AND push_bit i 1 = 0 \<longleftrightarrow> \<not> bit v i"
proof -
  assume "i < 16"
  have "v AND push_bit i 1 = 0 \<longleftrightarrow> (\<forall>n<16. \<not> bit (v AND push_bit i 1) n)"
    by (simp add: bit_eq_iff)
  with \<open>i < 16\<close> show ?thesis by (auto simp: bit_simps)
qed

lemma push_bit_16_nonzero: "i < 16 \<Longrightarrow> (push_bit i 1 :: u16) \<noteq> 0"
proof
  assume "i < 16" and z: "(push_bit i 1 :: u16) = 0"
  have "bit (push_bit i 1 :: u16) i" using \<open>i < 16\<close> by (simp add: bit_simps)
  then show False unfolding z by simp
qed

lemma rightmost_loop_exit:
  assumes "i + n = 16" and "\<forall>k<i. \<not> bit v k"
  shows "rightmost_loop n v (push_bit i 1) = 0 \<and> v = 0 \<or>
         (\<exists>j<16. bit v j \<and> (\<forall>k<j. \<not> bit v k) \<and> rightmost_loop n v (push_bit i 1) = push_bit j 1)"
  using assms
proof (induction n arbitrary: i)
  case 0
  then have "v = 0" by (intro bit_word_eqI) simp
  with 0 show ?case by simp
next
  case (Suc n)
  then have i: "i < 16" by simp
  show ?case
  proof (cases "bit v i")
    case True
    with Suc.prems i show ?thesis
      by (auto simp: and_push_bit_zero simp del: push_bit_of_1 intro!: exI [of _ i])
  next
    case False
    with Suc.prems have "\<forall>k<Suc i. \<not> bit v k" by (auto simp: less_Suc_eq)
    moreover have "rightmost_loop (Suc n) v (push_bit i 1) = rightmost_loop n v (push_bit (Suc i) 1)"
      using False i
      by (simp add: and_push_bit_zero push_bit_16_nonzero push_bit_push_bit del: push_bit_of_1)
    ultimately show ?thesis using Suc.IH [of "Suc i"] Suc.prems(1) by simp
  qed
qed

lemma rightmost_bit_16_cases:
  "rightmost_bit_16 v = 0 \<and> v = 0 \<or>
   (\<exists>j<16. bit v j \<and> (\<forall>k<j. \<not> bit v k) \<and> rightmost_bit_16 v = push_bit j 1)"
  using rightmost_loop_exit [of 0 16 v]
  by (simp add: rightmost_bit_16_def del: push_bit_of_1 rightmost_loop.simps)

lemma rightmost_bit_16_zero: "rightmost_bit_16 v = 0 \<longleftrightarrow> v = 0"
  using rightmost_bit_16_cases [of v] push_bit_16_nonzero by fastforce

section \<open>The table scan\<close>

lemma length_state_table [simp]: "length state_table = 44"
  by (simp add: state_table_def)

lemma length_state_offset [simp]: "length state_offset = 37"
  by (simp add: state_offset_def)

lemma last_rule_state: "state_num (state_table ! 43) = 36"
  by (simp add: state_table_def)

lemma table_next_states: "r \<in> set state_table \<Longrightarrow> unat (next_state r) < 37"
  by (auto simp: state_table_def)

lemma offsets_in_table: "n < 37 \<Longrightarrow> state_offset ! n < 44"
proof -
  have "\<forall>x \<in> set state_offset. x < 44" by (simp add: state_offset_def)
  moreover assume "n < 37"
  ultimately show ?thesis by simp
qed

text \<open>A state other than the last stops the scan at the last row at the latest.\<close>

lemma combo_scan_in_table:
  "st \<noteq> 36 \<Longrightarrow> i < 44 \<Longrightarrow> \<exists>res. combo_scan st d u s i acc = Inr res"
proof (induction st d u s i acc rule: combo_scan.induct)
  case (1 st d u s i acc)
  show ?case
  proof (cases "state_num (state_table ! i) = st \<and> \<not> keytest (rule_key (state_table ! i)) d u s")
    case True
    then have "i \<noteq> 43" using last_rule_state "1.prems"(1) by auto
    with "1.prems" have "Suc i < 44" by simp
    with "1.IH" True "1.prems" show ?thesis
      by (subst combo_scan.simps) (simp add: Let_def)
  next
    case False
    with "1.prems"(2) show ?thesis by (subst combo_scan.simps) (auto simp: Let_def)
  qed
qed

lemma combo_scan_next_state:
  "combo_scan st d u s i acc = Inr (nxt, a) \<Longrightarrow> unat (fst acc) < 37 \<Longrightarrow> unat nxt < 37"
proof (induction st d u s i acc rule: combo_scan.induct)
  case (1 st d u s i acc)
  show ?case
  proof (cases "state_num (state_table ! i) = st \<and> \<not> keytest (rule_key (state_table ! i)) d u s")
    case True
    with 1 show ?thesis
      by (subst (asm) combo_scan.simps [of st d u s i]) (simp add: Let_def split: if_splits)
  next
    case False
    with "1.prems" table_next_states [of "state_table ! i"] show ?thesis
      by (subst (asm) combo_scan.simps [of st d u s i]) (auto simp: Let_def split: if_splits)
  qed
qed

section \<open>Invariant\<close>

definition combo_wf :: "combo_globals \<Rightarrow> bool" where
  "combo_wf c \<longleftrightarrow> unat (combo_state c) < 37"

text \<open>A combo is being held: its release has not been reported yet.\<close>

definition combo_held :: "combo_globals \<Rightarrow> bool" where
  "combo_held c \<longleftrightarrow> combo_action c \<noteq> COMBO_NONE \<and> combo_num (combo_action c) \<le> combo_num COMBO_E_DOWN"

lemma combo_wf_init: "combo_wf combo_init"
  by (simp add: combo_wf_def combo_init_def)

lemma combo_transition_wf:
  assumes "combo_transition d u s c = Inr (a, c')"
  shows "combo_wf c'"
proof -
  from assms obtain nxt where
    scan: "combo_scan (combo_state c) d u s (state_offset ! unat (combo_state c))
             (0, combo_action c) = Inr (nxt, a)"
    and c': "combo_state c' = nxt"
    by (auto simp: combo_transition_def andthen_Inr_iff load_Inr_iff Let_def)
  from combo_scan_next_state [OF scan] c' show ?thesis by (simp add: combo_wf_def)
qed

lemma combo_transition_returns:
  assumes "combo_wf c" and "combo_state c \<noteq> 36"
  shows "\<exists>a c'. combo_transition d u s c = Inr (a, c')"
proof -
  from assms(1) have lt: "unat (combo_state c) < 37" by (simp add: combo_wf_def)
  obtain nxt a where "combo_scan (combo_state c) d u s (state_offset ! unat (combo_state c))
                        (0, combo_action c) = Inr (nxt, a)"
    using combo_scan_in_table [OF assms(2) offsets_in_table [OF lt]] by (metis surj_pair)
  with lt show ?thesis by (simp add: combo_transition_def Let_def)
qed

text \<open>
  Either the recognizer answers without consulting the table, keeping the state number or
  resetting it, or no combo is held and it makes a transition.
\<close>

lemma combo_recognize_cases:
  "(\<exists>a c'. combo_recognize d u s c = Inr (a, c') \<and> combo_state c' \<in> {combo_state c, 0})
   \<or> combo_recognize d u s c = combo_transition (ucast d) (ucast u) (ucast s) c \<and> \<not> combo_held c"
  by (simp add: combo_recognize_def combo_held_def Let_def)

lemma combo_recognize_wf [mf_inv]:
  assumes "combo_wf c" and "combo_recognize d u s c = Inr (a, c')"
  shows "combo_wf c'"
  using combo_recognize_cases [of d u s c]
proof
  assume "\<exists>a c'. combo_recognize d u s c = Inr (a, c') \<and> combo_state c' \<in> {combo_state c, 0}"
  with assms show ?thesis by (auto simp: combo_wf_def)
next
  assume "combo_recognize d u s c = combo_transition (ucast d) (ucast u) (ucast s) c \<and> \<not> combo_held c"
  with assms(2) show ?thesis by (metis combo_transition_wf)
qed

lemma combo_recognize_returns:
  assumes "combo_wf c" and "combo_state c \<noteq> 36 \<or> combo_held c"
  shows "\<exists>a c'. combo_recognize d u s c = Inr (a, c')"
  using combo_recognize_cases [of d u s c] combo_transition_returns [OF assms(1)] assms(2) by metis

section \<open>Properties\<close>

text \<open>The search for the rightmost bit ends within its sixteen shifts and returns the
  lowest set bit of the value, or zero when no bit is set.
\<close>

theorem rightmost_bit_16_lowest:
  "(rightmost_bit_16 v = 0 \<and> v = 0) \<or>
   (\<exists>j<16. bit v j \<and> (\<forall>k<j. \<not> bit v k) \<and> rightmost_bit_16 v = push_bit j 1)"
  by (rule rightmost_bit_16_cases)

text \<open>C32: the recognizer stays inside its tables.  From a state number below 37 it returns a
  result with a state number below 37, unless it is in state 36 with no combo held, the
  one state whose rules are the last rows of the transition table.
\<close>

theorem combo_recognize_in_table:
  assumes "combo_wf c" and "combo_state c \<noteq> 36 \<or> combo_held c"
  shows "\<exists>a c'. combo_recognize d u s c = Inr (a, c') \<and> combo_wf c'"
  using combo_recognize_returns [OF assms] combo_recognize_wf [OF assms(1)] by blast

text \<open>That one state is reachable and overruns the table.  Entering combo E and holding its
  last key, pressing keys 3, 4, 5 and 7 and releasing key 3 drops the held combo but leaves
  the machine in state 36; the next key press makes the scan read past the last rule.
\<close>

theorem combo_table_overrun:
  "combo_run (edge_polls 0 [0x100, 0, 0x100, 0, 1, 0, 1, 0, 0x10, 0, 0x20, 0, 0x10, 0,
     0x20, 0, 0x80, 0, 0x40, 0x48, 0xF8, 0xF0, 0xF1]) combo_init = Inl Out_Of_Bounds"
  by code_simp


text \<open>A release can get lost.  Completing combo D and then pressing the remaining keys of
  combo B while its key 7 is held reports B, and after all keys are up the release of D has
  never been reported.
\<close>

theorem combo_release_lost:
  "\<exists>as c. combo_run (edge_polls 0 [0x10, 0, 0x20, 0, 0x40, 0, 0x40, 0, 0x80, 0x90, 0xB0,
             0xF0, 0]) combo_init = Inr (as, c)
     \<and> COMBO_D_DOWN \<in> set as \<and> COMBO_D_RELEASE \<notin> set as"
proof -
  have "combo_run (edge_polls 0 [0x10, 0, 0x20, 0, 0x40, 0, 0x40, 0, 0x80, 0x90, 0xB0,
             0xF0, 0]) combo_init =
        Inr (replicate 8 COMBO_NONE @
             [COMBO_D_DOWN, COMBO_NONE, COMBO_NONE, COMBO_B_DOWN, COMBO_B_RELEASE],
             \<lparr>combo_state = 0, combo_action = COMBO_B_RELEASE, combo_release_key = 0x40\<rparr>)"
    by code_simp
  then show ?thesis by simp
qed

section \<open>Witnesses\<close>

theorem combo_recognize_in_table_witness:
  "\<exists>a c'. combo_recognize 1 0 1 combo_init = Inr (a, c') \<and> combo_wf c'"
  using combo_recognize_in_table [OF combo_wf_init, of 1 0 1] by (simp add: combo_init_def)


end
