(* ===== verification/Mf_Usb.thy ===== *)
theory Mf_Usb
  imports Mf_Prelude "HOL-Library.Sublist"
begin

unbundle bit_operations_syntax

text \<open>
  The USB-MIDI transport the firmware stands on: the device side of LUFA's MIDI class
  driver (\<^verbatim>\<open>MIDIClassDevice.c\<close>) over the stream functions of \<^verbatim>\<open>EndpointStream_AVR8.c\<close> and
  the wait loop of \<^verbatim>\<open>Endpoint_AVR8.c\<close>, for the endpoint configuration of \<^verbatim>\<open>midi.c\<close> (one
  bank of 64 bytes per direction).

  The hardware is the state: the bytes written into the IN bank, the transfers handed to
  the host, whether the host still has to fetch the bank, and the queue of OUT transfers
  the host has sent.  How the host answers while the driver waits for a busy IN bank is an
  input, \<open>host_waits\<close>: the return code of each such wait, success once the list is used
  up.  Control requests, which \<^verbatim>\<open>USB_USBTask\<close> serves, are in \<^verbatim>\<open>Mf_Control\<close>.
\<close>

section \<open>State\<close>

datatype usb_device_state =
    DEVICE_STATE_Unattached | DEVICE_STATE_Powered | DEVICE_STATE_Default
  | DEVICE_STATE_Addressed | DEVICE_STATE_Configured | DEVICE_STATE_Suspended

record MIDI_EventPacket_t =
  Event :: u8
  Data1 :: u8
  Data2 :: u8
  Data3 :: u8

record usb_globals =
  USB_DeviceState :: usb_device_state
  in_bank :: "u8 list"
  in_transfers :: "u8 list list"
  in_busy :: bool
  host_waits :: "u8 list"
  out_queue :: "u8 list list"

definition MIDI_STREAM_EPSIZE :: nat where "MIDI_STREAM_EPSIZE = 64"

definition ENDPOINT_RWSTREAM_NoError :: u8 where "ENDPOINT_RWSTREAM_NoError = 0"
definition ENDPOINT_RWSTREAM_EndpointStalled :: u8 where "ENDPOINT_RWSTREAM_EndpointStalled = 1"
definition ENDPOINT_RWSTREAM_DeviceDisconnected :: u8 where "ENDPOINT_RWSTREAM_DeviceDisconnected = 2"
definition ENDPOINT_RWSTREAM_BusSuspended :: u8 where "ENDPOINT_RWSTREAM_BusSuspended = 3"
definition ENDPOINT_RWSTREAM_Timeout :: u8 where "ENDPOINT_RWSTREAM_Timeout = 4"

text \<open>The packed struct as it lies in memory.\<close>

definition packet_bytes :: "MIDI_EventPacket_t \<Rightarrow> u8 list" where
  "packet_bytes p = [Event p, Data1 p, Data2 p, Data3 p]"

section \<open>The wait loop\<close>

text \<open>
  One turn of the loop of \<^verbatim>\<open>Endpoint_WaitUntilReady\<close> looks at the bank, the device state,
  the stall flag and the frame number.  \<^const>\<open>None\<close> means the loop is still turning when
  the observations end.
\<close>

record wait_obs =
  obs_ready :: bool
  obs_state :: usb_device_state
  obs_stalled :: bool
  obs_frame :: u16

fun wait_loop :: "u8 \<Rightarrow> u16 \<Rightarrow> wait_obs list \<Rightarrow> u8 option" where
  "wait_loop rem prev [] = None"
| "wait_loop rem prev (ob # obs) =
     (if obs_ready ob then Some ENDPOINT_RWSTREAM_NoError
      else if obs_state ob = DEVICE_STATE_Unattached then Some ENDPOINT_RWSTREAM_DeviceDisconnected
      else if obs_state ob = DEVICE_STATE_Suspended then Some ENDPOINT_RWSTREAM_BusSuspended
      else if obs_stalled ob then Some ENDPOINT_RWSTREAM_EndpointStalled
      else if obs_frame ob \<noteq> prev
        then (if rem = 0 then Some ENDPOINT_RWSTREAM_Timeout
              else wait_loop (rem - 1) (obs_frame ob) obs)
      else wait_loop rem prev obs)"

definition USB_STREAM_TIMEOUT_MS :: u8 where "USB_STREAM_TIMEOUT_MS = 100"

definition Endpoint_WaitUntilReady_obs :: "u16 \<Rightarrow> wait_obs list \<Rightarrow> u8 option" where
  "Endpoint_WaitUntilReady_obs frame obs = wait_loop USB_STREAM_TIMEOUT_MS frame obs"

fun frame_changes :: "u16 \<Rightarrow> wait_obs list \<Rightarrow> nat" where
  "frame_changes prev [] = 0"
| "frame_changes prev (ob # obs) =
     (if obs_frame ob \<noteq> prev then 1 else 0) + frame_changes (obs_frame ob) obs"

section \<open>The IN endpoint\<close>

definition in_ReadWriteAllowed :: "usb_globals \<Rightarrow> bool" where
  "in_ReadWriteAllowed u \<longleftrightarrow> \<not> in_busy u \<and> length (in_bank u) < MIDI_STREAM_EPSIZE"

definition Endpoint_ClearIN :: "usb_globals \<Rightarrow> usb_globals" where
  "Endpoint_ClearIN u =
     u\<lparr>in_transfers := in_transfers u @ [in_bank u], in_bank := [], in_busy := True\<rparr>"

definition in_WaitUntilReady :: "usb_globals \<Rightarrow> u8 \<times> usb_globals" where
  "in_WaitUntilReady u =
     (if \<not> in_busy u then (ENDPOINT_RWSTREAM_NoError, u)
      else (case host_waits u of
              [] \<Rightarrow> (ENDPOINT_RWSTREAM_NoError, u\<lparr>in_busy := False\<rparr>)
            | r # rs \<Rightarrow> (r, u\<lparr>host_waits := rs, in_busy := (r \<noteq> ENDPOINT_RWSTREAM_NoError)\<rparr>)))"

lemma in_WaitUntilReady_success:
  "in_WaitUntilReady u = (ENDPOINT_RWSTREAM_NoError, u') \<Longrightarrow>
   \<not> in_busy u' \<and> in_bank u' = in_bank u \<and> in_transfers u' = in_transfers u
   \<and> USB_DeviceState u' = USB_DeviceState u \<and> out_queue u' = out_queue u"
  by (auto simp: in_WaitUntilReady_def split: if_splits list.splits)

function write_loop :: "u8 list \<Rightarrow> usb_globals \<Rightarrow> u8 \<times> usb_globals" where
  "write_loop [] u = (ENDPOINT_RWSTREAM_NoError, u)"
| "write_loop (b # bs) u =
     (if in_ReadWriteAllowed u then write_loop bs (u\<lparr>in_bank := in_bank u @ [b]\<rparr>)
      else (let (r, u') = in_WaitUntilReady (Endpoint_ClearIN u)
            in if r \<noteq> ENDPOINT_RWSTREAM_NoError then (r, u') else write_loop (b # bs) u'))"
  by pat_completeness auto

termination
proof (relation "measures [length \<circ> fst, \<lambda>(bs, u). if in_ReadWriteAllowed u then 0 else 1]",
    goal_cases)
  case (3 b bs u x r u')
  then have "in_ReadWriteAllowed u'"
    using in_WaitUntilReady_success [of "Endpoint_ClearIN u" u']
    by (simp add: in_ReadWriteAllowed_def Endpoint_ClearIN_def MIDI_STREAM_EPSIZE_def)
  with 3 show ?case by simp
qed auto

declare write_loop.simps(2) [simp del]

definition Endpoint_Write_Stream_LE :: "u8 list \<Rightarrow> usb_globals \<Rightarrow> u8 \<times> usb_globals" where
  "Endpoint_Write_Stream_LE bs u =
     (let (r, u) = in_WaitUntilReady u
      in if r \<noteq> ENDPOINT_RWSTREAM_NoError then (r, u) else write_loop bs u)"

definition MIDI_Device_SendEventPacket :: "MIDI_EventPacket_t \<Rightarrow> usb_globals \<Rightarrow> u8 \<times> usb_globals" where
  "MIDI_Device_SendEventPacket ev u =
     (if USB_DeviceState u \<noteq> DEVICE_STATE_Configured then (ENDPOINT_RWSTREAM_DeviceDisconnected, u)
      else let (ErrorCode, u) = Endpoint_Write_Stream_LE (packet_bytes ev) u
           in if ErrorCode \<noteq> ENDPOINT_RWSTREAM_NoError then (ErrorCode, u)
              else (ENDPOINT_RWSTREAM_NoError,
                    if \<not> in_ReadWriteAllowed u then Endpoint_ClearIN u else u))"

definition MIDI_Device_Flush :: "usb_globals \<Rightarrow> u8 \<times> usb_globals" where
  "MIDI_Device_Flush u =
     (if USB_DeviceState u \<noteq> DEVICE_STATE_Configured then (ENDPOINT_RWSTREAM_DeviceDisconnected, u)
      else if in_bank u \<noteq> [] then in_WaitUntilReady (Endpoint_ClearIN u)
      else (ENDPOINT_RWSTREAM_NoError, u))"

section \<open>The OUT endpoint\<close>

definition Endpoint_IsOUTReceived :: "usb_globals \<Rightarrow> bool" where
  "Endpoint_IsOUTReceived u \<longleftrightarrow> out_queue u \<noteq> []"

definition out_ReadWriteAllowed :: "usb_globals \<Rightarrow> bool" where
  "out_ReadWriteAllowed u \<longleftrightarrow> (case out_queue u of [] \<Rightarrow> False | bank # _ \<Rightarrow> bank \<noteq> [])"

definition Endpoint_ClearOUT :: "usb_globals \<Rightarrow> usb_globals" where
  "Endpoint_ClearOUT u = u\<lparr>out_queue := tl (out_queue u)\<rparr>"

text \<open>
  The read loop of \<^verbatim>\<open>Endpoint_Read_Stream_LE\<close>, \<open>n\<close> bytes to go; it returns the bytes it
  got and the error code.  An exhausted bank is released and the driver waits for the next
  transfer; when none has arrived the wait times out.
\<close>

function read_loop :: "nat \<Rightarrow> usb_globals \<Rightarrow> u8 list \<times> u8 \<times> usb_globals" where
  "read_loop 0 u = ([], ENDPOINT_RWSTREAM_NoError, u)"
| "read_loop (Suc n) u =
     (if out_ReadWriteAllowed u
      then (let b = hd (hd (out_queue u));
                (bs, r, u') = read_loop n
                  (u\<lparr>out_queue := tl (hd (out_queue u)) # tl (out_queue u)\<rparr>)
            in (b # bs, r, u'))
      else (let u' = Endpoint_ClearOUT u
            in if Endpoint_IsOUTReceived u' then read_loop (Suc n) u'
               else ([], ENDPOINT_RWSTREAM_Timeout, u')))"
  by pat_completeness auto
termination
  by (relation "measures [fst, \<lambda>(n, u). length (out_queue u)]")
     (auto simp: Endpoint_ClearOUT_def Endpoint_IsOUTReceived_def neq_Nil_conv tl_def
           split: list.splits)

declare read_loop.simps(2) [simp del]

text \<open>Bytes that did not arrive leave the caller's event buffer as it was.\<close>

definition overlay_event :: "u8 list \<Rightarrow> MIDI_EventPacket_t \<Rightarrow> MIDI_EventPacket_t" where
  "overlay_event bs ev =
     (let old = packet_bytes ev; new = bs @ drop (length bs) old
      in \<lparr>Event = new ! 0, Data1 = new ! 1, Data2 = new ! 2, Data3 = new ! 3\<rparr>)"

definition MIDI_Device_ReceiveEventPacket ::
  "MIDI_EventPacket_t \<Rightarrow> usb_globals \<Rightarrow> bool \<times> MIDI_EventPacket_t \<times> usb_globals" where
  "MIDI_Device_ReceiveEventPacket ev u =
     (if USB_DeviceState u \<noteq> DEVICE_STATE_Configured then (False, ev, u)
      else if \<not> Endpoint_IsOUTReceived u then (False, ev, u)
      else if \<not> out_ReadWriteAllowed u then (False, ev, u)
      else let (bs, r, u) = read_loop 4 u;
               u = (if \<not> out_ReadWriteAllowed u then Endpoint_ClearOUT u else u)
           in (True, overlay_event bs ev, u))"

section \<open>The wait loop ends\<close>

lemma wait_loop_bounded:
  "unat rem < frame_changes prev obs \<Longrightarrow> \<exists>r. wait_loop rem prev obs = Some r"
proof (induction rem prev obs rule: wait_loop.induct)
  case (2 rem prev ob obs)
  have "unat (rem - 1) = unat rem - 1" if "rem \<noteq> 0"
    using that by (simp add: unat_minus_one)
  moreover have "0 < unat rem" if "rem \<noteq> 0" using that by (simp add: unat_gt_0)
  ultimately show ?case using 2 by (cases "rem = 0") auto
qed simp

lemma wait_loop_timeout_frames:
  "wait_loop rem prev obs = Some ENDPOINT_RWSTREAM_Timeout \<Longrightarrow> unat rem < frame_changes prev obs"
proof (induction rem prev obs rule: wait_loop.induct)
  case (2 rem prev ob obs)
  have "unat (rem - 1) = unat rem - 1" if "rem \<noteq> 0"
    using that by (simp add: unat_minus_one)
  with 2 show ?case
    by (auto simp: ENDPOINT_RWSTREAM_NoError_def ENDPOINT_RWSTREAM_EndpointStalled_def
        ENDPOINT_RWSTREAM_DeviceDisconnected_def ENDPOINT_RWSTREAM_BusSuspended_def
        ENDPOINT_RWSTREAM_Timeout_def split: if_splits)
qed simp

section \<open>Sending is all or nothing\<close>

definition usb_wf :: "usb_globals \<Rightarrow> bool" where
  "usb_wf u \<longleftrightarrow> length (in_bank u) mod 4 = 0 \<and> length (in_bank u) < MIDI_STREAM_EPSIZE
     \<and> (in_busy u \<longrightarrow> in_bank u = [])
     \<and> list_all (\<lambda>t. t \<noteq> [] \<and> length t mod 4 = 0 \<and> length t \<le> MIDI_STREAM_EPSIZE) (in_transfers u)"

text \<open>Every byte given to the host so far, in order, the ones in the bank last.\<close>

definition usb_stream :: "usb_globals \<Rightarrow> u8 list" where
  "usb_stream u = concat (in_transfers u) @ in_bank u"

definition usb_ready :: "usb_globals \<Rightarrow> bool" where
  "usb_ready u \<longleftrightarrow> USB_DeviceState u = DEVICE_STATE_Configured
     \<and> list_all (\<lambda>r. r = ENDPOINT_RWSTREAM_NoError) (host_waits u)"

lemma write_loop_fits:
  "\<not> in_busy u \<Longrightarrow> length (in_bank u) + length bs \<le> MIDI_STREAM_EPSIZE \<Longrightarrow>
   write_loop bs u = (ENDPOINT_RWSTREAM_NoError, u\<lparr>in_bank := in_bank u @ bs\<rparr>)"
  by (induction bs arbitrary: u) (simp_all add: write_loop.simps(2) in_ReadWriteAllowed_def)

lemma mod4_room: "(n::nat) mod 4 = 0 \<Longrightarrow> n < 64 \<Longrightarrow> n + 4 \<le> 64"
  by presburger

lemma send_packet_cases:
  assumes "usb_wf u" "USB_DeviceState u = DEVICE_STATE_Configured"
  obtains (failed) r u' where "in_WaitUntilReady u = (r, u')" "r \<noteq> ENDPOINT_RWSTREAM_NoError"
      "MIDI_Device_SendEventPacket ev u = (r, u')"
  | (sent) u' where "in_WaitUntilReady u = (ENDPOINT_RWSTREAM_NoError, u')"
      "MIDI_Device_SendEventPacket ev u =
         (ENDPOINT_RWSTREAM_NoError,
          let w = u'\<lparr>in_bank := in_bank u' @ packet_bytes ev\<rparr>
          in if \<not> in_ReadWriteAllowed w then Endpoint_ClearIN w else w)"
proof (cases "in_WaitUntilReady u")
  case (Pair r u')
  show thesis
  proof (cases "r = ENDPOINT_RWSTREAM_NoError")
    case False
    with Pair assms show ?thesis
      by (intro failed) (simp_all add: MIDI_Device_SendEventPacket_def Endpoint_Write_Stream_LE_def)
  next
    case True
    then have u': "\<not> in_busy u'" "in_bank u' = in_bank u"
      using Pair in_WaitUntilReady_success by simp_all
    have "length (in_bank u') + length (packet_bytes ev) \<le> MIDI_STREAM_EPSIZE"
      using assms u' mod4_room [of "length (in_bank u)"]
      by (simp add: packet_bytes_def usb_wf_def MIDI_STREAM_EPSIZE_def)
    with u' have "write_loop (packet_bytes ev) u' =
        (ENDPOINT_RWSTREAM_NoError, u'\<lparr>in_bank := in_bank u' @ packet_bytes ev\<rparr>)"
      by (intro write_loop_fits) simp_all
    with True Pair assms show ?thesis
      by (intro sent) (simp_all add: MIDI_Device_SendEventPacket_def Endpoint_Write_Stream_LE_def
          Let_def)
  qed
qed

lemma in_WaitUntilReady_frame:
  "in_WaitUntilReady u = (r, u') \<Longrightarrow>
   in_bank u' = in_bank u \<and> in_transfers u' = in_transfers u \<and> out_queue u' = out_queue u
   \<and> USB_DeviceState u' = USB_DeviceState u \<and> (in_busy u' \<longrightarrow> in_busy u)
   \<and> set (host_waits u') \<subseteq> set (host_waits u)
   \<and> (r = ENDPOINT_RWSTREAM_NoError \<or> r \<in> set (host_waits u))"
  by (auto simp: in_WaitUntilReady_def split: if_splits list.splits)

lemma mod4_full: "(n::nat) mod 4 = 0 \<Longrightarrow> n < 64 \<Longrightarrow> (n + 4) mod 4 = 0"
  by simp

lemma append_packet_stream:
  fixes ev :: MIDI_EventPacket_t and u :: usb_globals
  assumes "usb_wf u" "\<not> in_busy u"
  defines "w \<equiv> u\<lparr>in_bank := in_bank u @ packet_bytes ev\<rparr>"
  defines "v \<equiv> (if \<not> in_ReadWriteAllowed w then Endpoint_ClearIN w else w)"
  shows "usb_wf v" "usb_stream v = usb_stream u @ packet_bytes ev"
    "USB_DeviceState v = USB_DeviceState u" "host_waits v = host_waits u"
    "out_queue v = out_queue u"
  using assms(1,2) mod4_room [of "length (in_bank u)"]
  by (auto simp: v_def w_def usb_wf_def usb_stream_def in_ReadWriteAllowed_def Endpoint_ClearIN_def
      packet_bytes_def MIDI_STREAM_EPSIZE_def)

lemma in_WaitUntilReady_wf:
  "usb_wf u \<Longrightarrow> in_WaitUntilReady u = (r, u') \<Longrightarrow> usb_wf u' \<and> usb_stream u' = usb_stream u"
  by (frule in_WaitUntilReady_frame) (auto simp: usb_wf_def usb_stream_def)

lemma send_packet_wf [mf_inv]:
  assumes "usb_wf u"
  shows "usb_wf (snd (MIDI_Device_SendEventPacket ev u))"
proof (cases "USB_DeviceState u = DEVICE_STATE_Configured")
  case True
  from assms True show ?thesis
  proof (cases rule: send_packet_cases [of u ev])
    case (failed r u')
    then show ?thesis using assms in_WaitUntilReady_wf by simp
  next
    case (sent u')
    have "usb_wf u'" using sent assms in_WaitUntilReady_wf by blast
    moreover have "\<not> in_busy u'" using sent in_WaitUntilReady_success by blast
    ultimately show ?thesis using sent append_packet_stream(1) [of u' ev] by (simp add: Let_def)
  qed
qed (simp add: MIDI_Device_SendEventPacket_def assms)

lemma send_packet_stream:
  assumes "usb_wf u"
  shows "usb_stream (snd (MIDI_Device_SendEventPacket ev u)) = usb_stream u
     @ (if fst (MIDI_Device_SendEventPacket ev u) = ENDPOINT_RWSTREAM_NoError
        then packet_bytes ev else [])"
proof (cases "USB_DeviceState u = DEVICE_STATE_Configured")
  case True
  from assms True show ?thesis
  proof (cases rule: send_packet_cases [of u ev])
    case (failed r u')
    then show ?thesis using assms in_WaitUntilReady_wf by simp
  next
    case (sent u')
    have "usb_wf u' \<and> usb_stream u' = usb_stream u" using sent assms in_WaitUntilReady_wf by blast
    moreover have "\<not> in_busy u'" using sent in_WaitUntilReady_success by blast
    ultimately show ?thesis using sent append_packet_stream(2) [of u' ev] by (simp add: Let_def)
  qed
qed (simp add: MIDI_Device_SendEventPacket_def ENDPOINT_RWSTREAM_DeviceDisconnected_def
      ENDPOINT_RWSTREAM_NoError_def)

lemma in_WaitUntilReady_ready:
  assumes "usb_ready u" "in_WaitUntilReady u = (r, u')"
  shows "r = ENDPOINT_RWSTREAM_NoError" "usb_ready u'"
  using assms in_WaitUntilReady_frame [OF assms(2)]
  by (auto simp: usb_ready_def list_all_iff)

lemma send_packet_ready:
  assumes "usb_wf u" "usb_ready u"
  shows "fst (MIDI_Device_SendEventPacket ev u) = ENDPOINT_RWSTREAM_NoError"
    and "usb_ready (snd (MIDI_Device_SendEventPacket ev u))"
proof -
  have c: "USB_DeviceState u = DEVICE_STATE_Configured" using assms by (simp add: usb_ready_def)
  have "fst (MIDI_Device_SendEventPacket ev u) = ENDPOINT_RWSTREAM_NoError
      \<and> usb_ready (snd (MIDI_Device_SendEventPacket ev u))"
    using assms(1) c
  proof (cases rule: send_packet_cases [of u ev])
    case (failed r u')
    then show ?thesis using assms in_WaitUntilReady_ready by blast
  next
    case (sent u')
    have "usb_wf u'" using sent assms in_WaitUntilReady_wf by blast
    moreover have "\<not> in_busy u'" using sent in_WaitUntilReady_success by blast
    moreover have "usb_ready u'" using sent assms in_WaitUntilReady_ready by blast
    ultimately show ?thesis using sent append_packet_stream(3,4) [of u' ev]
      by (simp add: Let_def usb_ready_def)
  qed
  then show "fst (MIDI_Device_SendEventPacket ev u) = ENDPOINT_RWSTREAM_NoError"
    and "usb_ready (snd (MIDI_Device_SendEventPacket ev u))" by simp_all
qed

lemma flush_wf [mf_inv]: "usb_wf u \<Longrightarrow> usb_wf (snd (MIDI_Device_Flush u))"
  by (auto simp: MIDI_Device_Flush_def Endpoint_ClearIN_def in_WaitUntilReady_def usb_wf_def
      MIDI_STREAM_EPSIZE_def split: list.splits)

lemma flush_stream: "usb_stream (snd (MIDI_Device_Flush u)) = usb_stream u"
  by (auto simp: MIDI_Device_Flush_def Endpoint_ClearIN_def in_WaitUntilReady_def usb_stream_def
      split: list.splits)

lemma send_packet_out:
  assumes "usb_wf u"
  shows "out_queue (snd (MIDI_Device_SendEventPacket ev u)) = out_queue u
     \<and> USB_DeviceState (snd (MIDI_Device_SendEventPacket ev u)) = USB_DeviceState u"
proof (cases "USB_DeviceState u = DEVICE_STATE_Configured")
  case True
  from assms True show ?thesis
  proof (cases rule: send_packet_cases [of u ev])
    case (failed r u')
    then show ?thesis using in_WaitUntilReady_frame by simp
  next
    case (sent u')
    then show ?thesis using in_WaitUntilReady_success [OF sent(1)] by (simp add: Let_def Endpoint_ClearIN_def)
  qed
qed (simp add: MIDI_Device_SendEventPacket_def)

lemma flush_out:
  "out_queue (snd (MIDI_Device_Flush u)) = out_queue u
   \<and> USB_DeviceState (snd (MIDI_Device_Flush u)) = USB_DeviceState u"
  by (simp add: MIDI_Device_Flush_def in_WaitUntilReady_def Endpoint_ClearIN_def split: list.split)

lemma flush_ready: "usb_ready u \<Longrightarrow> usb_ready (snd (MIDI_Device_Flush u))"
  by (auto simp: MIDI_Device_Flush_def Endpoint_ClearIN_def in_WaitUntilReady_def usb_ready_def
      split: list.splits)

section \<open>The contract of a packet sink\<close>

text \<open>
  What the MIDI layer relies on: a send keeps the transport well formed, and either
  appends the four bytes of the packet to the stream or appends nothing; while the host is
  listening it appends them.
\<close>

locale packet_sink =
  fixes send :: "MIDI_EventPacket_t \<Rightarrow> 's \<Rightarrow> u8 \<times> 's"
    and stream :: "'s \<Rightarrow> u8 list" and wf :: "'s \<Rightarrow> bool" and ready :: "'s \<Rightarrow> bool"
  assumes send_wf: "wf s \<Longrightarrow> wf (snd (send p s))"
    and send_stream: "wf s \<Longrightarrow> stream (snd (send p s)) =
        stream s @ (if fst (send p s) = ENDPOINT_RWSTREAM_NoError then packet_bytes p else [])"
    and send_ready: "wf s \<Longrightarrow> ready s \<Longrightarrow> ready (snd (send p s))"
    and send_accepts: "wf s \<Longrightarrow> ready s \<Longrightarrow> fst (send p s) = ENDPOINT_RWSTREAM_NoError"
begin

lemma send_all_wf: "wf s \<Longrightarrow> wf (fold (\<lambda>p s. snd (send p s)) ps s)"
  by (induction ps arbitrary: s) (simp_all add: send_wf)

lemma send_all_subsequence:
  "wf s \<Longrightarrow> \<exists>qs. subseq qs ps \<and>
     stream (fold (\<lambda>p s. snd (send p s)) ps s) = stream s @ concat (map packet_bytes qs)"
proof (induction ps arbitrary: s)
  case (Cons p ps)
  obtain qs where qs: "subseq qs ps"
    "stream (fold (\<lambda>p s. snd (send p s)) ps (snd (send p s))) =
       stream (snd (send p s)) @ concat (map packet_bytes qs)"
    using Cons.IH [of "snd (send p s)"] Cons.prems send_wf by blast
  show ?case
  proof (cases "fst (send p s) = ENDPOINT_RWSTREAM_NoError")
    case True
    with qs Cons.prems show ?thesis
      by (intro exI [of _ "p # qs"]) (simp add: send_stream)
  next
    case False
    with qs Cons.prems show ?thesis
      by (intro exI [of _ qs]) (simp add: send_stream list_emb_Cons)
  qed
qed (auto intro: exI [of _ "[]"])

lemma send_all_stream:
  "wf s \<Longrightarrow> ready s \<Longrightarrow>
   stream (fold (\<lambda>p s. snd (send p s)) ps s) = stream s @ concat (map packet_bytes ps)
   \<and> ready (fold (\<lambda>p s. snd (send p s)) ps s)"
  by (induction ps arbitrary: s) (simp_all add: send_wf send_ready send_stream send_accepts)

end

interpretation midi_in: packet_sink MIDI_Device_SendEventPacket usb_stream usb_wf usb_ready
  by unfold_locales (simp_all add: send_packet_wf send_packet_stream send_packet_ready)

section \<open>Receiving\<close>

text \<open>What is left to read, and the shape of the transfers a USB-MIDI host sends: whole packets.\<close>

definition out_stream :: "usb_globals \<Rightarrow> u8 list" where
  "out_stream u = concat (out_queue u)"

definition out_wf :: "usb_globals \<Rightarrow> bool" where
  "out_wf u \<longleftrightarrow> list_all (\<lambda>t. t \<noteq> [] \<and> length t mod 4 = 0) (out_queue u)"

lemma read_loop_bank:
  "out_queue u = (bs @ rest) # q \<Longrightarrow>
   read_loop (length bs) u = (bs, ENDPOINT_RWSTREAM_NoError, u\<lparr>out_queue := rest # q\<rparr>)"
  by (induction bs arbitrary: u)
     (simp_all add: read_loop.simps(2) out_ReadWriteAllowed_def)

lemma overlay_event_packet: "overlay_event (packet_bytes p) ev = p"
  by (cases p) (simp add: overlay_event_def packet_bytes_def)

lemma receive_packet:
  assumes "USB_DeviceState u = DEVICE_STATE_Configured"
    and "out_queue u = (packet_bytes p @ rest) # q"
  shows "MIDI_Device_ReceiveEventPacket ev u =
     (True, p, u\<lparr>out_queue := (if rest = [] then q else rest # q)\<rparr>)"
proof -
  have "read_loop 4 u = (packet_bytes p, ENDPOINT_RWSTREAM_NoError, u\<lparr>out_queue := rest # q\<rparr>)"
    using read_loop_bank [OF assms(2)] by (simp add: packet_bytes_def numeral_eq_Suc)
  moreover have "out_ReadWriteAllowed u"
    using assms(2) by (simp add: out_ReadWriteAllowed_def packet_bytes_def)
  ultimately show ?thesis using assms
    by (simp add: MIDI_Device_ReceiveEventPacket_def Endpoint_IsOUTReceived_def
        Endpoint_ClearOUT_def overlay_event_packet)
       (simp add: out_ReadWriteAllowed_def)
qed

lemma mod4_split:
  assumes "t \<noteq> []" "length t mod 4 = 0"
  obtains p rest where "t = packet_bytes p @ rest" "length rest mod 4 = 0"
proof -
  have "4 \<le> length t" using assms by (simp add: mod_eq_0_iff_dvd dvd_imp_le)
  then obtain a b c d rest where t: "t = a # b # c # d # rest"
    by (auto simp: numeral_eq_Suc Suc_le_length_iff)
  with assms(2) have "length rest mod 4 = 0" by simp
  then show thesis
    using t that [of "\<lparr>Event = a, Data1 = b, Data2 = c, Data3 = d\<rparr>" rest]
    by (simp add: packet_bytes_def)
qed

lemma receive_decodes:
  assumes "out_wf u" "USB_DeviceState u = DEVICE_STATE_Configured"
  shows "case MIDI_Device_ReceiveEventPacket ev u of (got, ev', u') \<Rightarrow>
     out_wf u' \<and> USB_DeviceState u' = DEVICE_STATE_Configured
     \<and> got = (out_stream u \<noteq> [])
     \<and> out_stream u = (if got then packet_bytes ev' else []) @ out_stream u'"
proof (cases "out_queue u")
  case Nil
  with assms show ?thesis
    by (simp add: MIDI_Device_ReceiveEventPacket_def Endpoint_IsOUTReceived_def out_stream_def)
next
  case (Cons t q)
  then have "t \<noteq> []" "length t mod 4 = 0" using assms(1) by (simp_all add: out_wf_def)
  then obtain p rest where t: "t = packet_bytes p @ rest" "length rest mod 4 = 0"
    by (rule mod4_split)
  have "MIDI_Device_ReceiveEventPacket ev u =
      (True, p, u\<lparr>out_queue := (if rest = [] then q else rest # q)\<rparr>)"
    using receive_packet [OF assms(2)] Cons t by simp
  then show ?thesis using Cons t assms
    by (simp add: out_stream_def out_wf_def packet_bytes_def)
qed

lemma receive_frame:
  "MIDI_Device_ReceiveEventPacket ev u = (False, ev', u') \<Longrightarrow> ev' = ev \<and> u' = u"
  by (auto simp: MIDI_Device_ReceiveEventPacket_def Let_def split: if_splits prod.splits)

section \<open>Properties\<close>

text \<open>C9: whatever the host answers to the waits, sending an event packet keeps the IN
  stream a sequence of whole packets: it appends exactly the packet's four bytes when it
  reports success and nothing at all when it reports an error.  A packet is never torn.\<close>

theorem send_all_or_nothing:
  assumes "usb_wf u"
  shows "usb_wf (snd (MIDI_Device_SendEventPacket ev u)) \<and>
     usb_stream (snd (MIDI_Device_SendEventPacket ev u)) = usb_stream u
       @ (if fst (MIDI_Device_SendEventPacket ev u) = ENDPOINT_RWSTREAM_NoError
          then packet_bytes ev else [])"
  using assms by (simp add: send_packet_wf send_packet_stream)

definition usb_example :: usb_globals where
  "usb_example = \<lparr>USB_DeviceState = DEVICE_STATE_Configured, in_bank = [], in_transfers = [],
     in_busy = True, host_waits = [4, 0], out_queue = [[9, 0x92, 36, 127, 8, 0x82, 36, 0]]\<rparr>"

definition packet_example :: MIDI_EventPacket_t where
  "packet_example = \<lparr>Event = 9, Data1 = 0x92, Data2 = 36, Data3 = 127\<rparr>"

theorem send_all_or_nothing_witness:
  "usb_wf usb_example \<and> usb_stream (snd (MIDI_Device_SendEventPacket packet_example usb_example))
     = usb_stream usb_example
       @ (if fst (MIDI_Device_SendEventPacket packet_example usb_example) = ENDPOINT_RWSTREAM_NoError
          then packet_bytes packet_example else [])"
proof -
  have "usb_wf usb_example" by code_simp
  then show ?thesis using send_all_or_nothing [of usb_example packet_example] by blast
qed

text \<open>Receiving is the inverse of the host's packing: while packets of whole transfers are
  left, each receive call delivers the next four bytes of the OUT stream as one event
  packet and removes exactly them; when none is left it reports that there is none.\<close>

theorem receive_next_packet:
  assumes "out_wf u" "USB_DeviceState u = DEVICE_STATE_Configured"
    and "MIDI_Device_ReceiveEventPacket ev u = (got, ev', u')"
  shows "out_wf u' \<and> got = (out_stream u \<noteq> [])
     \<and> out_stream u = (if got then packet_bytes ev' else []) @ out_stream u'"
  using receive_decodes [OF assms(1,2), of ev] unfolding assms(3) prod.case by blast

text \<open>C36: the driver's wait loop cannot hang: with the timeout of 100 it has returned by the
  time it has seen the USB frame number change 101 times, and it reports a timeout only
  after that many changes.\<close>

theorem wait_until_ready_bounded:
  "(101 \<le> frame_changes frame obs \<longrightarrow> (\<exists>r. Endpoint_WaitUntilReady_obs frame obs = Some r)) \<and>
   (Endpoint_WaitUntilReady_obs frame obs = Some ENDPOINT_RWSTREAM_Timeout \<longrightarrow>
      101 \<le> frame_changes frame obs)"
  using wait_loop_bounded [of USB_STREAM_TIMEOUT_MS frame obs]
    wait_loop_timeout_frames [of USB_STREAM_TIMEOUT_MS frame obs]
  by (auto simp: Endpoint_WaitUntilReady_obs_def USB_STREAM_TIMEOUT_MS_def)

definition silent_host :: "wait_obs list" where
  "silent_host = map (\<lambda>i. \<lparr>obs_ready = False, obs_state = DEVICE_STATE_Configured,
     obs_stalled = False, obs_frame = of_nat i\<rparr>) [1..<102]"

theorem wait_until_ready_bounded_witness:
  "101 \<le> frame_changes 0 silent_host \<and> (\<exists>r. Endpoint_WaitUntilReady_obs 0 silent_host = Some r)"
proof -
  have "101 \<le> frame_changes 0 silent_host" by code_simp
  then show ?thesis using wait_until_ready_bounded by blast
qed

text \<open>A zero-length OUT transfer wedges reception: once it is at the head of the queue,
  receive reports no packet, does not release the bank, and so stays in that state whatever
  the host sends afterwards.\<close>

theorem zero_length_transfer_wedges:
  "MIDI_Device_ReceiveEventPacket ev (u\<lparr>out_queue := [] # q\<rparr>) = (False, ev, u\<lparr>out_queue := [] # q\<rparr>)"
  by (simp add: MIDI_Device_ReceiveEventPacket_def out_ReadWriteAllowed_def)

end
