(* ===== verification/Mf_Descriptors.thy ===== *)
theory Mf_Descriptors
  imports Mf_Usb
begin

text \<open>
  The USB descriptors of \<^verbatim>\<open>usb_descriptors.c\<close>, \<^verbatim>\<open>usb_descriptors.h\<close> and the function that hands them
  to the USB library.  A constructor stands for one of LUFA's packed structs, its arguments for the fields
  in order, the two bytes of the header first; \<open>descriptor_bytes\<close> is the struct in memory (the AVR is
  little endian) and \<open>sizeof\<close> the value of the C operator.
\<close>

unbundle bit_operations_syntax

section \<open>Structures\<close>

datatype descriptor =
    USB_Descriptor_Device_t u8 u8 u16 u8 u8 u8 u8 u16 u16 u16 u8 u8 u8 u8
  | USB_Descriptor_Configuration_Header_t u8 u8 u16 u8 u8 u8 u8 u8
  | USB_Descriptor_Interface_t u8 u8 u8 u8 u8 u8 u8 u8 u8
  | USB_Audio_Descriptor_Interface_AC_t u8 u8 u8 u16 u16 u8 u8
  | USB_MIDI_Descriptor_AudioInterface_AS_t u8 u8 u8 u16 u16
  | USB_MIDI_Descriptor_InputJack_t u8 u8 u8 u8 u8 u8
  | USB_MIDI_Descriptor_OutputJack_t u8 u8 u8 u8 u8 u8 u8 u8 u8
  | USB_Audio_Descriptor_StreamEndpoint_Std_t u8 u8 u8 u8 u16 u8 u8 u8
  | USB_MIDI_Descriptor_Jack_Endpoint_t u8 u8 u8 u8 u8
  | USB_Descriptor_String_t u8 u8 "u16 list"

definition le16 :: "u16 \<Rightarrow> u8 list" where
  "le16 w = [ucast w, ucast (drop_bit 8 w)]"

fun descriptor_bytes :: "descriptor \<Rightarrow> u8 list" where
  "descriptor_bytes (USB_Descriptor_Device_t sz ty spec cl sub prot ep0 vid pid rel man pstr ser num) =
     [sz, ty] @ le16 spec @ [cl, sub, prot, ep0] @ le16 vid @ le16 pid @ le16 rel @ [man, pstr, ser, num]"
| "descriptor_bytes (USB_Descriptor_Configuration_Header_t sz ty tot ifs num str att pow) =
     [sz, ty] @ le16 tot @ [ifs, num, str, att, pow]"
| "descriptor_bytes (USB_Descriptor_Interface_t sz ty num alt eps cl sub prot str) =
     [sz, ty, num, alt, eps, cl, sub, prot, str]"
| "descriptor_bytes (USB_Audio_Descriptor_Interface_AC_t sz ty st spec tot coll num) =
     [sz, ty, st] @ le16 spec @ le16 tot @ [coll, num]"
| "descriptor_bytes (USB_MIDI_Descriptor_AudioInterface_AS_t sz ty st spec tot) =
     [sz, ty, st] @ le16 spec @ le16 tot"
| "descriptor_bytes (USB_MIDI_Descriptor_InputJack_t sz ty st jt jid str) = [sz, ty, st, jt, jid, str]"
| "descriptor_bytes (USB_MIDI_Descriptor_OutputJack_t sz ty st jt jid pins src pin str) =
     [sz, ty, st, jt, jid, pins, src, pin, str]"
| "descriptor_bytes (USB_Audio_Descriptor_StreamEndpoint_Std_t sz ty addr att eps poll refr sync) =
     [sz, ty, addr, att] @ le16 eps @ [poll, refr, sync]"
| "descriptor_bytes (USB_MIDI_Descriptor_Jack_Endpoint_t sz ty st jacks jid) = [sz, ty, st, jacks, jid]"
| "descriptor_bytes (USB_Descriptor_String_t sz ty cs) = [sz, ty] @ concat (map le16 cs)"

section \<open>Constants\<close>

definition NO_DESCRIPTOR :: u8 where "NO_DESCRIPTOR = 0"
definition DTYPE_Device :: u8 where "DTYPE_Device = 0x01"
definition DTYPE_Configuration :: u8 where "DTYPE_Configuration = 0x02"
definition DTYPE_String :: u8 where "DTYPE_String = 0x03"
definition DTYPE_Interface :: u8 where "DTYPE_Interface = 0x04"
definition DTYPE_Endpoint :: u8 where "DTYPE_Endpoint = 0x05"
definition DTYPE_CSInterface :: u8 where "DTYPE_CSInterface = 0x24"
definition DTYPE_CSEndpoint :: u8 where "DTYPE_CSEndpoint = 0x25"
definition USB_CONFIG_ATTR_RESERVED :: u8 where "USB_CONFIG_ATTR_RESERVED = 0x80"
definition USB_CONFIG_POWER_MA :: "u16 \<Rightarrow> u8" where "USB_CONFIG_POWER_MA mA = ucast (drop_bit 1 mA)"
definition USB_STRING_LEN :: "nat \<Rightarrow> u8" where "USB_STRING_LEN n = of_nat (2 + 2 * n)"
definition VERSION_BCD :: "u16 \<Rightarrow> u16 \<Rightarrow> u16 \<Rightarrow> u16" where
  "VERSION_BCD major minor revision =
     push_bit 8 (major AND 0xFF) OR push_bit 4 (minor AND 0x0F) OR (revision AND 0x0F)"
definition LANGUAGE_ID_ENG :: u16 where "LANGUAGE_ID_ENG = 0x0409"
definition ENDPOINT_DIR_OUT :: u8 where "ENDPOINT_DIR_OUT = 0x00"
definition ENDPOINT_DIR_IN :: u8 where "ENDPOINT_DIR_IN = 0x80"
definition MIDI_STREAM_OUT_EPNUM :: u8 where "MIDI_STREAM_OUT_EPNUM = 1"
definition MIDI_STREAM_IN_EPNUM :: u8 where "MIDI_STREAM_IN_EPNUM = 2"
definition MIDI_JACKTYPE_Embedded :: u8 where "MIDI_JACKTYPE_Embedded = 0x01"
definition MIDI_JACKTYPE_External :: u8 where "MIDI_JACKTYPE_External = 0x02"

text \<open>The bulk endpoint type without synchronisation or usage bits, and the subtypes of the audio class.\<close>

definition EP_TYPE_BULK :: u8 where "EP_TYPE_BULK = 0x02"
definition ENDPOINT_ATTR_NO_SYNC :: u8 where "ENDPOINT_ATTR_NO_SYNC = 0"
definition ENDPOINT_USAGE_DATA :: u8 where "ENDPOINT_USAGE_DATA = 0"
definition AUDIO_DSUBTYPE_CSInterface_Header :: u8 where "AUDIO_DSUBTYPE_CSInterface_Header = 0x01"
definition AUDIO_DSUBTYPE_CSInterface_General :: u8 where "AUDIO_DSUBTYPE_CSInterface_General = 0x01"
definition AUDIO_DSUBTYPE_CSInterface_InputTerminal :: u8 where "AUDIO_DSUBTYPE_CSInterface_InputTerminal = 0x02"
definition AUDIO_DSUBTYPE_CSInterface_OutputTerminal :: u8 where "AUDIO_DSUBTYPE_CSInterface_OutputTerminal = 0x03"
definition AUDIO_DSUBTYPE_CSEndpoint_General :: u8 where "AUDIO_DSUBTYPE_CSEndpoint_General = 0x01"

section \<open>Sizes\<close>

definition sizeof_Device :: nat where "sizeof_Device = 18"
definition sizeof_Configuration_Header :: nat where "sizeof_Configuration_Header = 9"
definition sizeof_Interface :: nat where "sizeof_Interface = 9"
definition sizeof_Interface_AC :: nat where "sizeof_Interface_AC = 9"
definition sizeof_AudioInterface_AS :: nat where "sizeof_AudioInterface_AS = 7"
definition sizeof_InputJack :: nat where "sizeof_InputJack = 6"
definition sizeof_OutputJack :: nat where "sizeof_OutputJack = 9"
definition sizeof_StreamEndpoint_Std :: nat where "sizeof_StreamEndpoint_Std = 9"
definition sizeof_Jack_Endpoint :: nat where "sizeof_Jack_Endpoint = 5"

text \<open>The offset of the streaming interface's class descriptor in the configuration and the size of the whole.\<close>

definition offsetof_Audio_StreamInterface_SPC :: nat where
  "offsetof_Audio_StreamInterface_SPC = sizeof_Configuration_Header + sizeof_Interface + sizeof_Interface_AC + sizeof_Interface"

definition sizeof_Configuration :: nat where
  "sizeof_Configuration = offsetof_Audio_StreamInterface_SPC + sizeof_AudioInterface_AS
     + sizeof_InputJack + sizeof_InputJack + sizeof_OutputJack + sizeof_OutputJack
     + sizeof_StreamEndpoint_Std + sizeof_Jack_Endpoint + sizeof_StreamEndpoint_Std + sizeof_Jack_Endpoint"

section \<open>The descriptors\<close>

definition DeviceDescriptor :: descriptor where
  "DeviceDescriptor = USB_Descriptor_Device_t (of_nat sizeof_Device) DTYPE_Device (VERSION_BCD 1 1 0) 0x00 0x00 0x00 64
     0x2580 0x0008 (VERSION_BCD 0 0 2) 0x01 0x02 NO_DESCRIPTOR 1"

definition Config_Descriptor :: descriptor where
  "Config_Descriptor = USB_Descriptor_Configuration_Header_t (of_nat sizeof_Configuration_Header) DTYPE_Configuration
     (of_nat sizeof_Configuration) 2 1 NO_DESCRIPTOR USB_CONFIG_ATTR_RESERVED (USB_CONFIG_POWER_MA 480)"

definition Audio_ControlInterface :: descriptor where
  "Audio_ControlInterface = USB_Descriptor_Interface_t (of_nat sizeof_Interface) DTYPE_Interface 0 0 0 0x01 0x01 0x00 NO_DESCRIPTOR"

definition Audio_ControlInterface_SPC :: descriptor where
  "Audio_ControlInterface_SPC = USB_Audio_Descriptor_Interface_AC_t (of_nat sizeof_Interface_AC) DTYPE_CSInterface
     AUDIO_DSUBTYPE_CSInterface_Header (VERSION_BCD 1 0 0) (of_nat sizeof_Interface_AC) 1 1"

definition Audio_StreamInterface :: descriptor where
  "Audio_StreamInterface = USB_Descriptor_Interface_t (of_nat sizeof_Interface) DTYPE_Interface 1 0 2 0x01 0x03 0x00 NO_DESCRIPTOR"

definition Audio_StreamInterface_SPC :: descriptor where
  "Audio_StreamInterface_SPC = USB_MIDI_Descriptor_AudioInterface_AS_t (of_nat sizeof_AudioInterface_AS) DTYPE_CSInterface
     AUDIO_DSUBTYPE_CSInterface_General (VERSION_BCD 1 0 0)
     (of_nat (sizeof_Configuration - offsetof_Audio_StreamInterface_SPC))"

definition MIDI_In_Jack_Emb :: descriptor where
  "MIDI_In_Jack_Emb = USB_MIDI_Descriptor_InputJack_t (of_nat sizeof_InputJack) DTYPE_CSInterface
     AUDIO_DSUBTYPE_CSInterface_InputTerminal MIDI_JACKTYPE_Embedded 0x01 NO_DESCRIPTOR"

definition MIDI_In_Jack_Ext :: descriptor where
  "MIDI_In_Jack_Ext = USB_MIDI_Descriptor_InputJack_t (of_nat sizeof_InputJack) DTYPE_CSInterface
     AUDIO_DSUBTYPE_CSInterface_InputTerminal MIDI_JACKTYPE_External 0x02 NO_DESCRIPTOR"

definition MIDI_Out_Jack_Emb :: descriptor where
  "MIDI_Out_Jack_Emb = USB_MIDI_Descriptor_OutputJack_t (of_nat sizeof_OutputJack) DTYPE_CSInterface
     AUDIO_DSUBTYPE_CSInterface_OutputTerminal MIDI_JACKTYPE_Embedded 0x03 1 0x02 0x01 NO_DESCRIPTOR"

definition MIDI_Out_Jack_Ext :: descriptor where
  "MIDI_Out_Jack_Ext = USB_MIDI_Descriptor_OutputJack_t (of_nat sizeof_OutputJack) DTYPE_CSInterface
     AUDIO_DSUBTYPE_CSInterface_OutputTerminal MIDI_JACKTYPE_External 0x04 1 0x01 0x01 NO_DESCRIPTOR"

definition MIDI_In_Jack_Endpoint :: descriptor where
  "MIDI_In_Jack_Endpoint = USB_Audio_Descriptor_StreamEndpoint_Std_t (of_nat sizeof_StreamEndpoint_Std) DTYPE_Endpoint
     (ENDPOINT_DIR_OUT OR MIDI_STREAM_OUT_EPNUM) (EP_TYPE_BULK OR ENDPOINT_ATTR_NO_SYNC OR ENDPOINT_USAGE_DATA)
     (of_nat MIDI_STREAM_EPSIZE) 0 0 0"

definition MIDI_In_Jack_Endpoint_SPC :: descriptor where
  "MIDI_In_Jack_Endpoint_SPC = USB_MIDI_Descriptor_Jack_Endpoint_t (of_nat sizeof_Jack_Endpoint) DTYPE_CSEndpoint
     AUDIO_DSUBTYPE_CSEndpoint_General 0x01 0x01"

definition MIDI_Out_Jack_Endpoint :: descriptor where
  "MIDI_Out_Jack_Endpoint = USB_Audio_Descriptor_StreamEndpoint_Std_t (of_nat sizeof_StreamEndpoint_Std) DTYPE_Endpoint
     (ENDPOINT_DIR_IN OR MIDI_STREAM_IN_EPNUM) (EP_TYPE_BULK OR ENDPOINT_ATTR_NO_SYNC OR ENDPOINT_USAGE_DATA)
     (of_nat MIDI_STREAM_EPSIZE) 0 0 0"

definition MIDI_Out_Jack_Endpoint_SPC :: descriptor where
  "MIDI_Out_Jack_Endpoint_SPC = USB_MIDI_Descriptor_Jack_Endpoint_t (of_nat sizeof_Jack_Endpoint) DTYPE_CSEndpoint
     AUDIO_DSUBTYPE_CSEndpoint_General 0x01 0x03"

definition ConfigurationDescriptor :: "descriptor list" where
  "ConfigurationDescriptor = [Config_Descriptor, Audio_ControlInterface, Audio_ControlInterface_SPC, Audio_StreamInterface,
     Audio_StreamInterface_SPC, MIDI_In_Jack_Emb, MIDI_In_Jack_Ext, MIDI_Out_Jack_Emb, MIDI_Out_Jack_Ext,
     MIDI_In_Jack_Endpoint, MIDI_In_Jack_Endpoint_SPC, MIDI_Out_Jack_Endpoint, MIDI_Out_Jack_Endpoint_SPC]"

text \<open>A wide string literal ends with a zero.\<close>

definition wide :: "string \<Rightarrow> u16 list" where
  "wide s = map of_char s"

definition LanguageString :: descriptor where
  "LanguageString = USB_Descriptor_String_t (USB_STRING_LEN 1) DTYPE_String [LANGUAGE_ID_ENG]"

definition ManufacturerString :: descriptor where
  "ManufacturerString = USB_Descriptor_String_t (USB_STRING_LEN 19) DTYPE_String (wide ''www.djtechtools.com'' @ [0xAE, 0])"

definition ProductString :: descriptor where
  "ProductString = USB_Descriptor_String_t (USB_STRING_LEN 15) DTYPE_String (wide ''Midi Fighter 64'' @ [0])"

definition SerialString :: descriptor where
  "SerialString = USB_Descriptor_String_t (USB_STRING_LEN 8) DTYPE_String (wide ''6666666A'' @ [0])"

text \<open>The address that is handed out is the memory it points to, \<open>None\<close> the null pointer.\<close>

fun header_size :: "descriptor \<Rightarrow> u16" where
  "header_size d = ucast (hd (descriptor_bytes d))"

definition CALLBACK_USB_GetDescriptor :: "u16 \<Rightarrow> u8 \<Rightarrow> u16 \<times> u8 list option" where
  "CALLBACK_USB_GetDescriptor wValue wIndex =
     (let DescriptorType = ucast (drop_bit 8 wValue) :: u8;
          DescriptorNumber = ucast (wValue AND 0xFF) :: u8
      in if DescriptorType = DTYPE_Device
         then (of_nat sizeof_Device, Some (descriptor_bytes DeviceDescriptor))
         else if DescriptorType = DTYPE_Configuration
         then (of_nat sizeof_Configuration, Some (concat (map descriptor_bytes ConfigurationDescriptor)))
         else if DescriptorType = DTYPE_String
         then (if DescriptorNumber = 0x00 then (header_size LanguageString, Some (descriptor_bytes LanguageString))
               else if DescriptorNumber = 0x01 then (header_size ManufacturerString, Some (descriptor_bytes ManufacturerString))
               else if DescriptorNumber = 0x02 then (header_size ProductString, Some (descriptor_bytes ProductString))
               else if DescriptorNumber = 0x03 then (header_size SerialString, Some (descriptor_bytes SerialString))
               else (ucast NO_DESCRIPTOR, None))
         else (ucast NO_DESCRIPTOR, None))"

section \<open>Reading a configuration\<close>

text \<open>
  How a host takes a configuration apart: the first byte of each descriptor is its length, and a length below
  two is an error.
\<close>

function split_descriptors :: "u8 list \<Rightarrow> u8 list list option" where
  "split_descriptors bs =
     (if bs = [] then Some []
      else let n = unat (hd bs)
           in if n < 2 \<or> length bs < n then None
              else map_option ((#) (take n bs)) (split_descriptors (drop n bs)))"
  by pat_completeness auto
termination by (relation "measure length") auto

declare split_descriptors.simps [simp del]

definition well_sized :: "descriptor \<Rightarrow> bool" where
  "well_sized d \<longleftrightarrow> 2 \<le> length (descriptor_bytes d) \<and> unat (hd (descriptor_bytes d)) = length (descriptor_bytes d)"

lemma split_concat:
  assumes "list_all well_sized ds"
  shows "split_descriptors (concat (map descriptor_bytes ds)) = Some (map descriptor_bytes ds)"
  using assms
proof (induction ds)
  case Nil
  show ?case by (simp add: split_descriptors.simps)
next
  case (Cons d ds)
  then have d: "2 \<le> length (descriptor_bytes d)" "unat (hd (descriptor_bytes d)) = length (descriptor_bytes d)"
    by (simp_all add: well_sized_def)
  then have "descriptor_bytes d \<noteq> []" by auto
  then show ?case using Cons d by (subst split_descriptors.simps) (simp add: Let_def)
qed

fun jack_id :: "descriptor \<Rightarrow> u8 option" where
  "jack_id (USB_MIDI_Descriptor_InputJack_t _ _ _ _ jid _) = Some jid"
| "jack_id (USB_MIDI_Descriptor_OutputJack_t _ _ _ _ jid _ _ _ _) = Some jid"
| "jack_id _ = None"

fun jack_refs :: "descriptor \<Rightarrow> u8 list" where
  "jack_refs (USB_MIDI_Descriptor_OutputJack_t _ _ _ _ _ _ src _ _) = [src]"
| "jack_refs (USB_MIDI_Descriptor_Jack_Endpoint_t _ _ _ _ jid) = [jid]"
| "jack_refs _ = []"


text \<open>A descriptor request is answered safely. Whatever descriptor the host asks for, the answer is no descriptor with
  size zero, or a pointer to memory that holds at least as many bytes as the size says, of which the
  first is the length of the first descriptor in it.
\<close>

lemma get_descriptor_safe:
  "case CALLBACK_USB_GetDescriptor wValue wIndex of
     (sz, None) \<Rightarrow> sz = 0
   | (sz, Some bs) \<Rightarrow> 2 \<le> unat sz \<and> unat sz \<le> length bs \<and> unat (hd bs) \<le> unat sz"
proof -
  have facts: "sizeof_Device = length (descriptor_bytes DeviceDescriptor)" "unat (hd (descriptor_bytes DeviceDescriptor)) = 18"
    "sizeof_Configuration = length (concat (map descriptor_bytes ConfigurationDescriptor))"
    "unat (hd (concat (map descriptor_bytes ConfigurationDescriptor))) = 9"
    "sizeof_Device = 18" "sizeof_Configuration = 101"
    "header_size LanguageString = 4" "length (descriptor_bytes LanguageString) = 4" "unat (hd (descriptor_bytes LanguageString)) = 4"
    "header_size ManufacturerString = 40" "length (descriptor_bytes ManufacturerString) = 44" "unat (hd (descriptor_bytes ManufacturerString)) = 40"
    "header_size ProductString = 32" "length (descriptor_bytes ProductString) = 34" "unat (hd (descriptor_bytes ProductString)) = 32"
    "header_size SerialString = 18" "length (descriptor_bytes SerialString) = 20" "unat (hd (descriptor_bytes SerialString)) = 18"
    by code_simp+
  show ?thesis
    unfolding CALLBACK_USB_GetDescriptor_def Let_def
    by (simp add: facts NO_DESCRIPTOR_def del: header_size.simps flip: facts(1,3))
qed

text \<open>The registered sign at the end of the manufacturer's name is not part of what is sent.\<close>

lemma manufacturer_string_cut:
  "\<exists>bs. CALLBACK_USB_GetDescriptor 0x0301 0 = (40, Some bs) \<and> take 40 bs = [40, 3] @ concat (map le16 (wide ''www.djtechtools.com''))
     \<and> take 2 (drop 40 bs) = [0xAE, 0]"
  by (rule exI [of _ "descriptor_bytes ManufacturerString"]) (code_simp)

end
