(* ===== verification/Mf_Midi.thy ===== *)
theory Mf_Midi
  imports Mf_Usb
begin

unbundle bit_operations_syntax

text \<open>
  The MIDI layer of \<^verbatim>\<open>midi.c\<close>: the globals it owns, the functions that put note, control
  change and SysEx messages on the USB stream, the note and key numbering, and the MIDI
  clock.  \<open>g_midi_note_state\<close> is the two-row array of the source as it lies in memory, row
  \<open>r\<close> and column \<open>i\<close> at index \<open>128 * r + i\<close>.  \<open>display_flash_counter\<close>, a global of
  \<^verbatim>\<open>led.c\<close>, is here because the clock advances it.
\<close>

section \<open>State\<close>

record midi_globals =
  usb :: usb_globals
  midi_clock_enabled :: bool
  ticks :: u8
  display_flash_counter :: u16
  g_bank_selected :: u8
  g_side_offset :: u8
  G_EE_MIDI_CHANNEL :: u8
  G_EE_MIDI_VELOCITY :: u8
  g_midi_note_state :: "u8 list"
  g_midi_note_off_counter :: "u8 list"
  g_bank_select_counter :: "u16 list"
  g_midi_sysex_channel :: u8

definition NUM_BUTTONS :: nat where "NUM_BUTTONS = 64"
definition NUM_BANKS :: nat where "NUM_BANKS = 2"
definition MIDI_BASENOTE :: u8 where "MIDI_BASENOTE = 36"
definition MIDI_MAX_NOTES :: nat where "MIDI_MAX_NOTES = 128"
definition MIDI_CHANNEL_INDEX_CONTROL_BANKS :: nat where "MIDI_CHANNEL_INDEX_CONTROL_BANKS = 0"
definition MIDI_CHANNEL_INDEX_ANIMATIONS :: nat where "MIDI_CHANNEL_INDEX_ANIMATIONS = 1"
definition MIDI_MFR_ID_0 :: u8 where "MIDI_MFR_ID_0 = 0"
definition MIDI_MFR_ID_1 :: u8 where "MIDI_MFR_ID_1 = 1"
definition MIDI_MFR_ID_2 :: u8 where "MIDI_MFR_ID_2 = 0x79"
definition DEVICE_FAMILY_LSB :: u8 where "DEVICE_FAMILY_LSB = 6"
definition DEVICE_FAMILY_MSB :: u8 where "DEVICE_FAMILY_MSB = 0"
definition DEVICE_VERSION_YEAR :: u16 where "DEVICE_VERSION_YEAR = 0x2017"
definition DEVICE_VERSION_YEAR_LSB :: u8 where "DEVICE_VERSION_YEAR_LSB = 0x17"
definition DEVICE_VERSION_YEAR_MSB :: u8 where "DEVICE_VERSION_YEAR_MSB = 0x20"
definition DEVICE_VERSION_MONTH :: u8 where "DEVICE_VERSION_MONTH = 7"
definition DEVICE_VERSION_DAY :: u8 where "DEVICE_VERSION_DAY = 0x24"

definition note_state_index :: "nat \<Rightarrow> nat \<Rightarrow> nat" where
  "note_state_index row i = MIDI_MAX_NOTES * row + i"

text \<open>Values of the globals before the start-up code has run.\<close>

definition midi_init :: "usb_globals \<Rightarrow> midi_globals" where
  "midi_init u = \<lparr>usb = u, midi_clock_enabled = False, ticks = 0, display_flash_counter = 0,
     g_bank_selected = 0, g_side_offset = 0, G_EE_MIDI_CHANNEL = 14, G_EE_MIDI_VELOCITY = 74,
     g_midi_note_state = replicate (2 * MIDI_MAX_NOTES) 0,
     g_midi_note_off_counter = replicate MIDI_MAX_NOTES 0,
     g_bank_select_counter = replicate NUM_BANKS 0, g_midi_sysex_channel = 5\<rparr>"

definition midi_setup :: "midi_globals \<Rightarrow> midi_globals" where
  "midi_setup m = m\<lparr>g_midi_note_state := replicate (2 * MIDI_MAX_NOTES) 0,
     g_midi_note_off_counter := replicate MIDI_MAX_NOTES 0,
     g_bank_select_counter := replicate NUM_BANKS 0\<rparr>"

section \<open>Channel messages\<close>

text \<open>Every caller in \<^verbatim>\<open>midi.c\<close> ignores the driver's return code.\<close>

definition midi_send :: "MIDI_EventPacket_t \<Rightarrow> midi_globals \<Rightarrow> midi_globals" where
  "midi_send ev m = m\<lparr>usb := snd (MIDI_Device_SendEventPacket ev (usb m))\<rparr>"

definition note_command :: "bool \<Rightarrow> u8" where
  "note_command onoff = (if onoff then 0x90 else 0x80)"

definition midi_stream_raw_note :: "u8 \<Rightarrow> u8 \<Rightarrow> bool \<Rightarrow> u8 \<Rightarrow> midi_globals \<Rightarrow> midi_globals" where
  "midi_stream_raw_note channel pitch onoff velocity m =
     (let command = note_command onoff;
          midi_channel = G_EE_MIDI_CHANNEL m - g_bank_selected m
      in midi_send \<lparr>Event = drop_bit 4 command, Data1 = command OR (midi_channel AND 0x0F),
                    Data2 = pitch AND 0x7F, Data3 = velocity AND 0x7F\<rparr> m)"

definition midi_stream_note_ch :: "u8 \<Rightarrow> u8 \<Rightarrow> bool \<Rightarrow> midi_globals \<Rightarrow> midi_globals" where
  "midi_stream_note_ch channel pitch onoff m =
     (let command = note_command onoff
      in midi_send \<lparr>Event = drop_bit 4 command, Data1 = command OR (channel AND 0x0F),
                    Data2 = pitch AND 0x7F, Data3 = G_EE_MIDI_VELOCITY m AND 0x7F\<rparr> m)"

definition midi_stream_raw_cc :: "u8 \<Rightarrow> u8 \<Rightarrow> u8 \<Rightarrow> midi_globals \<Rightarrow> midi_globals" where
  "midi_stream_raw_cc channel cc val m =
     (let command = 0xB0
      in midi_send \<lparr>Event = drop_bit 4 command, Data1 = command OR (channel AND 0x0F),
                    Data2 = cc AND 0x7F, Data3 = val AND 0x7F\<rparr> m)"

definition midi_stream_note :: "u8 \<Rightarrow> bool \<Rightarrow> midi_globals \<Rightarrow> midi_globals" where
  "midi_stream_note pitch onoff m =
     (let command = note_command onoff;
          midi_channel = G_EE_MIDI_CHANNEL m - g_bank_selected m
      in midi_send \<lparr>Event = drop_bit 4 command, Data1 = command OR (midi_channel AND 0x0F),
                    Data2 = pitch AND 0x7F, Data3 = G_EE_MIDI_VELOCITY m AND 0x7F\<rparr> m)"

definition midi_stream_cc :: "u8 \<Rightarrow> u8 \<Rightarrow> midi_globals \<Rightarrow> midi_globals" where
  "midi_stream_cc controller val m =
     (let command = 0xB0;
          midi_channel = G_EE_MIDI_CHANNEL m - g_bank_selected m
      in midi_send \<lparr>Event = drop_bit 4 command, Data1 = command OR (midi_channel AND 0x0F),
                    Data2 = controller AND 0x7F, Data3 = val AND 0x7F\<rparr> m)"

section \<open>SysEx messages\<close>

text \<open>
  The loop of \<^verbatim>\<open>midi_stream_sysex\<close>: \<open>num\<close> bytes are left, the data pointer is at offset
  \<open>off\<close>, and every dereference is checked against the buffer.
\<close>

definition sysex_tail :: "nat \<Rightarrow> bool \<Rightarrow> nat \<Rightarrow> u8 list \<Rightarrow> midi_globals \<Rightarrow> midi_globals run" where
  "sysex_tail num first off data m =
     (if num = 0 then Inr m
      else andthen (load data off) (\<lambda>d1.
        if num = 2 then andthen (load data (off + 1)) (\<lambda>d2.
          Inr (midi_send \<lparr>Event = 0x6, Data1 = d1, Data2 = d2, Data3 = 0\<rparr> m))
        else if num = 3 then andthen (load data (off + 1)) (\<lambda>d2. andthen (load data (off + 2)) (\<lambda>d3.
          Inr (midi_send \<lparr>Event = (if first then 0x3 else 0x7), Data1 = d1, Data2 = d2, Data3 = d3\<rparr> m)))
        else Inr (midi_send \<lparr>Event = 0x5, Data1 = d1, Data2 = 0, Data3 = 0\<rparr> m)))"

function sysex_loop :: "nat \<Rightarrow> bool \<Rightarrow> nat \<Rightarrow> u8 list \<Rightarrow> midi_globals \<Rightarrow> midi_globals run" where
  "sysex_loop num first off data m =
     (if num > 3
      then andthen (load data off) (\<lambda>d1. andthen (load data (off + 1)) (\<lambda>d2.
           andthen (load data (off + 2)) (\<lambda>d3.
             sysex_loop (num - 3) False (off + 3) data
               (midi_send \<lparr>Event = 0x4, Data1 = d1, Data2 = d2, Data3 = d3\<rparr> m))))
      else sysex_tail num first off data m)"
  by pat_completeness auto
termination by (relation "measure fst") auto

declare sysex_loop.simps [simp del]

definition midi_stream_sysex :: "u8 \<Rightarrow> u8 list \<Rightarrow> midi_globals \<Rightarrow> midi_globals run" where
  "midi_stream_sysex len data m = sysex_loop (unat len) True 0 data m"

definition midi_stream_sysex_identify :: "midi_globals \<Rightarrow> midi_globals" where
  "midi_stream_sysex_identify m = fold midi_send
     [\<lparr>Event = 0x4, Data1 = 0xF0, Data2 = 0x7E, Data3 = 0x05\<rparr>,
      \<lparr>Event = 0x4, Data1 = 0x06, Data2 = 0x7E, Data3 = MIDI_MFR_ID_0\<rparr>,
      \<lparr>Event = 0x4, Data1 = MIDI_MFR_ID_1, Data2 = MIDI_MFR_ID_2, Data3 = DEVICE_FAMILY_LSB\<rparr>,
      \<lparr>Event = 0x4, Data1 = DEVICE_FAMILY_MSB, Data2 = 0x01, Data3 = 0x00\<rparr>,
      \<lparr>Event = 0x4, Data1 = DEVICE_VERSION_DAY, Data2 = DEVICE_VERSION_MONTH,
        Data3 = DEVICE_VERSION_YEAR_LSB\<rparr>,
      \<lparr>Event = 0x6, Data1 = DEVICE_VERSION_YEAR_MSB, Data2 = 0xF7, Data3 = 0x00\<rparr>] m"

section \<open>Notes and keys\<close>

definition kNoteMap :: "u8 list" where
  "kNoteMap = [12, 13, 14, 15, 8, 9, 10, 11, 4, 5, 6, 7, 0, 1, 2, 3]"

definition midipos_to_keypos :: "u8 \<Rightarrow> u8" where
  "midipos_to_keypos note = note"

definition midi_fourbanks_key_to_note :: "u8 \<Rightarrow> midi_globals \<Rightarrow> u8 run" where
  "midi_fourbanks_key_to_note keynum m =
     (let offset = MIDI_BASENOTE + g_bank_selected m * 16
      in andthen (load kNoteMap (unat keynum)) (\<lambda>n. Inr (n + offset)))"

definition midi_64_key_to_note :: "u8 \<Rightarrow> u8" where
  "midi_64_key_to_note keynum = MIDI_BASENOTE + keynum"

definition midi_fourbanks_note_to_key :: "u8 \<Rightarrow> midi_globals \<Rightarrow> u8 run" where
  "midi_fourbanks_note_to_key note m =
     (let keynum = note - MIDI_BASENOTE - g_bank_selected m * 16
      in load kNoteMap (unat keynum))"

section \<open>MIDI clock\<close>

definition midi_clock_enable :: "bool \<Rightarrow> midi_globals \<Rightarrow> midi_globals" where
  "midi_clock_enable st m = m\<lparr>midi_clock_enabled := st\<rparr>"

definition midi_clock :: "midi_globals \<Rightarrow> midi_globals" where
  "midi_clock m =
     (let m = (if \<not> midi_clock_enabled m
               then midi_clock_enable True (m\<lparr>display_flash_counter := 0\<rparr>) else m)
      in if ticks m = 3 then m\<lparr>ticks := 1, display_flash_counter := display_flash_counter m + 1\<rparr>
         else m\<lparr>ticks := ticks m + 1\<rparr>)"

section \<open>What reaches the USB stream\<close>

text \<open>The bytes sent so far, and a host that is connected and listening.\<close>

definition midi_out :: "midi_globals \<Rightarrow> u8 list" where
  "midi_out m = usb_stream (usb m)"

definition midi_ready :: "midi_globals \<Rightarrow> bool" where
  "midi_ready m \<longleftrightarrow> usb_wf (usb m) \<and> usb_ready (usb m)"

lemma usb_fold_midi_send:
  "usb (fold midi_send ps m) = fold (\<lambda>p s. snd (MIDI_Device_SendEventPacket p s)) ps (usb m)"
  by (induction ps arbitrary: m) (simp_all add: midi_send_def)

lemma fold_midi_send_frame:
  "fold midi_send ps m = m\<lparr>usb := usb (fold midi_send ps m)\<rparr>"
  by (induction ps arbitrary: m) (simp_all add: midi_send_def, metis midi_globals.select_convs(1)
      midi_globals.update_convs(1) midi_globals.surjective)

lemma midi_send_wf [mf_inv]: "usb_wf (usb m) \<Longrightarrow> usb_wf (usb (midi_send p m))"
  by (simp add: midi_send_def send_packet_wf)

lemma fold_midi_send_wf [mf_inv]: "usb_wf (usb m) \<Longrightarrow> usb_wf (usb (fold midi_send ps m))"
  by (simp add: usb_fold_midi_send midi_in.send_all_wf)

lemma fold_midi_send_out:
  "midi_ready m \<Longrightarrow> midi_out (fold midi_send ps m) = midi_out m @ concat (map packet_bytes ps)
     \<and> midi_ready (fold midi_send ps m)"
  by (simp add: midi_ready_def midi_out_def usb_fold_midi_send midi_in.send_all_stream
      midi_in.send_all_wf)

lemma midi_send_out:
  "midi_ready m \<Longrightarrow> midi_out (midi_send p m) = midi_out m @ packet_bytes p"
  "midi_ready m \<Longrightarrow> midi_ready (midi_send p m)"
  using fold_midi_send_out [of m "[p]"] by simp_all

lemma midi_send_frame [mf_frame]:
  "G_EE_MIDI_CHANNEL (midi_send p m) = G_EE_MIDI_CHANNEL m"
  "G_EE_MIDI_VELOCITY (midi_send p m) = G_EE_MIDI_VELOCITY m"
  "g_bank_selected (midi_send p m) = g_bank_selected m"
  "g_midi_note_state (midi_send p m) = g_midi_note_state m"
  "g_midi_note_off_counter (midi_send p m) = g_midi_note_off_counter m"
  "g_bank_select_counter (midi_send p m) = g_bank_select_counter m"
  "display_flash_counter (midi_send p m) = display_flash_counter m"
  by (simp_all add: midi_send_def)

text \<open>A USB-MIDI channel message: the code index is the status nibble, and the data bytes
  have their top bit clear.\<close>

definition channel_packet :: "MIDI_EventPacket_t \<Rightarrow> bool" where
  "channel_packet p \<longleftrightarrow> Event p = drop_bit 4 (Data1 p) \<and> 8 \<le> Event p \<and> Event p \<le> 0xE
     \<and> Data2 p < 0x80 \<and> Data3 p < 0x80"

lemma status_event:
  "drop_bit 4 (0x90 OR (c AND 0x0F) :: u8) = 9" "drop_bit 4 (0x80 OR (c AND 0x0F) :: u8) = 8"
  "drop_bit 4 (0xB0 OR (c AND 0x0F) :: u8) = 0xB"
proof -
  have "drop_bit 4 (c AND 0x0F) = 0"
    by (rule bit_word_eqI) (auto simp: bit_simps bit_numeral_iff bit_1_iff)
  then show "drop_bit 4 (0x90 OR (c AND 0x0F)) = 9" "drop_bit 4 (0x80 OR (c AND 0x0F)) = 8"
    "drop_bit 4 (0xB0 OR (c AND 0x0F)) = 0xB" by simp_all
qed

lemma and_7F_less [simp]: "(x :: u8) AND 0x7F < 0x80"
  using and_mask7_less [of x] by (simp add: word_less_nat_alt)

lemmas midi_stream_defs = midi_stream_raw_note_def midi_stream_note_ch_def midi_stream_raw_cc_def
  midi_stream_note_def midi_stream_cc_def

lemma channel_messages_conform:
  "\<exists>p. channel_packet p \<and> midi_stream_raw_note ch pitch onoff vel m = midi_send p m"
  "\<exists>p. channel_packet p \<and> midi_stream_note_ch ch pitch onoff m = midi_send p m"
  "\<exists>p. channel_packet p \<and> midi_stream_raw_cc ch pitch vel m = midi_send p m"
  "\<exists>p. channel_packet p \<and> midi_stream_note pitch onoff m = midi_send p m"
  "\<exists>p. channel_packet p \<and> midi_stream_cc pitch vel m = midi_send p m"
  unfolding midi_stream_defs Let_def
  by (rule exI, rule conjI [rotated], rule refl,
      simp add: channel_packet_def note_command_def status_event)+

section \<open>SysEx packing\<close>

text \<open>The reference encoder, and what a USB-MIDI receiver reads back from each packet.\<close>

fun sysex_packets :: "bool \<Rightarrow> u8 list \<Rightarrow> MIDI_EventPacket_t list" where
  "sysex_packets first [] = []"
| "sysex_packets first [a] = [\<lparr>Event = 5, Data1 = a, Data2 = 0, Data3 = 0\<rparr>]"
| "sysex_packets first [a, b] = [\<lparr>Event = 6, Data1 = a, Data2 = b, Data3 = 0\<rparr>]"
| "sysex_packets first [a, b, c] =
     [\<lparr>Event = (if first then 3 else 7), Data1 = a, Data2 = b, Data3 = c\<rparr>]"
| "sysex_packets first (a # b # c # d # bs) =
     \<lparr>Event = 4, Data1 = a, Data2 = b, Data3 = c\<rparr> # sysex_packets False (d # bs)"

definition packet_payload :: "MIDI_EventPacket_t \<Rightarrow> u8 list" where
  "packet_payload p = (if Event p = 5 then [Data1 p] else if Event p = 6 then [Data1 p, Data2 p]
     else [Data1 p, Data2 p, Data3 p])"

lemma sysex_packets_payload: "concat (map packet_payload (sysex_packets first bs)) = bs"
  by (induction first bs rule: sysex_packets.induct) (simp_all add: packet_payload_def)

lemma sysex_packets_codes:
  "3 < length bs \<Longrightarrow> \<exists>ps p. sysex_packets first bs = ps @ [p] \<and> ps \<noteq> []
     \<and> list_all (\<lambda>q. Event q = 4) ps \<and> Event p \<in> {5, 6, 7}"
proof (induction first bs rule: sysex_packets.induct)
  case (5 first a b c d bs)
  show ?case
  proof (cases "3 < length (d # bs)")
    case True
    with 5 obtain ps p where "sysex_packets False (d # bs) = ps @ [p]" "ps \<noteq> []"
      "list_all (\<lambda>q. Event q = 4) ps" "Event p \<in> {5, 6, 7}" by blast
    then show ?thesis
      by (intro exI [of _ "\<lparr>Event = 4, Data1 = a, Data2 = b, Data3 = c\<rparr> # ps"] exI [of _ p]) simp
  next
    case False
    then have "length bs < 3" by simp
    then have "length bs = 0 \<or> length bs = Suc 0 \<or> length bs = Suc (Suc 0)" by linarith
    then show ?thesis
      by (elim disjE) (auto simp: length_Suc_conv
          intro!: exI [of _ "[\<lparr>Event = 4, Data1 = a, Data2 = b, Data3 = c\<rparr>]"])
  qed
qed simp_all

lemma take_Suc_drop:
  "off < length xs \<Longrightarrow> take (Suc n) (drop off xs) = xs ! off # take n (drop (Suc off) xs)"
  by (simp add: Cons_nth_drop_Suc [symmetric])

lemma sysex_tail_packets:
  assumes "num \<le> 3" "off + num \<le> length data"
  shows "sysex_tail num first off data m
    = Inr (fold midi_send (sysex_packets first (take num (drop off data))) m)"
proof -
  consider "num = 0" | "num = 1" | "num = 2" | "num = 3" using assms(1) by linarith
  then show ?thesis using assms(2)
    by cases (simp_all add: sysex_tail_def numeral_eq_Suc take_Suc_drop)
qed

lemma sysex_loop_packets:
  "off + num \<le> length data \<Longrightarrow> sysex_loop num first off data m
    = Inr (fold midi_send (sysex_packets first (take num (drop off data))) m)"
proof (induction num arbitrary: first off m rule: less_induct)
  case (less num)
  show ?case
  proof (cases "num > 3")
    case True
    then obtain k where k: "num = Suc (Suc (Suc (Suc k)))"
      by (metis Suc_lessE less_natE numeral_3_eq_3)
    have IH: "sysex_loop (num - 3) False (off + 3) data m' = Inr (fold midi_send
        (sysex_packets False (take (num - 3) (drop (off + 3) data))) m')" for m'
      using less.prems True by (intro less.IH) simp_all
    show ?thesis using less.prems IH unfolding k
      by (subst sysex_loop.simps) (simp add: take_Suc_drop numeral_eq_Suc)
  next
    case False
    with less.prems show ?thesis by (simp add: sysex_loop.simps [of num] sysex_tail_packets)
  qed
qed

lemma midi_stream_sysex_packets:
  "unat len \<le> length data \<Longrightarrow> midi_stream_sysex len data m
    = Inr (fold midi_send (sysex_packets True (take (unat len) data)) m)"
  by (simp add: midi_stream_sysex_def sysex_loop_packets)

lemma midi_stream_sysex_frame:
  "unat len \<le> length data \<Longrightarrow> \<exists>u. midi_stream_sysex len data m = Inr (m\<lparr>usb := u\<rparr>) \<and>
     (usb_wf (usb m) \<longrightarrow> usb_wf u)"
  using fold_midi_send_frame [of "sysex_packets True (take (unat len) data)" m]
    fold_midi_send_wf [of m "sysex_packets True (take (unat len) data)"]
  by (auto simp: midi_stream_sysex_packets)

lemma kNoteMap_involution:
  assumes "k < 16"
  shows "andthen (load kNoteMap (unat k)) (\<lambda>n. load kNoteMap (unat n)) = Inr k"
proof (rule u8_all_below [of "\<lambda>k. andthen (load kNoteMap (unat k)) (\<lambda>n. load kNoteMap (unat n)) = Inr k" 16])
  show "unat k < 16" using assms by (simp add: word_less_nat_alt)
qed code_simp

lemma midi_clock_three:
  assumes "midi_clock_enabled m" "ticks m \<in> {1, 2, 3}"
  shows "midi_clock (midi_clock (midi_clock m)) = m\<lparr>display_flash_counter := display_flash_counter m + 1\<rparr>"
  using assms by (auto simp: midi_clock_def Let_def)

section \<open>Properties\<close>

text \<open>C8: a SysEx message is sent whole and can be read back: with the host listening,
  \<^verbatim>\<open>midi_stream_sysex\<close> never reads past the first \<open>len\<close> bytes of its buffer, appends a sequence
  of USB-MIDI packets to the stream, and the payloads of these packets, each of the size its
  code index number announces, concatenate to exactly those bytes; all packets but the
  last are continuations (code 4) and the last of a message of more than three bytes
  is a SysEx end.\<close>

theorem sysex_stream_roundtrip:
  assumes "midi_ready m" and "unat len \<le> length data"
  shows "\<exists>m' ps. midi_stream_sysex len data m = Inr m'
     \<and> midi_out m' = midi_out m @ concat (map packet_bytes ps)
     \<and> concat (map packet_payload ps) = take (unat len) data
     \<and> (3 < len \<longrightarrow> list_all (\<lambda>q. Event q = 4) (butlast ps) \<and> Event (last ps) \<in> {5, 6, 7})"
proof -
  let ?ps = "sysex_packets True (take (unat len) data)"
  have "list_all (\<lambda>q. Event q = 4) (butlast ?ps) \<and> Event (last ?ps) \<in> {5, 6, 7}" if "3 < len"
  proof -
    have "3 < length (take (unat len) data)" using that assms(2) by (simp add: word_less_nat_alt)
    then obtain qs q where "?ps = qs @ [q]" "list_all (\<lambda>q. Event q = 4) qs" "Event q \<in> {5, 6, 7}"
      using sysex_packets_codes by blast
    then show ?thesis by (simp only: butlast_snoc last_snoc)
  qed
  then show ?thesis
    using fold_midi_send_out [OF assms(1), of ?ps] midi_stream_sysex_packets [OF assms(2), of m]
      sysex_packets_payload [of True "take (unat len) data"] by blast
qed

definition midi_example :: midi_globals where
  "midi_example = midi_init (usb_example\<lparr>host_waits := []\<rparr>)"

theorem sysex_stream_roundtrip_witness:
  "\<exists>m' ps. midi_stream_sysex 5 [0xF0, 0x00, 0x01, 0x79, 0xF7] midi_example = Inr m'
     \<and> midi_out m' = midi_out midi_example @ concat (map packet_bytes ps)
     \<and> concat (map packet_payload ps) = [0xF0, 0x00, 0x01, 0x79, 0xF7]"
proof -
  have "midi_ready midi_example" by code_simp
  then show ?thesis
    using sysex_stream_roundtrip [of midi_example 5 "[0xF0, 0x00, 0x01, 0x79, 0xF7]"] by auto
qed

text \<open>Every note and control-change function of the MIDI layer emits exactly one
  well-formed channel message: the code index number matches the status byte and both data
  bytes are 7-bit, whatever the arguments and settings are.\<close>

theorem channel_messages_wellformed:
  "(\<exists>p. channel_packet p \<and> midi_stream_raw_note ch pitch onoff vel m = midi_send p m)
   \<and> (\<exists>p. channel_packet p \<and> midi_stream_note_ch ch pitch onoff m = midi_send p m)
   \<and> (\<exists>p. channel_packet p \<and> midi_stream_raw_cc ch cc val m = midi_send p m)
   \<and> (\<exists>p. channel_packet p \<and> midi_stream_note pitch onoff m = midi_send p m)
   \<and> (\<exists>p. channel_packet p \<and> midi_stream_cc cc val m = midi_send p m)"
  by (intro conjI channel_messages_conform)

text \<open>In four-bank mode the note of a key and the key of a note are inverse to each other
  for the sixteen keys of a bank, whichever bank is selected.\<close>

theorem fourbanks_note_key_inverse:
  assumes "k < 16"
  shows "andthen (midi_fourbanks_key_to_note k m) (\<lambda>n. midi_fourbanks_note_to_key n m) = Inr k"
  using kNoteMap_involution [OF assms]
  by (simp add: midi_fourbanks_key_to_note_def midi_fourbanks_note_to_key_def Let_def andthen_assoc
      diff_diff_eq)

text \<open>Once the clock is running, the flash counter that drives the light animations
  advances by exactly one for every three MIDI clock messages, modulo 65536.\<close>

theorem midi_clock_rate:
  assumes "midi_clock_enabled m" "ticks m \<in> {1, 2, 3}"
  shows "(midi_clock ^^ (3 * n)) m = m\<lparr>display_flash_counter := display_flash_counter m + of_nat n\<rparr>"
proof (induction n)
  case (Suc n)
  have "(midi_clock ^^ (3 * Suc n)) m = midi_clock (midi_clock (midi_clock ((midi_clock ^^ (3 * n)) m)))"
    by (simp add: numeral_eq_Suc)
  also have "\<dots> = midi_clock (midi_clock (midi_clock
      (m\<lparr>display_flash_counter := display_flash_counter m + of_nat n\<rparr>)))"
    by (simp only: Suc.IH)
  finally show ?case using assms by (simp add: midi_clock_three add.commute add.left_commute)
qed simp

end
