(* ===== verification/Mf_Colors.thy ===== *)
theory Mf_Colors
  imports Mf_Prelude
begin

unbundle bit_operations_syntax

text \<open>
  Colours of \<^verbatim>\<open>display.c\<close>: the palette, the table of velocity colours, the two banks of idle
  and active key colours, and the functions that map colours received over SysEx to the
  palette so that the LEDs stay within the power the USB port gives.

  The two-row arrays \<^verbatim>\<open>default_bank_inactive\<close> and \<^verbatim>\<open>default_bank_active\<close> are one list each, as
  they lie in memory: byte \<open>i\<close> of bank \<open>b\<close> is at \<open>192 * b + i\<close>.  The tables \<^verbatim>\<open>default_color\<close>
  and \<^verbatim>\<open>ableton_midi_feedback_colors\<close> are flat too, three bytes per colour.
\<close>

section \<open>Tables\<close>

definition COLORID_OFF :: nat where "COLORID_OFF = 0"
definition COLORID_RED :: nat where "COLORID_RED = 1"
definition COLORID_RED_DIM :: nat where "COLORID_RED_DIM = 2"
definition COLORID_ORANGE :: nat where "COLORID_ORANGE = 3"
definition COLORID_ORANGE_DIM :: nat where "COLORID_ORANGE_DIM = 4"
definition COLORID_YELLOW :: nat where "COLORID_YELLOW = 5"
definition COLORID_YELLOW_DIM :: nat where "COLORID_YELLOW_DIM = 6"
definition COLORID_CHARTREUSE :: nat where "COLORID_CHARTREUSE = 7"
definition COLORID_CHARTREUSE_DIM :: nat where "COLORID_CHARTREUSE_DIM = 8"
definition COLORID_GREEN :: nat where "COLORID_GREEN = 9"
definition COLORID_GREEN_DIM :: nat where "COLORID_GREEN_DIM = 10"
definition COLORID_CYAN :: nat where "COLORID_CYAN = 11"
definition COLORID_CYAN_DIM :: nat where "COLORID_CYAN_DIM = 12"
definition COLORID_BLUE :: nat where "COLORID_BLUE = 13"
definition COLORID_BLUE_DIM :: nat where "COLORID_BLUE_DIM = 14"
definition COLORID_LAVENDER :: nat where "COLORID_LAVENDER = 15"
definition COLORID_LAVENDER_DIM :: nat where "COLORID_LAVENDER_DIM = 16"
definition COLORID_PINK :: nat where "COLORID_PINK = 17"
definition COLORID_PINK_DIM :: nat where "COLORID_PINK_DIM = 18"
definition COLORID_WHITE :: nat where "COLORID_WHITE = 19"

lemmas colorid_defs = COLORID_OFF_def COLORID_RED_def COLORID_RED_DIM_def COLORID_ORANGE_def
  COLORID_ORANGE_DIM_def COLORID_YELLOW_def COLORID_YELLOW_DIM_def COLORID_CHARTREUSE_def
  COLORID_CHARTREUSE_DIM_def COLORID_GREEN_def COLORID_GREEN_DIM_def COLORID_CYAN_def
  COLORID_CYAN_DIM_def COLORID_BLUE_def COLORID_BLUE_DIM_def COLORID_LAVENDER_def
  COLORID_LAVENDER_DIM_def COLORID_PINK_def COLORID_PINK_DIM_def COLORID_WHITE_def

definition default_color :: "u8 list" where
  "default_color =
     [0, 0, 0,  48, 0, 0,  24, 0, 0,  40, 12, 0,  20, 6, 0,  32, 25, 0,  16, 12, 0,
      25, 32, 0,  12, 16, 0,  0, 48, 0,  0, 24, 0,  0, 30, 30,  0, 15, 15,  0, 0, 48,
      0, 0, 24,  25, 7, 32,  13, 3, 17,  36, 0, 18,  18, 0, 9,  24, 24, 24]"

definition color_at :: "nat \<Rightarrow> nat \<Rightarrow> u8" where
  "color_at ci k = default_color ! (3 * ci + k)"

definition ableton_midi_feedback_colors :: "u8 list" where
  "ableton_midi_feedback_colors =
     [0, 0, 0, 8, 8, 8, 16, 16, 16, 24, 24, 24, 40, 12, 12, 48, 0, 0, 32, 0, 0, 16, 0, 0,
      30, 22, 12, 42, 13, 0, 28, 9, 0, 14, 4, 0, 28, 28, 8, 30, 30, 0, 20, 20, 0, 10, 10, 0,
      20, 38, 11, 13, 42, 0, 9, 28, 0, 4, 14, 0, 11, 40, 11, 0, 48, 0, 0, 32, 0, 0, 16, 0,
      11, 38, 14, 0, 44, 4, 0, 29, 3, 0, 15, 2, 10, 36, 19, 6, 40, 14, 4, 26, 9, 2, 13, 4,
      9, 32, 22, 0, 38, 22, 0, 25, 14, 0, 12, 7, 9, 24, 32, 0, 23, 36, 0, 15, 24, 0, 7, 12,
      10, 19, 36, 0, 19, 39, 0, 13, 26, 0, 6, 13, 11, 11, 40, 0, 0, 48, 0, 0, 32, 0, 0, 16,
      19, 10, 36, 19, 0, 39, 13, 0, 26, 6, 0, 13, 28, 8, 28, 30, 0, 30, 20, 0, 20, 10, 0, 10,
      36, 10, 19, 42, 0, 13, 28, 0, 8, 14, 0, 4, 44, 3, 0, 28, 9, 0, 22, 15, 0, 12, 18, 0,
      0, 10, 0, 0, 16, 9, 0, 15, 23, 0, 0, 48, 0, 12, 14, 6, 0, 38, 16, 16, 16, 8, 8, 8,
      48, 0, 0, 23, 32, 5, 24, 33, 1, 15, 38, 1, 3, 26, 0, 0, 38, 20, 0, 25, 38, 0, 7, 44,
      15, 0, 42, 19, 0, 40, 33, 4, 23, 12, 6, 0, 42, 12, 0, 22, 37, 1, 18, 40, 3, 0, 48, 0,
      9, 42, 6, 12, 36, 15, 7, 32, 25, 13, 19, 36, 9, 15, 37, 19, 18, 33, 24, 3, 30, 40, 0, 15,
      40, 15, 0, 34, 14, 0, 20, 36, 0, 24, 17, 1, 10, 8, 0, 3, 14, 3, 2, 15, 10, 3, 3, 7,
      4, 6, 16, 19, 11, 5, 31, 0, 1, 37, 13, 10, 37, 18, 5, 30, 27, 5, 23, 33, 7, 19, 34, 3,
      5, 5, 9, 24, 28, 12, 15, 30, 22, 19, 19, 32, 19, 14, 34, 6, 6, 6, 11, 11, 11, 21, 24, 24,
      30, 0, 0, 9, 0, 0, 4, 39, 0, 1, 12, 0, 29, 28, 0, 11, 9, 0, 33, 17, 0, 14, 3, 0]"

section \<open>The colour banks\<close>

record color_globals =
  default_bank_inactive :: "u8 list"
  default_bank_active :: "u8 list"

definition BANK_BYTES :: nat where "BANK_BYTES = 192"

definition bank_index :: "nat \<Rightarrow> nat \<Rightarrow> nat" where
  "bank_index bank i = BANK_BYTES * bank + i"

text \<open>Three consecutive stores, and three consecutive loads.\<close>

definition store3 :: "u8 list \<Rightarrow> nat \<Rightarrow> u8 \<times> u8 \<times> u8 \<Rightarrow> u8 list run" where
  "store3 xs i c = (case c of (x, y, z) \<Rightarrow>
     andthen (store xs i x) (\<lambda>xs. andthen (store xs (i + 1) y) (\<lambda>xs. store xs (i + 2) z)))"

definition load3 :: "u8 list \<Rightarrow> nat \<Rightarrow> (u8 \<times> u8 \<times> u8) run" where
  "load3 xs i = andthen (load xs i) (\<lambda>x. andthen (load xs (i + 1)) (\<lambda>y.
     andthen (load xs (i + 2)) (\<lambda>z. Inr (x, y, z))))"

definition palette :: "nat \<Rightarrow> u8 \<times> u8 \<times> u8" where
  "palette ci = (color_at ci 0, color_at ci 1, color_at ci 2)"

text \<open>One of the two loops of \<^verbatim>\<open>load_default_colors\<close>; the byte index is a \<^verbatim>\<open>uint8_t\<close>.\<close>

definition load_default_bank :: "nat \<Rightarrow> nat \<Rightarrow> nat \<Rightarrow> color_globals \<Rightarrow> color_globals run" where
  "load_default_bank bank idle active c =
     andthen (for_run (\<lambda>this_button (index, c).
         andthen (store3 (default_bank_inactive c) (bank_index bank (unat index)) (palette idle)) (\<lambda>ina.
         andthen (store3 (default_bank_active c) (bank_index bank (unat index)) (palette active)) (\<lambda>act.
         Inr (index + 3, c\<lparr>default_bank_inactive := ina, default_bank_active := act\<rparr>))))
       [0..<64] (0 :: u8, c)) (\<lambda>(index, c). Inr c)"

definition load_default_colors :: "color_globals \<Rightarrow> color_globals run" where
  "load_default_colors c =
     andthen (load_default_bank 0 COLORID_OFF COLORID_BLUE c)
       (load_default_bank 1 COLORID_WHITE COLORID_GREEN)"

section \<open>Power adjustment\<close>

definition LAVENDER_GREEN_LIMIT :: u8 where "LAVENDER_GREEN_LIMIT = 0x24"
definition MF3D_UTILITY_BRIGHT_COLOR_LIMIT :: u8 where "MF3D_UTILITY_BRIGHT_COLOR_LIMIT = 0x80"

definition bright_or :: "u8 \<Rightarrow> nat \<Rightarrow> nat \<Rightarrow> nat option" where
  "bright_or x bright dim = Some (if x > MF3D_UTILITY_BRIGHT_COLOR_LIMIT then bright else dim)"

text \<open>
  The decision tree of the loop body: the palette colour a triple is replaced by, or
  \<^const>\<open>None\<close> where the source executes \<^verbatim>\<open>continue\<close> and leaves the triple as it is.
\<close>

definition power_color_id :: "u8 \<Rightarrow> u8 \<Rightarrow> u8 \<Rightarrow> nat option" where
  "power_color_id r g b =
     (if r = 0 then
        (if g = 0 then
           (if b = 0 then Some COLORID_OFF
            else if b = color_at COLORID_BLUE 2 then None
            else bright_or b COLORID_BLUE COLORID_BLUE_DIM)
         else if b = 0 then
           (if g = color_at COLORID_GREEN 1 then None
            else bright_or g COLORID_GREEN COLORID_GREEN_DIM)
         else if g = color_at COLORID_CYAN 1 then None
         else bright_or g COLORID_CYAN COLORID_CYAN_DIM)
      else if g = 0 then
        (if b = 0 then
           (if r = color_at COLORID_RED 0 then None
            else bright_or r COLORID_RED COLORID_RED_DIM)
         else if r = color_at COLORID_PINK 0 then None
         else bright_or r COLORID_PINK COLORID_PINK_DIM)
      else if b = 0 then
        (if r < g then
           (if g = color_at COLORID_CHARTREUSE 1 then None
            else bright_or g COLORID_CHARTREUSE COLORID_CHARTREUSE_DIM)
         else if drop_bit 1 r \<ge> g then
           (if r = color_at COLORID_ORANGE 0 then None
            else bright_or r COLORID_ORANGE COLORID_ORANGE_DIM)
         else if r = color_at COLORID_YELLOW 0 then None
         else bright_or r COLORID_YELLOW COLORID_YELLOW_DIM)
      else if g > LAVENDER_GREEN_LIMIT then Some COLORID_WHITE
      else if b = color_at COLORID_LAVENDER 2 then None
      else bright_or r COLORID_LAVENDER COLORID_LAVENDER_DIM)"

definition adjust_triple :: "nat \<Rightarrow> nat \<Rightarrow> u8 list \<Rightarrow> u8 list run" where
  "adjust_triple bank i arr =
     andthen (load3 arr (bank_index bank i)) (\<lambda>(r, g, b).
       case power_color_id r g b of
         None \<Rightarrow> Inr arr
       | Some ci \<Rightarrow> store3 arr (bank_index bank i) (palette ci))"

text \<open>
  The loop of both functions.  Its index is a \<^verbatim>\<open>uint8_t\<close> that steps by three, while the bound
  is an \<^verbatim>\<open>int\<close>: the fuel of 256 is more than the number of index values, so running out of it
  means the index comes round again and the loop never ends.
\<close>

fun adjust_loop :: "nat \<Rightarrow> u8 \<Rightarrow> nat \<Rightarrow> nat \<Rightarrow> u8 list \<Rightarrow> u8 list run" where
  "adjust_loop 0 this_byte bound bank arr = Inl Hang"
| "adjust_loop (Suc n) this_byte bound bank arr =
     (if unat this_byte < bound
      then andthen (adjust_triple bank (unat this_byte) arr)
             (adjust_loop n (this_byte + 3) bound bank)
      else Inr arr)"

definition adjust_inactive_bank_leds_for_power ::
  "u8 \<Rightarrow> u8 \<Rightarrow> u8 \<Rightarrow> color_globals \<Rightarrow> color_globals run" where
  "adjust_inactive_bank_leds_for_power bank offset siz c =
     andthen (adjust_loop 256 offset (unat offset + unat siz) (unat bank) (default_bank_inactive c))
       (\<lambda>arr. Inr (c\<lparr>default_bank_inactive := arr\<rparr>))"

definition adjust_active_bank_leds_for_power ::
  "u8 \<Rightarrow> u8 \<Rightarrow> u8 \<Rightarrow> color_globals \<Rightarrow> color_globals run" where
  "adjust_active_bank_leds_for_power bank offset siz c =
     andthen (adjust_loop 256 offset (unat offset + unat siz) (unat bank) (default_bank_active c))
       (\<lambda>arr. Inr (c\<lparr>default_bank_active := arr\<rparr>))"

definition colors_wf :: "color_globals \<Rightarrow> bool" where
  "colors_wf c \<longleftrightarrow> length (default_bank_inactive c) = 2 * BANK_BYTES
     \<and> length (default_bank_active c) = 2 * BANK_BYTES"

section \<open>Colours over SysEx\<close>

text \<open>
  The conversions of \<^verbatim>\<open>config.c\<close>: a colour byte received in a bulk transfer is doubled, one
  that is sent is scaled from the range of the palette to seven bits.
\<close>

definition DISPLAY_SCALING_COLOR_IN_MAX_VALUE :: u16 where "DISPLAY_SCALING_COLOR_IN_MAX_VALUE = 48"
definition DISPLAY_SCALING_COLOR_OUT_MAX_VALUE :: u16 where "DISPLAY_SCALING_COLOR_OUT_MAX_VALUE = 127"

definition push_color :: "u8 \<Rightarrow> u8" where
  "push_color v = v * 2"

definition pull_color :: "u8 \<Rightarrow> u8" where
  "pull_color c = ucast (ucast c * DISPLAY_SCALING_COLOR_OUT_MAX_VALUE
     div DISPLAY_SCALING_COLOR_IN_MAX_VALUE)"

section \<open>Lemmas on triples\<close>

definition adjust_rgb :: "u8 \<times> u8 \<times> u8 \<Rightarrow> u8 \<times> u8 \<times> u8" where
  "adjust_rgb c = (case c of (r, g, b) \<Rightarrow>
     (case power_color_id r g b of None \<Rightarrow> c | Some ci \<Rightarrow> palette ci))"

definition triple_at :: "u8 list \<Rightarrow> nat \<Rightarrow> u8 \<times> u8 \<times> u8" where
  "triple_at xs i = (xs ! i, xs ! (i + 1), xs ! (i + 2))"

lemma load3_in [simp]: "i + 2 < length xs \<Longrightarrow> load3 xs i = Inr (triple_at xs i)"
  by (simp add: load3_def triple_at_def)

lemma store3_in [simp]:
  "i + 2 < length xs \<Longrightarrow> store3 xs i (x, y, z) = Inr (xs[i := x, i + 1 := y, i + 2 := z])"
  by (simp add: store3_def)

lemma store3_total: "i + 2 < length xs \<Longrightarrow> \<exists>ys. store3 xs i c = Inr ys \<and> length ys = length xs"
  by (cases c) simp

lemma triple_at_update [simp]:
  "i + 2 < length xs \<Longrightarrow> triple_at (xs[i := x, i + 1 := y, i + 2 := z]) i = (x, y, z)"
  by (simp add: triple_at_def)

definition put3 :: "u8 list \<Rightarrow> nat \<Rightarrow> u8 \<times> u8 \<times> u8 \<Rightarrow> u8 list" where
  "put3 xs i c = (case c of (x, y, z) \<Rightarrow> xs[i := x, i + 1 := y, i + 2 := z])"

lemma store3_put3: "i + 2 < length xs \<Longrightarrow> store3 xs i c = Inr (put3 xs i c)"
  by (cases c) (simp add: put3_def)

lemma length_put3 [simp]: "length (put3 xs i c) = length xs"
  by (cases c) (simp add: put3_def)

lemma put3_other: "j < i \<or> i + 2 < j \<Longrightarrow> put3 xs i c ! j = xs ! j"
  by (cases c) (auto simp: put3_def)

lemma triple_at_put3: "i + 2 < length xs \<Longrightarrow> triple_at (put3 xs i c) i = c"
  by (cases c) (simp add: put3_def triple_at_def)

lemma put3_triple_at: "i + 2 < length xs \<Longrightarrow> put3 xs i (triple_at xs i) = xs"
  by (simp add: put3_def triple_at_def list_update_id)

lemma adjust_triple_in:
  assumes "bank_index bank i + 2 < length arr"
  shows "adjust_triple bank i arr =
     Inr (put3 arr (bank_index bank i) (adjust_rgb (triple_at arr (bank_index bank i))))"
proof (cases "triple_at arr (bank_index bank i)")
  case (fields r g b)
  show ?thesis
  proof (cases "power_color_id r g b")
    case None
    with assms fields put3_triple_at [OF assms] show ?thesis
      by (simp add: adjust_triple_def adjust_rgb_def)
  next
    case (Some ci)
    with assms fields show ?thesis
      by (simp add: adjust_triple_def adjust_rgb_def store3_put3)
  qed
qed

section \<open>Lemmas on the adjustment loop\<close>

lemma u8_add3: "unat b + 3 < 256 \<Longrightarrow> unat (b + 3 :: u8) = unat b + 3"
  by (simp add: unat_word_ariths)

text \<open>The loop as a fold over the triples it visits.\<close>

definition adjust_triples :: "nat \<Rightarrow> nat \<Rightarrow> nat \<Rightarrow> u8 list \<Rightarrow> u8 list" where
  "adjust_triples n start bank arr = fold (\<lambda>k arr.
      put3 arr (bank_index bank (start + 3 * k))
        (adjust_rgb (triple_at arr (bank_index bank (start + 3 * k))))) [0..<n] arr"

lemma adjust_triples_rec:
  "adjust_triples (Suc n) start bank arr = adjust_triples n (start + 3) bank
     (put3 arr (bank_index bank start) (adjust_rgb (triple_at arr (bank_index bank start))))"
proof -
  have "[0..<Suc n] = 0 # map Suc [0..<n]" by (simp add: upt_conv_Cons map_Suc_upt)
  then show ?thesis by (simp add: adjust_triples_def fold_map comp_def ac_simps)
qed

lemma adjust_loop_fold:
  assumes "unat b + 3 * n \<le> bound + 2" "bound \<le> unat b + 3 * n" "bound \<le> 250" "n < fuel"
    and "bank_index bank (unat b + 3 * n) \<le> length arr"
  shows "adjust_loop fuel b bound bank arr = Inr (adjust_triples n (unat b) bank arr)"
  using assms
proof (induction n arbitrary: fuel b arr)
  case 0
  then show ?case by (cases fuel) (simp_all add: adjust_triples_def)
next
  case (Suc n)
  obtain f where f: "fuel = Suc f" using Suc.prems(4) by (cases fuel) auto
  have lt: "unat b < bound" using Suc.prems(1) by simp
  have b3: "unat (b + 3) = unat b + 3" using lt Suc.prems(3) by (intro u8_add3) simp
  let ?i = "bank_index bank (unat b)"
  let ?arr = "put3 arr ?i (adjust_rgb (triple_at arr ?i))"
  have "?i + 2 < length arr" using Suc.prems(5) by (simp add: bank_index_def)
  then have step: "adjust_triple bank (unat b) arr = Inr ?arr" by (rule adjust_triple_in)
  have "adjust_loop f (b + 3) bound bank ?arr = Inr (adjust_triples n (unat (b + 3)) bank ?arr)"
    using Suc.prems f b3 by (intro Suc.IH) (simp_all add: add.assoc)
  with f lt step show ?case by (simp add: adjust_triples_rec b3)
qed

lemma length_adjust_triples [simp]: "length (adjust_triples n start bank arr) = length arr"
  unfolding adjust_triples_def by (rule length_fold_update) simp

lemma adjust_triples_Suc:
  "adjust_triples (Suc n) start bank arr =
     (let arr' = adjust_triples n start bank arr; i = bank_index bank (start + 3 * n)
      in put3 arr' i (adjust_rgb (triple_at arr' i)))"
  by (simp add: adjust_triples_def Let_def)

lemma adjust_triples_outside:
  "j < bank_index bank start \<or> bank_index bank (start + 3 * n) \<le> j \<Longrightarrow>
   adjust_triples n start bank arr ! j = arr ! j"
  by (induction n) (auto simp: adjust_triples_Suc Let_def put3_other bank_index_def,
     simp_all add: adjust_triples_def)

lemma triple_at_cong:
  "xs ! i = ys ! i \<Longrightarrow> xs ! (i + 1) = ys ! (i + 1) \<Longrightarrow> xs ! (i + 2) = ys ! (i + 2) \<Longrightarrow>
   triple_at xs i = triple_at ys i"
  by (simp add: triple_at_def)

lemma adjust_triples_inside:
  assumes "bank_index bank (start + 3 * n) \<le> length arr" "k < n"
  shows "triple_at (adjust_triples n start bank arr) (bank_index bank (start + 3 * k))
    = adjust_rgb (triple_at arr (bank_index bank (start + 3 * k)))"
  using assms
proof (induction n)
  case (Suc n)
  let ?i = "bank_index bank (start + 3 * n)" and ?a = "adjust_triples n start bank arr"
  have in_range: "?i + 2 < length ?a" using Suc.prems(1) by (simp add: bank_index_def)
  show ?case
  proof (cases "k = n")
    case True
    have "triple_at ?a ?i = triple_at arr ?i"
      by (intro triple_at_cong adjust_triples_outside) simp_all
    with True in_range show ?thesis by (simp add: adjust_triples_Suc Let_def triple_at_put3)
  next
    case False
    then have k: "k < n" using Suc.prems by simp
    have "triple_at (put3 ?a ?i c) (bank_index bank (start + 3 * k)) =
        triple_at ?a (bank_index bank (start + 3 * k))" for c
      using k by (intro triple_at_cong put3_other) (simp_all add: bank_index_def)
    with Suc k show ?thesis by (simp add: adjust_triples_Suc Let_def bank_index_def)
  qed
qed simp

lemma adjust_loop_returns:
  assumes "bound \<le> 250" "bank_index bank (bound + 1) < length arr" "unat b \<le> bound"
  shows "\<exists>arr'. adjust_loop 256 b bound bank arr = Inr arr' \<and> length arr' = length arr"
proof -
  define n where "n = (bound - unat b + 2) div 3"
  have "unat b + 3 * n \<le> bound + 2" "bound \<le> unat b + 3 * n" "n < 256"
    using assms(1,3) by (auto simp: n_def)
  then have "adjust_loop 256 b bound bank arr = Inr (adjust_triples n (unat b) bank arr)"
    using assms by (intro adjust_loop_fold) (auto simp: bank_index_def)
  then show ?thesis by simp
qed

text \<open>With a bound above 255 the exit test can never succeed.\<close>

lemma adjust_loop_wraps: "256 \<le> bound \<Longrightarrow> adjust_loop n b bound bank arr \<noteq> Inr arr'"
proof (induction n arbitrary: b arr)
  case (Suc n)
  have "unat b < bound" using Suc.prems unat_u8_less [of b] by linarith
  with Suc show ?case by (auto simp: andthen_Inr_iff)
qed simp

section \<open>The factory colours\<close>

text \<open>Bank \<open>bank\<close> holds the colours \<open>idle\<close> and \<open>active\<close> on its first \<open>n\<close> keys.\<close>

definition bank_filled :: "nat \<Rightarrow> nat \<Rightarrow> nat \<Rightarrow> nat \<Rightarrow> color_globals \<Rightarrow> bool" where
  "bank_filled n bank idle active c \<longleftrightarrow>
     (\<forall>k<n. triple_at (default_bank_inactive c) (bank_index bank (3 * k)) = palette idle
          \<and> triple_at (default_bank_active c) (bank_index bank (3 * k)) = palette active)"

text \<open>The cells outside bank \<open>bank\<close> are as before.\<close>

definition same_outside :: "nat \<Rightarrow> u8 list \<Rightarrow> u8 list \<Rightarrow> bool" where
  "same_outside bank xs ys \<longleftrightarrow>
     (\<forall>j. j < bank_index bank 0 \<or> bank_index (Suc bank) 0 \<le> j \<longrightarrow> xs ! j = ys ! j)"

lemma triple_at_put3_other:
  "j + 2 < i \<or> i + 2 < j \<Longrightarrow> triple_at (put3 xs i c) j = triple_at xs j"
  by (intro triple_at_cong put3_other) auto

lemma bank_index_inside:
  "bank < 2 \<Longrightarrow> i < 64 \<Longrightarrow> bank_index bank (3 * i) + 2 < 2 * BANK_BYTES"
  by (simp add: bank_index_def BANK_BYTES_def)

lemma unat_triple_index: "i < 64 \<Longrightarrow> unat (of_nat (3 * i) :: u8) = 3 * i"
  by (simp add: unat_of_nat del: of_nat_mult)

lemma load_default_bank_spec:
  assumes "colors_wf c" "bank < 2"
  shows "\<exists>c'. load_default_bank bank idle active c = Inr c' \<and> colors_wf c'
     \<and> bank_filled 64 bank idle active c'
     \<and> same_outside bank (default_bank_inactive c') (default_bank_inactive c)
     \<and> same_outside bank (default_bank_active c') (default_bank_active c)"
proof -
  let ?Q = "\<lambda>i (index, d). index = of_nat (3 * i) \<and> colors_wf d \<and> bank_filled i bank idle active d
     \<and> same_outside bank (default_bank_inactive d) (default_bank_inactive c)
     \<and> same_outside bank (default_bank_active d) (default_bank_active c)"
  let ?f = "\<lambda>this_button (index, c).
         andthen (store3 (default_bank_inactive c) (bank_index bank (unat index)) (palette idle)) (\<lambda>ina.
         andthen (store3 (default_bank_active c) (bank_index bank (unat index)) (palette active)) (\<lambda>act.
         Inr (index + 3, c\<lparr>default_bank_inactive := ina, default_bank_active := act\<rparr>)))"
  have "\<exists>t. for_run ?f [0..<64] (0 :: u8, c) = Inr t \<and> ?Q 64 t"
  proof (rule for_run_upt)
    show "?Q 0 (0, c)" using assms by (simp add: bank_filled_def same_outside_def)
    fix i and s :: "u8 \<times> color_globals" assume i: "i < 64" and q: "?Q i s"
    obtain d where s: "s = (of_nat (3 * i), d)" using q by (cases s) simp
    have "?f i s = Inr (of_nat (3 * Suc i), d\<lparr>default_bank_inactive :=
          put3 (default_bank_inactive d) (bank_index bank (3 * i)) (palette idle), default_bank_active :=
          put3 (default_bank_active d) (bank_index bank (3 * i)) (palette active)\<rparr>)"
      using q i bank_index_inside [OF assms(2) i] unat_triple_index [OF i]
      by (simp add: s colors_wf_def store3_put3 del: of_nat_mult)
    moreover have "bank_filled (Suc i) bank idle active (d\<lparr>default_bank_inactive :=
          put3 (default_bank_inactive d) (bank_index bank (3 * i)) (palette idle), default_bank_active :=
          put3 (default_bank_active d) (bank_index bank (3 * i)) (palette active)\<rparr>)"
      using q bank_index_inside [OF assms(2) i]
      by (auto simp: s bank_filled_def less_Suc_eq triple_at_put3 triple_at_put3_other colors_wf_def
          bank_index_def)
    ultimately show "\<exists>s'. ?f i s = Inr s' \<and> ?Q (Suc i) s'"
      using q i by (auto simp: s colors_wf_def same_outside_def put3_other bank_index_def BANK_BYTES_def)
  qed
  then show ?thesis by (auto simp: load_default_bank_def)
qed

lemma bank_filled_outside:
  assumes "bank_filled n bank idle active c" "n \<le> 64" "bank \<noteq> bank'"
    and "same_outside bank' (default_bank_inactive c') (default_bank_inactive c)"
    and "same_outside bank' (default_bank_active c') (default_bank_active c)"
  shows "bank_filled n bank idle active c'"
  using assms unfolding bank_filled_def same_outside_def triple_at_def
  by (cases "bank < bank'") (auto simp: bank_index_def BANK_BYTES_def not_less)

lemma load_default_colors_spec:
  assumes "colors_wf c"
  shows "\<exists>c'. load_default_colors c = Inr c' \<and> colors_wf c'
     \<and> bank_filled 64 0 COLORID_OFF COLORID_BLUE c' \<and> bank_filled 64 1 COLORID_WHITE COLORID_GREEN c'"
proof -
  obtain d where d: "load_default_bank 0 COLORID_OFF COLORID_BLUE c = Inr d" "colors_wf d"
    "bank_filled 64 0 COLORID_OFF COLORID_BLUE d"
    using load_default_bank_spec [OF assms, of 0] by auto
  then obtain e where e: "load_default_bank 1 COLORID_WHITE COLORID_GREEN d = Inr e" "colors_wf e"
    "bank_filled 64 1 COLORID_WHITE COLORID_GREEN e"
    "same_outside 1 (default_bank_inactive e) (default_bank_inactive d)"
    "same_outside 1 (default_bank_active e) (default_bank_active d)"
    using load_default_bank_spec [of d 1] by auto
  have "bank_filled 64 0 COLORID_OFF COLORID_BLUE e"
    using bank_filled_outside [OF d(3) _ _ e(4,5)] by simp
  with d e show ?thesis by (simp add: load_default_colors_def)
qed

section \<open>Palette facts\<close>

lemma palette_all:
  "list_all (\<lambda>ci. adjust_rgb (palette ci) = palette (if ci = COLORID_WHITE then COLORID_LAVENDER_DIM else ci))
     [0..<20]"
  by code_simp

definition pull_push :: "u8 \<times> u8 \<times> u8 \<Rightarrow> u8 \<times> u8 \<times> u8" where
  "pull_push c = (case c of (r, g, b) \<Rightarrow>
     (push_color (pull_color r), push_color (pull_color g), push_color (pull_color b)))"

lemma pull_push_all: "list_all (\<lambda>ci. adjust_rgb (pull_push (palette ci)) = palette ci) [0..<20]"
  by code_simp

definition rgb_sum :: "u8 \<times> u8 \<times> u8 \<Rightarrow> nat" where
  "rgb_sum c = (case c of (r, g, b) \<Rightarrow> unat r + unat g + unat b)"

lemma palette_power_all: "list_all (\<lambda>ci. rgb_sum (palette ci) \<le> 72) [0..<20]"
  by code_simp

lemma power_color_id_range: "power_color_id r g b = Some ci \<Longrightarrow> ci < 20"
  by (auto simp: power_color_id_def bright_or_def colorid_defs split: if_splits)

section \<open>Properties\<close>

text \<open>C31: the power adjustment of a received block of key colours is exactly the colour map
  applied to each triple.  For a block that lies inside its bank the function returns, every
  triple of the block becomes its image under the decision tree, and no other byte of the
  two banks changes.\<close>

theorem power_adjustment_spec:
  assumes "colors_wf c" "bank < 2" "unat offset + 3 * n \<le> BANK_BYTES" "unat siz = 3 * n"
  shows "\<exists>arr. adjust_inactive_bank_leds_for_power bank offset siz c = Inr (c\<lparr>default_bank_inactive := arr\<rparr>)
    \<and> length arr = 2 * BANK_BYTES
    \<and> (\<forall>k<n. triple_at arr (bank_index (unat bank) (unat offset + 3 * k))
         = adjust_rgb (triple_at (default_bank_inactive c) (bank_index (unat bank) (unat offset + 3 * k))))
    \<and> (\<forall>j. (j < bank_index (unat bank) (unat offset) \<or> bank_index (unat bank) (unat offset + 3 * n) \<le> j)
         \<longrightarrow> arr ! j = default_bank_inactive c ! j)"
proof -
  let ?a = "default_bank_inactive c"
  have bank: "unat bank \<le> 1" using assms(2) by (simp add: word_less_nat_alt)
  have inside: "bank_index (unat bank) (unat offset + 3 * n) \<le> length ?a"
    using bank assms(1,3) by (simp add: colors_wf_def bank_index_def BANK_BYTES_def)
  have "adjust_loop 256 offset (unat offset + unat siz) (unat bank) ?a
      = Inr (adjust_triples n (unat offset) (unat bank) ?a)"
  proof (cases "n = 0")
    case True
    then show ?thesis using assms(4) by (simp add: adjust_triples_def numeral_eq_Suc)
  next
    case False
    then show ?thesis using assms(3,4) inside
      by (intro adjust_loop_fold) (simp_all add: BANK_BYTES_def bank_index_def)
  qed
  then show ?thesis
    using assms(1) inside adjust_triples_inside [OF inside] adjust_triples_outside
    by (intro exI [of _ "adjust_triples n (unat offset) (unat bank) ?a"])
       (auto simp: adjust_inactive_bank_leds_for_power_def colors_wf_def)
qed

definition colors_example :: color_globals where
  "colors_example = \<lparr>default_bank_inactive = replicate 384 0, default_bank_active = replicate 384 0\<rparr>"

theorem power_adjustment_spec_witness:
  "\<exists>arr. adjust_inactive_bank_leds_for_power 1 168 24 colors_example
     = Inr (colors_example\<lparr>default_bank_inactive := arr\<rparr>) \<and> length arr = 2 * BANK_BYTES"
  using power_adjustment_spec [of colors_example 1 168 8 24]
  by (auto simp: colors_example_def colors_wf_def BANK_BYTES_def)

text \<open>A triple the adjustment does replace is replaced by a palette colour, whose three
  channels sum to at most 72 of the possible 765.\<close>

theorem adjusted_colors_bounded:
  assumes "power_color_id r g b = Some ci"
  shows "adjust_rgb (r, g, b) = palette ci \<and> rgb_sum (adjust_rgb (r, g, b)) \<le> 72"
  using assms palette_power_all power_color_id_range [OF assms]
  by (auto simp: adjust_rgb_def list_all_iff)

text \<open>The power limit has a hole.  The shortcut meant for colours that are already in the
  palette tests one channel only, so full blue passes unscaled beside the green value of the
  palette's cyan; both bytes can be sent in a bulk transfer.\<close>

theorem power_limit_escape:
  "adjust_rgb (push_color 0, push_color 15, push_color 127) = (0, 30, 254)
   \<and> rgb_sum (0, 30, 254) = 284"
  by code_simp

text \<open>A key colour read back over SysEx and sent again is unchanged: for each of the twenty
  palette colours, scaling to seven bits, doubling and adjusting gives the same colour.\<close>

theorem palette_pull_push_roundtrip:
  assumes "ci < 20"
  shows "adjust_rgb (pull_push (palette ci)) = palette ci"
  using assms pull_push_all by (simp add: list_all_iff)

text \<open>Colours that already are palette colours survive the adjustment, with one exception:
  white is turned into dim lavender.\<close>

theorem palette_fixed_points:
  assumes "ci < 20"
  shows "adjust_rgb (palette ci) = palette (if ci = COLORID_WHITE then COLORID_LAVENDER_DIM else ci)"
  using assms palette_all by (simp add: list_all_iff)

end
