(* ===== verification/Mf_State.thy ===== *)
theory Mf_State
  imports Mf_Key Mf_Random Mf_Combo Mf_Midi Mf_Colors
begin

text \<open>
  The global variables of the firmware in one record: the components modelled in the
  earlier theories keep their own record, the settings of \<^verbatim>\<open>eeprom.c\<close> with the EEPROM cells,
  the counters and registers of \<^verbatim>\<open>led.c\<close>, the animation slots of \<^verbatim>\<open>display.c\<close> and the ball
  demo are declared here, where both \<^verbatim>\<open>display.c\<close> and \<^verbatim>\<open>led.c\<close> can reach them.  The register
  \<^verbatim>\<open>DDRC\<close>, which the key scanner and the LEDs share, is in the record of the key scanner;
  \<open>led_frame\<close> is what the four LED strands were last sent, and \<open>after_display_buffer\<close> the RAM
  byte that happens to follow \<^verbatim>\<open>g_display_buffer\<close>.
\<close>

record ee_globals =
  G_EE_COMBOS_ENABLE :: u8
  G_EE_MIDI_OUTPUT_MODE :: u8
  G_EE_FOUR_BANKS_MODE :: u8
  G_EE_TILT_MODE :: u8
  G_EE_TILT_MASK :: u8
  G_EE_ANIMATIONS :: u8
  G_EE_TILT_SENSITIVITY :: u8
  G_EE_PITCH_SENSITIVITY :: u8
  G_EE_TILT_RANGE :: u8
  G_EE_PITCH_RANGE :: u8
  G_EE_TILT_DEADZONE :: u8
  G_EE_PITCH_DEADZONE :: u8
  G_EE_TILT_AXIS :: u8
  G_EE_PICK_SENSITIVITY :: u8
  G_EE_SLEEP_TIME :: u8
  G_EE_SIDE_BANK :: u8
  g_self_test_passed :: u8
  eeprom_mem :: "nat \<Rightarrow> u8"

record led_globals =
  g_led_counter :: "u16 list"
  half_ms_counter :: u16
  one_second_counter :: u8
  sleep_minute_counter :: u8
  tick :: u16
  DDRB :: u8
  PRR0 :: u8
  TCCR1A :: u8
  TCCR1B :: u8
  TCNT1 :: u16
  TIMSK1 :: u8
  test_red :: u32
  test_green :: u32
  test_blue :: u32
  led_frame :: "bool list list"
  after_display_buffer :: u8

text \<open>
  Where the colour pointer of an animation slot points to: nowhere yet, into
  \<^verbatim>\<open>default_bank_active\<close> or to a row of \<^verbatim>\<open>default_color\<close>.
\<close>

datatype color_ptr = No_Color | Bank_Active nat | Default_Color nat

record anim_globals =
  geometric_animation_btn_id :: "u8 list"
  geometric_animation_type :: "u8 list"
  geometric_animation_pos :: "u8 list"
  geometric_animation_color_ptr :: "color_ptr list"
  geometric_animation_id :: nat
  assign_geometric_animation_id :: nat

record ball_globals =
  ball_index :: nat
  ball_horizontal_direction :: "bool list"
  ball_horizontal_slowdown_factor :: "u8 list"
  ball_horizontal_slowdown_counter :: "u8 list"
  ball_vertical_direction :: "bool list"
  ball_vertical_slowdown_counter :: "u8 list"
  ball_vertical_slowdown_factor :: "u8 list"
  ball_vertical_max :: "u8 list"
  ball_color :: "u8 list"
  ball_grid :: "u8 list"
  new_ball_delay_counter :: u8
  new_ball_direction :: bool
  last_this_ball :: u8
  last_that_ball :: u8
  repeat_collision_counter :: u8

record dev =
  key_g :: key_globals
  midi :: midi_globals
  combo_g :: combo_globals
  rng :: random_globals
  ee :: ee_globals
  colors :: color_globals
  led :: led_globals
  anim :: anim_globals
  balls :: ball_globals
  g_display_buffer :: "u8 list"
  watchdog_flag :: bool

section \<open>Power-on state\<close>

text \<open>
  The values the C start-up code gives the globals, for given EEPROM contents and a given
  state of the USB side.  Registers start at zero.
\<close>

definition key_init :: key_globals where
  "key_init = \<lparr>g_key_debounce_buffer = replicate DEBOUNCE_BUFFER_SIZE 0, buffer_pos = 0,
     g_key_state = 0, g_key_prev_state = 0, g_key_up = 0, g_key_down = 0, g_key_bank_last_up = 0,
     system_time_ms = 0, last_led_refresh_time_ms = 0, DDRC_key = 0, DDRD = 0, PORTC_key = 0, PORTD = 0,
     TCCR0B = 0, TCNT0 = 0, TIMSK0 = 0, interrupts_enabled = False\<rparr>"

definition ee_init :: "(nat \<Rightarrow> u8) \<Rightarrow> ee_globals" where
  "ee_init m = \<lparr>G_EE_COMBOS_ENABLE = 0, G_EE_MIDI_OUTPUT_MODE = 0, G_EE_FOUR_BANKS_MODE = 0,
     G_EE_TILT_MODE = 0, G_EE_TILT_MASK = 0, G_EE_ANIMATIONS = 0, G_EE_TILT_SENSITIVITY = 0,
     G_EE_PITCH_SENSITIVITY = 0, G_EE_TILT_RANGE = 0, G_EE_PITCH_RANGE = 0, G_EE_TILT_DEADZONE = 0,
     G_EE_PITCH_DEADZONE = 0, G_EE_TILT_AXIS = 0, G_EE_PICK_SENSITIVITY = 0, G_EE_SLEEP_TIME = 0,
     G_EE_SIDE_BANK = 0, g_self_test_passed = 0, eeprom_mem = m\<rparr>"

definition led_init :: led_globals where
  "led_init = \<lparr>g_led_counter = replicate 4 0, half_ms_counter = 0, one_second_counter = 0,
     sleep_minute_counter = 0, tick = 0, DDRB = 0, PRR0 = 0, TCCR1A = 0, TCCR1B = 0,
     TCNT1 = 0, TIMSK1 = 0, test_red = 0x0F, test_green = 0x0F, test_blue = 0x0F, led_frame = [],
     after_display_buffer = 0\<rparr>"

definition GEOMETRIC_ANIMATION_STEPS_SQUARE :: u8 where "GEOMETRIC_ANIMATION_STEPS_SQUARE = 8"
definition CONCURRENT_GEOMETRIC_ANIMATIONS :: nat where "CONCURRENT_GEOMETRIC_ANIMATIONS = 4"

definition anim_init :: anim_globals where
  "anim_init = \<lparr>geometric_animation_btn_id = replicate CONCURRENT_GEOMETRIC_ANIMATIONS 0,
     geometric_animation_type = replicate CONCURRENT_GEOMETRIC_ANIMATIONS 0,
     geometric_animation_pos = replicate CONCURRENT_GEOMETRIC_ANIMATIONS GEOMETRIC_ANIMATION_STEPS_SQUARE,
     geometric_animation_color_ptr = replicate CONCURRENT_GEOMETRIC_ANIMATIONS No_Color,
     geometric_animation_id = 0, assign_geometric_animation_id = 0\<rparr>"

definition BALL_DEMO_MAX_BALLS :: nat where "BALL_DEMO_MAX_BALLS = 2"
definition BALL_DEMO_NEW_BALL_DELAY_LIMIT :: u8 where "BALL_DEMO_NEW_BALL_DELAY_LIMIT = 0x18"

definition ball_init :: ball_globals where
  "ball_init = \<lparr>ball_index = 0, ball_horizontal_direction = replicate BALL_DEMO_MAX_BALLS False,
     ball_horizontal_slowdown_factor = replicate BALL_DEMO_MAX_BALLS 0,
     ball_horizontal_slowdown_counter = replicate BALL_DEMO_MAX_BALLS 0,
     ball_vertical_direction = replicate BALL_DEMO_MAX_BALLS False,
     ball_vertical_slowdown_counter = replicate BALL_DEMO_MAX_BALLS 0,
     ball_vertical_slowdown_factor = replicate BALL_DEMO_MAX_BALLS 0,
     ball_vertical_max = replicate BALL_DEMO_MAX_BALLS 0, ball_color = replicate BALL_DEMO_MAX_BALLS 0,
     ball_grid = replicate 64 0, new_ball_delay_counter = BALL_DEMO_NEW_BALL_DELAY_LIMIT,
     new_ball_direction = True, last_this_ball = 0xFF, last_that_ball = 0xFF,
     repeat_collision_counter = 0\<rparr>"

definition dev_init :: "(nat \<Rightarrow> u8) \<Rightarrow> usb_globals \<Rightarrow> dev" where
  "dev_init m u = \<lparr>key_g = key_init, midi = midi_init u, combo_g = combo_init, rng = random_init,
     ee = ee_init m,
     colors = \<lparr>default_bank_inactive = replicate (2 * BANK_BYTES) 0,
               default_bank_active = replicate (2 * BANK_BYTES) 0\<rparr>,
     led = led_init, anim = anim_init, balls = ball_init, g_display_buffer = replicate (64 * 3) 0,
     watchdog_flag = False\<rparr>"

lemma colors_wf_dev_init [simp]: "colors_wf (colors (dev_init m u))"
  by (simp add: dev_init_def colors_wf_def)

text \<open>A device with a current EEPROM layout and a listening host, for the examples.\<close>

definition dev_example :: dev where
  "dev_example = dev_init (\<lambda>_. 1) (usb_example\<lparr>host_waits := []\<rparr>)"

lemma colors_wf_dev_example [simp]: "colors_wf (colors dev_example)"
  by (simp add: dev_example_def)

end
