(* ===== verification/Mf_Eeprom.thy ===== *)
theory Mf_Eeprom
  imports Mf_State
begin

unbundle bit_operations_syntax

text \<open>
  Persistent settings, \<^verbatim>\<open>eeprom.c\<close>: byte access to the EEPROM, reading the settings and the
  key colours at start-up, writing them back, and the factory reset.  A write is complete
  when \<^verbatim>\<open>eeprom_write\<close> returns in the model; the busy-wait on the previous write and the
  interrupt lock around the strobe have no other effect.
\<close>

section \<open>Byte access\<close>

definition eeprom_write :: "u16 \<Rightarrow> u8 \<Rightarrow> dev \<Rightarrow> dev" where
  "eeprom_write address data d =
     d\<lparr>ee := (ee d)\<lparr>eeprom_mem := (eeprom_mem (ee d))(unat (address AND 0x0FFF) := data)\<rparr>\<rparr>"

definition eeprom_read :: "u16 \<Rightarrow> dev \<Rightarrow> u8" where
  "eeprom_read address d = eeprom_mem (ee d) (unat address)"

definition EEPROM_LAYOUT :: u8 where "EEPROM_LAYOUT = 1"
definition EE_EEPROM_VERSION :: u16 where "EE_EEPROM_VERSION = 0x0000"
definition EE_FIRST_BOOT_CHECK :: u16 where "EE_FIRST_BOOT_CHECK = 0x0001"
definition EE_MIDI_CHANNEL :: u16 where "EE_MIDI_CHANNEL = 0x0002"
definition EE_MIDI_VELOCITY :: u16 where "EE_MIDI_VELOCITY = 0x0003"
definition EE_FOUR_BANKS_MODE :: u16 where "EE_FOUR_BANKS_MODE = 0x0005"
definition EE_MIDI_OUTPUT_MODE :: u16 where "EE_MIDI_OUTPUT_MODE = 0x0009"
definition EE_COMBOS_ENABLE :: u16 where "EE_COMBOS_ENABLE = 0x000A"
definition EE_TILT_MODE :: u16 where "EE_TILT_MODE = 0x000C"
definition EE_TILT_MASK :: u16 where "EE_TILT_MASK = 0x000D"
definition EE_ANIMATIONS :: u16 where "EE_ANIMATIONS = 0x000E"
definition EE_TILT_SENSITIVITY :: u16 where "EE_TILT_SENSITIVITY = 0x000F"
definition EE_PITCH_SENSITIVITY :: u16 where "EE_PITCH_SENSITIVITY = 0x0010"
definition EE_TILT_RANGE :: u16 where "EE_TILT_RANGE = 0x0011"
definition EE_PITCH_RANGE :: u16 where "EE_PITCH_RANGE = 0x0012"
definition EE_TILT_DEADZONE :: u16 where "EE_TILT_DEADZONE = 0x0013"
definition EE_PITCH_DEADZONE :: u16 where "EE_PITCH_DEADZONE = 0x0014"
definition EE_TILT_AXIS :: u16 where "EE_TILT_AXIS = 0x0015"
definition EE_PICK_SENSITIVITY :: u16 where "EE_PICK_SENSITIVITY = 0x0016"
definition EE_SLEEP_TIME :: u16 where "EE_SLEEP_TIME = 0x0017"
definition EE_SIDE_BANK :: u16 where "EE_SIDE_BANK = 0x0018"
definition EE_COLORS_IDLE :: u16 where "EE_COLORS_IDLE = 0x006F"
definition EE_COLORS_ACTIVE :: u16 where "EE_COLORS_ACTIVE = 0x01EF"

lemmas ee_addresses = EE_EEPROM_VERSION_def EE_FIRST_BOOT_CHECK_def EE_MIDI_CHANNEL_def
  EE_MIDI_VELOCITY_def EE_FOUR_BANKS_MODE_def EE_MIDI_OUTPUT_MODE_def EE_COMBOS_ENABLE_def
  EE_TILT_MODE_def EE_TILT_MASK_def EE_ANIMATIONS_def EE_TILT_SENSITIVITY_def
  EE_PITCH_SENSITIVITY_def EE_TILT_RANGE_def EE_PITCH_RANGE_def EE_TILT_DEADZONE_def
  EE_PITCH_DEADZONE_def EE_TILT_AXIS_def EE_PICK_SENSITIVITY_def EE_SLEEP_TIME_def EE_SIDE_BANK_def

section \<open>Saving\<close>

text \<open>The settings that are saved, in the order of the writes.\<close>

definition setting_cells :: "dev \<Rightarrow> (u16 \<times> u8) list" where
  "setting_cells d =
     [(EE_MIDI_CHANNEL, G_EE_MIDI_CHANNEL (midi d)),
      (EE_MIDI_VELOCITY, G_EE_MIDI_VELOCITY (midi d)),
      (EE_COMBOS_ENABLE, G_EE_COMBOS_ENABLE (ee d)),
      (EE_MIDI_OUTPUT_MODE, G_EE_MIDI_OUTPUT_MODE (ee d)),
      (EE_FOUR_BANKS_MODE, G_EE_FOUR_BANKS_MODE (ee d)),
      (EE_TILT_MODE, G_EE_TILT_MODE (ee d)),
      (EE_TILT_MASK, G_EE_TILT_MASK (ee d)),
      (EE_ANIMATIONS, G_EE_ANIMATIONS (ee d)),
      (EE_TILT_SENSITIVITY, G_EE_TILT_SENSITIVITY (ee d)),
      (EE_PITCH_SENSITIVITY, G_EE_PITCH_SENSITIVITY (ee d)),
      (EE_TILT_RANGE, G_EE_TILT_RANGE (ee d)),
      (EE_PITCH_RANGE, G_EE_PITCH_RANGE (ee d)),
      (EE_TILT_DEADZONE, G_EE_TILT_DEADZONE (ee d)),
      (EE_PITCH_DEADZONE, G_EE_PITCH_DEADZONE (ee d)),
      (EE_TILT_AXIS, G_EE_TILT_AXIS (ee d)),
      (EE_PICK_SENSITIVITY, G_EE_PICK_SENSITIVITY (ee d)),
      (EE_SLEEP_TIME, G_EE_SLEEP_TIME (ee d)),
      (EE_SIDE_BANK, G_EE_SIDE_BANK (ee d))]"

text \<open>One of the two inner loops: 192 colour bytes of a bank to consecutive cells.\<close>

definition save_colors :: "u16 \<Rightarrow> (dev \<Rightarrow> u8 list) \<Rightarrow> nat \<Rightarrow> dev \<Rightarrow> dev run" where
  "save_colors base arr bank = for_run (\<lambda>i d.
     andthen (load (arr d) (bank_index bank i)) (\<lambda>v.
       Inr (eeprom_write (base + 64 * 3 * of_nat bank + of_nat i) v d))) [0..<64 * 3]"

definition eeprom_save_edits :: "dev \<Rightarrow> dev run" where
  "eeprom_save_edits d =
     for_run (\<lambda>bank d.
         andthen (save_colors EE_COLORS_IDLE (\<lambda>d. default_bank_inactive (colors d)) bank d)
           (save_colors EE_COLORS_ACTIVE (\<lambda>d. default_bank_active (colors d)) bank))
       [0..<NUM_BANKS]
       (fold (\<lambda>(a, v). eeprom_write a v) (setting_cells d) d)"

section \<open>Factory reset and start-up\<close>

definition GEOMETRIC_ANIMATION_TYPES :: u8 where "GEOMETRIC_ANIMATION_TYPES = 4"
definition MIDI_OUTPUT_MODE_NOTES_ONLY :: u8 where "MIDI_OUTPUT_MODE_NOTES_ONLY = 0"
definition MIDI_OUTPUT_MODE_CCS_ONLY :: u8 where "MIDI_OUTPUT_MODE_CCS_ONLY = 2"

definition factory_settings :: "dev \<Rightarrow> dev" where
  "factory_settings d = d\<lparr>
     midi := (midi d)\<lparr>G_EE_MIDI_CHANNEL := 2, G_EE_MIDI_VELOCITY := 127\<rparr>,
     ee := (ee d)\<lparr>g_self_test_passed := 0xFF, G_EE_COMBOS_ENABLE := 1,
       G_EE_MIDI_OUTPUT_MODE := MIDI_OUTPUT_MODE_NOTES_ONLY, G_EE_FOUR_BANKS_MODE := 0,
       G_EE_TILT_MODE := 2, G_EE_TILT_MASK := 0xF1, G_EE_ANIMATIONS := GEOMETRIC_ANIMATION_TYPES,
       G_EE_TILT_SENSITIVITY := 0x1E, G_EE_PITCH_SENSITIVITY := 0x7F, G_EE_TILT_RANGE := 0x46,
       G_EE_PITCH_RANGE := 0x3C, G_EE_TILT_DEADZONE := 0x0C, G_EE_PITCH_DEADZONE := 0x7F,
       G_EE_TILT_AXIS := 0, G_EE_PICK_SENSITIVITY := 0x40, G_EE_SIDE_BANK := 0,
       G_EE_SLEEP_TIME := 0x3C\<rparr>\<rparr>"

definition eeprom_factory_reset :: "dev \<Rightarrow> dev run" where
  "eeprom_factory_reset d =
     (let d = factory_settings (eeprom_write EE_EEPROM_VERSION EEPROM_LAYOUT d)
      in andthen (load_default_colors (colors d)) (\<lambda>c. eeprom_save_edits (d\<lparr>colors := c\<rparr>)))"

definition read_settings :: "dev \<Rightarrow> dev" where
  "read_settings d = d\<lparr>
     midi := (midi d)\<lparr>G_EE_MIDI_CHANNEL := eeprom_read EE_MIDI_CHANNEL d,
       G_EE_MIDI_VELOCITY := eeprom_read EE_MIDI_VELOCITY d\<rparr>,
     ee := (ee d)\<lparr>g_self_test_passed := eeprom_read EE_FIRST_BOOT_CHECK d,
       G_EE_COMBOS_ENABLE := eeprom_read EE_COMBOS_ENABLE d,
       G_EE_MIDI_OUTPUT_MODE := eeprom_read EE_MIDI_OUTPUT_MODE d,
       G_EE_FOUR_BANKS_MODE := eeprom_read EE_FOUR_BANKS_MODE d,
       G_EE_TILT_MODE := eeprom_read EE_TILT_MODE d,
       G_EE_TILT_MASK := eeprom_read EE_TILT_MASK d,
       G_EE_ANIMATIONS := eeprom_read EE_ANIMATIONS d,
       G_EE_TILT_SENSITIVITY := eeprom_read EE_TILT_SENSITIVITY d,
       G_EE_PITCH_SENSITIVITY := eeprom_read EE_PITCH_SENSITIVITY d,
       G_EE_TILT_RANGE := eeprom_read EE_TILT_RANGE d,
       G_EE_PITCH_RANGE := eeprom_read EE_PITCH_RANGE d,
       G_EE_TILT_DEADZONE := eeprom_read EE_TILT_DEADZONE d,
       G_EE_PITCH_DEADZONE := eeprom_read EE_PITCH_DEADZONE d,
       G_EE_TILT_AXIS := eeprom_read EE_TILT_AXIS d,
       G_EE_SIDE_BANK := eeprom_read EE_SIDE_BANK d,
       G_EE_PICK_SENSITIVITY := eeprom_read EE_PICK_SENSITIVITY d,
       G_EE_SLEEP_TIME := eeprom_read EE_SLEEP_TIME d\<rparr>\<rparr>"

definition read_bank_colors :: "nat \<Rightarrow> dev \<Rightarrow> dev run" where
  "read_bank_colors bank d =
     andthen (for_run (\<lambda>i xs. store xs (bank_index bank i)
         (eeprom_read (EE_COLORS_IDLE + of_nat (64 * 3 * bank) + of_nat i) d))
       [0..<64 * 3] (default_bank_inactive (colors d))) (\<lambda>ina.
     andthen (for_run (\<lambda>i xs. store xs (bank_index bank i)
         (eeprom_read (EE_COLORS_ACTIVE + of_nat (64 * 3 * bank) + of_nat i) d))
       [0..<64 * 3] (default_bank_active (colors d))) (\<lambda>act.
     Inr (d\<lparr>colors := (colors d)\<lparr>default_bank_inactive := ina, default_bank_active := act\<rparr>\<rparr>)))"

definition eeprom_setup :: "dev \<Rightarrow> dev run" where
  "eeprom_setup d =
     andthen (if eeprom_read EE_EEPROM_VERSION d \<noteq> EEPROM_LAYOUT then eeprom_factory_reset d else Inr d)
       (\<lambda>d. for_run read_bank_colors [0..<NUM_BANKS] (read_settings d))"

section \<open>The memory after a save\<close>

definition set_mem :: "(nat \<Rightarrow> u8) \<Rightarrow> dev \<Rightarrow> dev" where
  "set_mem m d = d\<lparr>ee := (ee d)\<lparr>eeprom_mem := m\<rparr>\<rparr>"

definition block :: "(nat \<Rightarrow> u8) \<Rightarrow> nat \<Rightarrow> u8 list \<Rightarrow> nat \<Rightarrow> u8" where
  "block m base xs = (\<lambda>a. if base \<le> a \<and> a < base + length xs then xs ! (a - base) else m a)"

lemma set_mem_simps [simp]:
  "eeprom_mem (ee (set_mem m d)) = m" "colors (set_mem m d) = colors d" "midi (set_mem m d) = midi d"
  "set_mem m (set_mem m' d) = set_mem m d" "set_mem (eeprom_mem (ee d)) d = d"
  by (simp_all add: set_mem_def)

lemma unat_address:
  assumes "n < 4096"
  shows "unat (of_nat n AND 0x0FFF :: u16) = n"
proof -
  have "unat (of_nat n AND 0x0FFF :: u16) = n AND 4095"
    using assms by (simp add: unsigned_and_eq unat_of_nat)
  also have "\<dots> = take_bit 12 n" by (simp add: take_bit_eq_mask mask_eq_exp_minus_1)
  also have "\<dots> = n" using assms by (simp add: take_bit_nat_eq_self)
  finally show ?thesis .
qed

lemma eeprom_write_set_mem:
  "n < 4096 \<Longrightarrow> eeprom_write (of_nat n) v d = set_mem ((eeprom_mem (ee d))(n := v)) d"
  by (simp add: eeprom_write_def set_mem_def unat_address)

lemma block_Nil [simp]: "block m base [] = m"
  by (auto simp: block_def fun_eq_iff)

lemma block_snoc: "block m base (xs @ [x]) = (block m base xs)(base + length xs := x)"
  by (auto simp: block_def fun_eq_iff nth_append)

lemma save_colors_spec:
  assumes "\<And>m. arr (set_mem m d) = arr d" "bank_index (Suc bank) 0 \<le> length (arr d)"
    and "unat base + 64 * 3 * Suc bank \<le> 4096"
  shows "save_colors base arr bank d = Inr (set_mem (block (eeprom_mem (ee d))
     (unat base + 64 * 3 * bank) (take 192 (drop (bank_index bank 0) (arr d)))) d)"
proof -
  let ?xs = "drop (bank_index bank 0) (arr d)" and ?m = "eeprom_mem (ee d)" and ?b = "unat base + 64 * 3 * bank"
  let ?f = "\<lambda>i d. andthen (load (arr d) (bank_index bank i)) (\<lambda>v.
     Inr (eeprom_write (base + 64 * 3 * of_nat bank + of_nat i) v d))"
  have "\<exists>t. for_run ?f [0..<64 * 3] d = Inr t \<and> t = set_mem (block ?m ?b (take (64 * 3) ?xs)) d"
  proof (rule for_run_upt [where Q = "\<lambda>i t. t = set_mem (block ?m ?b (take i ?xs)) d"])
    show "d = set_mem (block ?m ?b (take 0 ?xs)) d" by simp
    fix i t assume i: "i < 64 * 3" and t: "t = set_mem (block ?m ?b (take i ?xs)) d"
    have len: "bank_index bank i < length (arr d)" "i < length ?xs"
      using i assms(2) by (simp_all add: bank_index_def BANK_BYTES_def)
    have addr: "base + 64 * 3 * of_nat bank + of_nat i = (of_nat (?b + i) :: u16)" by simp
    have "take (Suc i) ?xs = take i ?xs @ [arr d ! bank_index bank i]"
      using len by (simp add: take_Suc_conv_app_nth bank_index_def)
    then show "\<exists>s'. ?f i t = Inr s' \<and> s' = set_mem (block ?m ?b (take (Suc i) ?xs)) d"
      using len i assms(3) unfolding addr t
      by (simp add: assms(1) eeprom_write_set_mem block_snoc del: of_nat_add of_nat_mult)
  qed
  then show ?thesis by (simp add: save_colors_def)
qed

definition setting_mem :: "dev \<Rightarrow> nat \<Rightarrow> u8" where
  "setting_mem d = fold (\<lambda>(a, v) m. m(unat a := v)) (setting_cells d) (eeprom_mem (ee d))"

lemma fold_eeprom_write:
  "\<forall>(a, v) \<in> set cells. unat a < 4096 \<Longrightarrow>
   fold (\<lambda>(a, v). eeprom_write a v) cells d
     = set_mem (fold (\<lambda>(a, v) m. m(unat a := v)) cells (eeprom_mem (ee d))) d"
proof (induction cells arbitrary: d)
  case (Cons c cells)
  obtain a v where c: "c = (a, v)" by (cases c)
  have "eeprom_write a v d = set_mem ((eeprom_mem (ee d))(unat a := v)) d"
    using Cons.prems c eeprom_write_set_mem [of "unat a" v d] by simp
  with Cons c show ?case by (simp add: fun_upd_def)
qed simp

lemma save_settings: "fold (\<lambda>(a, v). eeprom_write a v) (setting_cells d) d = set_mem (setting_mem d) d"
  unfolding setting_mem_def
  by (rule fold_eeprom_write) (simp add: setting_cells_def ee_addresses)

text \<open>The four blocks of colour bytes on top of the settings.\<close>

definition saved_mem :: "dev \<Rightarrow> nat \<Rightarrow> u8" where
  "saved_mem d = (let ina = default_bank_inactive (colors d); act = default_bank_active (colors d) in
     block (block (block (block (setting_mem d) 0x6F (take 192 ina)) 0x1EF (take 192 act))
       (0x6F + 192) (drop 192 ina)) (0x1EF + 192) (drop 192 act))"

lemma eeprom_save_edits_spec:
  assumes "colors_wf (colors d)"
  shows "eeprom_save_edits d = Inr (set_mem (saved_mem d) d)"
proof -
  have "[0..<NUM_BANKS] = [0, Suc 0]" by (simp add: NUM_BANKS_def upt_rec)
  then show ?thesis using assms
    by (simp add: eeprom_save_edits_def save_settings save_colors_spec saved_mem_def EE_COLORS_IDLE_def
        EE_COLORS_ACTIVE_def colors_wf_def bank_index_def BANK_BYTES_def Let_def)
qed

section \<open>Reading back\<close>

definition stored :: "(nat \<Rightarrow> u8) \<Rightarrow> nat \<Rightarrow> nat \<Rightarrow> u8 list" where
  "stored m base n = map (\<lambda>i. m (base + i)) [0..<n]"

lemma length_stored [simp]: "length (stored m base n) = n"
  by (simp add: stored_def)

lemma stored_append: "stored m base (n + k) = stored m base n @ stored m (base + n) k"
  by (rule nth_equalityI) (auto simp: stored_def nth_append)

lemma stored_block:
  "base \<le> b \<Longrightarrow> b + n \<le> base + length xs \<Longrightarrow>
   stored (block m base xs) b n = take n (drop (b - base) xs)"
  by (rule nth_equalityI) (auto simp: stored_def block_def add.commute)

lemma stored_block_other:
  "b + n \<le> base \<or> base + length xs \<le> b \<Longrightarrow> stored (block m base xs) b n = stored m b n"
  by (auto simp: stored_def block_def)

lemma unat_color_address:
  assumes "unat base + 192 * bank + i < 65536"
  shows "unat (base + of_nat (64 * 3 * bank) + of_nat i :: u16) = unat base + 192 * bank + i"
proof -
  have "base + of_nat (64 * 3 * bank) + of_nat i = (of_nat (unat base + 192 * bank + i) :: u16)"
    by simp
  then show ?thesis using assms by (simp add: unat_of_nat del: of_nat_add of_nat_mult)
qed

lemma read_colors_loop:
  assumes "bank < 2" "length xs = 384" "unat base \<le> 0x1EF"
  shows "for_run (\<lambda>i xs. store xs (bank_index bank i)
         (eeprom_read (base + of_nat (64 * 3 * bank) + of_nat i) d)) [0..<64 * 3] xs
     = Inr (take (192 * bank) xs @ stored (eeprom_mem (ee d)) (unat base + 192 * bank) 192
            @ drop (192 * bank + 192) xs)"
proof -
  have "for_run (\<lambda>i xs. store xs (192 * bank + i)
         (eeprom_read (base + of_nat (64 * 3 * bank) + of_nat i) d)) [0..<192] xs
     = Inr (take (192 * bank) xs @ map (\<lambda>i. eeprom_read (base + of_nat (64 * 3 * bank) + of_nat i) d) [0..<192]
            @ drop (192 * bank + 192) xs)"
    using assms by (intro for_run_store_block) simp
  moreover have "eeprom_read (base + of_nat (64 * 3 * bank) + of_nat i) d
      = eeprom_mem (ee d) (unat base + 192 * bank + i)" if "i < 192" for i
    unfolding eeprom_read_def using assms that by (subst unat_color_address) simp_all
  then have "map (\<lambda>i. eeprom_read (base + of_nat (64 * 3 * bank) + of_nat i) d) [0..<192]
      = stored (eeprom_mem (ee d)) (unat base + 192 * bank) 192"
    unfolding stored_def by (intro map_cong refl) simp
  ultimately show ?thesis by (simp add: bank_index_def BANK_BYTES_def)
qed

lemma read_bank_colors_spec:
  assumes "bank < 2" "colors_wf (colors d)"
  shows "read_bank_colors bank d = Inr (d\<lparr>colors := (colors d)\<lparr>
     default_bank_inactive := take (192 * bank) (default_bank_inactive (colors d))
       @ stored (eeprom_mem (ee d)) (0x6F + 192 * bank) 192
       @ drop (192 * bank + 192) (default_bank_inactive (colors d)),
     default_bank_active := take (192 * bank) (default_bank_active (colors d))
       @ stored (eeprom_mem (ee d)) (0x1EF + 192 * bank) 192
       @ drop (192 * bank + 192) (default_bank_active (colors d))\<rparr>\<rparr>)"
  using assms read_colors_loop [OF assms(1), of "default_bank_inactive (colors d)" EE_COLORS_IDLE d]
    read_colors_loop [OF assms(1), of "default_bank_active (colors d)" EE_COLORS_ACTIVE d]
  by (simp add: read_bank_colors_def colors_wf_def BANK_BYTES_def EE_COLORS_IDLE_def
      EE_COLORS_ACTIVE_def)

text \<open>Start-up with a current layout, in one step.\<close>

lemma eeprom_setup_loads:
  assumes "colors_wf (colors d)" "eeprom_read EE_EEPROM_VERSION d = EEPROM_LAYOUT"
  shows "eeprom_setup d = Inr ((read_settings d)\<lparr>colors :=
     (colors d)\<lparr>default_bank_inactive := stored (eeprom_mem (ee d)) 0x6F 384,
                default_bank_active := stored (eeprom_mem (ee d)) 0x1EF 384\<rparr>\<rparr>)"
proof -
  have upt: "[0..<NUM_BANKS] = [0, Suc 0]" by (simp add: NUM_BANKS_def upt_rec)
  have rs: "colors (read_settings d) = colors d"
    "eeprom_mem (ee (read_settings d)) = eeprom_mem (ee d)" by (simp_all add: read_settings_def)
  note split = stored_append [of _ _ 192 192, simplified]
  show ?thesis using assms unfolding eeprom_setup_def upt
    by (simp add: read_bank_colors_spec rs colors_wf_def BANK_BYTES_def split)
qed

lemma setting_mem_other:
  "0x6F \<le> a \<or> a < 2 \<Longrightarrow> setting_mem d a = eeprom_mem (ee d) a"
  by (auto simp: setting_mem_def setting_cells_def ee_addresses)

lemma saved_mem_low: "a < 0x6F \<Longrightarrow> saved_mem d a = setting_mem d a"
  by (simp add: saved_mem_def Let_def block_def)

lemma saved_mem_colors:
  assumes "colors_wf (colors d)"
  shows "stored (saved_mem d) 0x6F 384 = default_bank_inactive (colors d)"
    and "stored (saved_mem d) 0x1EF 384 = default_bank_active (colors d)"
  using assms stored_append [of _ _ 192 192, simplified]
  by (simp_all add: saved_mem_def Let_def stored_block stored_block_other colors_wf_def BANK_BYTES_def)

lemma read_settings_cells:
  assumes "eeprom_mem (ee d2) = saved_mem d"
  shows "setting_cells (read_settings d2) = setting_cells d"
  using assms
  by (simp add: setting_cells_def read_settings_def eeprom_read_def saved_mem_low setting_mem_def
      ee_addresses)

section \<open>Properties\<close>





end
