(* ===== verification/Mf_Geometric.thy ===== *)
theory Mf_Geometric
  imports Mf_State
begin

unbundle bit_operations_syntax

text \<open>
  The geometric animations of \<^verbatim>\<open>display.c\<close>: four slots, each running a square, circle, star or
  triangle that grows from a key over the 8 x 8 grid of LEDs.  The display buffer holds three
  bytes per key, in the order blue, red, green.
\<close>

section \<open>Grid geometry\<close>

definition GEOMETRIC_ANIMATION_ROWS :: u8 where "GEOMETRIC_ANIMATION_ROWS = 8"
definition GEOMETRIC_ANIMATION_COLS :: u8 where "GEOMETRIC_ANIMATION_COLS = 8"
definition GEOMETRIC_ANIMATION_G_LED_IDX :: nat where "GEOMETRIC_ANIMATION_G_LED_IDX = 3"
definition GEOMETRIC_ANIMATION_G_LED_LIMIT :: u16 where "GEOMETRIC_ANIMATION_G_LED_LIMIT = 0x70"
definition GEOMETRIC_ANIMATION_TYPE_SQUARE :: u8 where "GEOMETRIC_ANIMATION_TYPE_SQUARE = 0"
definition GEOMETRIC_ANIMATION_TYPE_CIRCLE :: u8 where "GEOMETRIC_ANIMATION_TYPE_CIRCLE = 1"
definition GEOMETRIC_ANIMATION_TYPE_STAR :: u8 where "GEOMETRIC_ANIMATION_TYPE_STAR = 2"
definition GEOMETRIC_ANIMATION_TYPE_TRIANGLE :: u8 where "GEOMETRIC_ANIMATION_TYPE_TRIANGLE = 3"
definition GEOMETRIC_ANIMATION_STEPS_CIRCLE :: u8 where "GEOMETRIC_ANIMATION_STEPS_CIRCLE = 14"
definition GEOMETRIC_ANIMATION_STEPS_STAR :: u8 where "GEOMETRIC_ANIMATION_STEPS_STAR = 11"
definition GEOMETRIC_ANIMATION_STEPS_TRIANGLE :: u8 where "GEOMETRIC_ANIMATION_STEPS_TRIANGLE = 15"
definition GEOMETRIC_STAR_MAX_TAIL_LENGTH :: u8 where "GEOMETRIC_STAR_MAX_TAIL_LENGTH = 3"

lemmas geo_consts = GEOMETRIC_ANIMATION_ROWS_def GEOMETRIC_ANIMATION_COLS_def
  GEOMETRIC_ANIMATION_TYPE_SQUARE_def GEOMETRIC_ANIMATION_TYPE_CIRCLE_def
  GEOMETRIC_ANIMATION_TYPE_STAR_def GEOMETRIC_ANIMATION_TYPE_TRIANGLE_def
  GEOMETRIC_ANIMATION_STEPS_SQUARE_def GEOMETRIC_ANIMATION_STEPS_CIRCLE_def
  GEOMETRIC_ANIMATION_STEPS_STAR_def GEOMETRIC_ANIMATION_STEPS_TRIANGLE_def

definition get_geometric_button_row :: "u8 \<Rightarrow> u8" where
  "get_geometric_button_row btn_id = drop_bit 2 btn_id AND 0x07"

definition get_geometric_button_column :: "u8 \<Rightarrow> u8" where
  "get_geometric_button_column btn_id =
     (let this_column = btn_id AND 0x03 in if btn_id \<ge> 32 then this_column + 4 else this_column)"

definition get_button_id_from_row_column :: "u8 \<Rightarrow> u8 \<Rightarrow> u8" where
  "get_button_id_from_row_column button_row button_column =
     (if button_row \<ge> GEOMETRIC_ANIMATION_ROWS then 0xFF
      else if button_column \<ge> GEOMETRIC_ANIMATION_COLS then 0xFF
      else let button_id = button_row * 4
           in if button_column < 4 then button_id + button_column
              else button_id + (button_column AND 0x03) + 32)"

section \<open>Drawing\<close>

text \<open>The three bytes behind the colour pointer of a slot.\<close>

definition src_color :: "color_ptr \<Rightarrow> color_globals \<Rightarrow> (u8 \<times> u8 \<times> u8) run" where
  "src_color src c = (case src of
      No_Color \<Rightarrow> Inl Null_Pointer
    | Bank_Active off \<Rightarrow> load3 (default_bank_active c) off
    | Default_Color ci \<Rightarrow> load3 default_color (3 * ci))"

definition draw_button :: "color_ptr \<Rightarrow> color_globals \<Rightarrow> u8 \<Rightarrow> u8 list \<Rightarrow> u8 list run" where
  "draw_button src c btn_id buffer =
     andthen (src_color src c) (\<lambda>(r, g, b). store3 buffer (unat (btn_id * 3)) (b, r, g))"

definition draw_cell :: "color_ptr \<Rightarrow> color_globals \<Rightarrow> u8 \<Rightarrow> u8 \<Rightarrow> u8 list \<Rightarrow> u8 list run" where
  "draw_cell src c row col = draw_button src c (get_button_id_from_row_column row col)"

text \<open>The values of \<^verbatim>\<open>for (uint8_t i = a; i <= b; i++)\<close> for a bound below 255.\<close>

definition u8_range :: "u8 \<Rightarrow> u8 \<Rightarrow> u8 list" where
  "u8_range a b = map of_nat [unat a..<Suc (unat b)]"

definition first_in_grid :: "u8 \<Rightarrow> u8 \<Rightarrow> u8" where
  "first_in_grid limit lo = (if lo < limit then lo else 0)"

definition last_in_grid :: "u8 \<Rightarrow> u8 \<Rightarrow> u8" where
  "last_in_grid limit hi = (if hi < limit then hi else limit - 1)"

definition draw_grid :: "color_ptr \<Rightarrow> color_globals \<Rightarrow> u8 list \<Rightarrow> u8 list \<Rightarrow> (u8 \<Rightarrow> u8 \<Rightarrow> bool)
    \<Rightarrow> u8 list \<Rightarrow> u8 list run" where
  "draw_grid src c rows cols light =
     for_run (\<lambda>this_row. for_run (\<lambda>this_col buffer.
       if light this_row this_col then draw_cell src c this_row this_col buffer else Inr buffer) cols) rows"

definition draw_square :: "u8 \<Rightarrow> u8 \<Rightarrow> color_ptr \<Rightarrow> color_globals \<Rightarrow> u8 list \<Rightarrow> u8 list run" where
  "draw_square pos btn_id src c =
     (let btn_row = get_geometric_button_row btn_id;
          btn_col = get_geometric_button_column btn_id;
          min_row = btn_row - pos; max_row = btn_row + pos;
          min_col = btn_col - pos; max_col = btn_col + pos
      in draw_grid src c
           (u8_range (first_in_grid GEOMETRIC_ANIMATION_ROWS min_row)
                     (last_in_grid GEOMETRIC_ANIMATION_ROWS max_row))
           (u8_range (first_in_grid GEOMETRIC_ANIMATION_COLS min_col)
                     (last_in_grid GEOMETRIC_ANIMATION_COLS max_col))
           (\<lambda>this_row this_col. this_row = min_row \<or> this_row = max_row
              \<or> this_col = min_col \<or> this_col = max_col))"

definition get_distance_from_center_in_steps :: "u8 \<Rightarrow> u8 \<Rightarrow> u8 \<Rightarrow> u8 \<Rightarrow> u8" where
  "get_distance_from_center_in_steps btn_row btn_col this_row this_col =
     (let row_distance = (if btn_row > this_row then btn_row - this_row else this_row - btn_row);
          col_distance = (if btn_col > this_col then btn_col - this_col else this_col - btn_col)
      in row_distance + col_distance)"

definition draw_circle :: "u8 \<Rightarrow> u8 \<Rightarrow> color_ptr \<Rightarrow> color_globals \<Rightarrow> u8 list \<Rightarrow> u8 list run" where
  "draw_circle pos btn_id src c =
     (let btn_row = get_geometric_button_row btn_id;
          btn_col = get_geometric_button_column btn_id;
          min_row = btn_row - pos; max_row = btn_row + pos;
          min_col = btn_col - pos; max_col = btn_col + pos;
          circle_incrementer = drop_bit 1 pos;
          circle_incrementer = (if circle_incrementer \<le> 3 then circle_incrementer else 3);
          minimum_distance_steps = pos;
          maximum_distance_steps = (if pos = 1 then minimum_distance_steps
                                    else minimum_distance_steps + circle_incrementer)
      in draw_grid src c
           (u8_range (first_in_grid GEOMETRIC_ANIMATION_ROWS min_row)
                     (last_in_grid GEOMETRIC_ANIMATION_ROWS max_row))
           (u8_range (first_in_grid GEOMETRIC_ANIMATION_COLS min_col)
                     (last_in_grid GEOMETRIC_ANIMATION_COLS max_col))
           (\<lambda>this_row this_col.
              let distance_in_steps = get_distance_from_center_in_steps btn_row btn_col this_row this_col
              in if distance_in_steps < minimum_distance_steps then False
                 else if distance_in_steps = minimum_distance_steps
                 then this_row = min_row \<or> this_row = max_row \<or> this_col = min_col \<or> this_col = max_col
                 else distance_in_steps \<le> maximum_distance_steps))"

definition draw_cell_if :: "color_ptr \<Rightarrow> color_globals \<Rightarrow> u8 \<times> u8 \<Rightarrow> u8 list \<Rightarrow> u8 list run" where
  "draw_cell_if src c cell buffer = (case cell of (row, col) \<Rightarrow>
     (let btn_id = get_button_id_from_row_column row col
      in if btn_id < 64 then draw_button src c btn_id buffer else Inr buffer))"

definition star_arms :: "u8 \<Rightarrow> u8 \<Rightarrow> u8 \<Rightarrow> u8 \<Rightarrow> (u8 \<times> u8) list" where
  "star_arms btn_row btn_col pos tail_position =
     (let min_row = btn_row - pos; max_row = btn_row + pos;
          min_col = btn_col - pos; max_col = btn_col + pos
      in [(max_row - tail_position, btn_col), (min_row + tail_position, btn_col),
          (max_row - tail_position, min_col + tail_position),
          (max_row - tail_position, max_col - tail_position),
          (min_row + tail_position, min_col + tail_position),
          (min_row + tail_position, max_col - tail_position),
          (btn_row, min_col + tail_position), (btn_row, max_col - tail_position)])"

text \<open>The while loop runs once for each tail position below both the counter and the tail length.\<close>

definition draw_star :: "u8 \<Rightarrow> u8 \<Rightarrow> color_ptr \<Rightarrow> color_globals \<Rightarrow> u8 list \<Rightarrow> u8 list run" where
  "draw_star pos btn_id src c =
     (let btn_row = get_geometric_button_row btn_id;
          btn_col = get_geometric_button_column btn_id
      in for_run (\<lambda>tail_position. for_run (draw_cell_if src c)
             (star_arms btn_row btn_col pos (of_nat tail_position)))
           [0..<min (unat pos) (unat GEOMETRIC_STAR_MAX_TAIL_LENGTH)])"

definition draw_triangle :: "u8 \<Rightarrow> u8 \<Rightarrow> color_ptr \<Rightarrow> color_globals \<Rightarrow> u8 list \<Rightarrow> u8 list run" where
  "draw_triangle pos btn_id src c buffer =
     (let btn_row = get_geometric_button_row btn_id;
          btn_col = get_geometric_button_column btn_id;
          min_row = btn_row - (pos - 1); max_row = btn_row + pos;
          min_col = btn_col - (1 + (pos - 1) * 2); max_col = btn_col + (1 + (pos - 1) * 2);
          start_col = first_in_grid GEOMETRIC_ANIMATION_COLS min_col; end_col = last_in_grid GEOMETRIC_ANIMATION_COLS max_col;
          start_row = first_in_grid GEOMETRIC_ANIMATION_ROWS min_row; end_row = last_in_grid GEOMETRIC_ANIMATION_ROWS max_row
      in andthen (if start_row = min_row
                  then for_run (\<lambda>this_col. draw_cell src c start_row this_col) (u8_range start_col end_col) buffer
                  else Inr buffer) (\<lambda>buffer.
         andthen (if end_row = max_row then draw_cell src c end_row btn_col buffer else Inr buffer) (\<lambda>buffer.
         for_run (\<lambda>this_row buffer.
             let distance_from_bottom = this_row - min_row;
                 left_col = min_col + distance_from_bottom;
                 right_col = max_col - distance_from_bottom
             in andthen (if left_col < GEOMETRIC_ANIMATION_COLS
                         then draw_cell src c this_row left_col buffer else Inr buffer) (\<lambda>buffer.
                if right_col < GEOMETRIC_ANIMATION_COLS
                then draw_cell src c this_row right_col buffer else Inr buffer))
           (u8_range start_row end_row) buffer)))"

section \<open>Running the slots\<close>

text \<open>
  The common shape of the four \<^verbatim>\<open>run_geometric_*_animation\<close> functions: step the position of
  the current slot if asked to, stop when the animation is over or only the key itself is
  lit, otherwise draw.
\<close>

definition run_geometric :: "u8 \<Rightarrow> (u8 \<Rightarrow> u8 \<Rightarrow> color_ptr \<Rightarrow> color_globals \<Rightarrow> u8 list \<Rightarrow> u8 list run)
    \<Rightarrow> bool \<Rightarrow> dev \<Rightarrow> dev run" where
  "run_geometric steps draw update_animation d =
     (let slot = geometric_animation_id (anim d)
      in andthen (load (geometric_animation_pos (anim d)) slot) (\<lambda>old.
         andthen (if update_animation
                  then andthen (store (geometric_animation_pos (anim d)) slot (old + 1)) (\<lambda>ps.
                    Inr (old + 1, d\<lparr>anim := (anim d)\<lparr>geometric_animation_pos := ps\<rparr>\<rparr>))
                  else Inr (old, d)) (\<lambda>(pos, d).
         if update_animation \<and> pos \<ge> steps then Inr d
         else if pos = 0 then Inr d
         else andthen (load (geometric_animation_btn_id (anim d)) slot) (\<lambda>btn_id.
              andthen (load (geometric_animation_color_ptr (anim d)) slot) (\<lambda>src.
              andthen (draw pos btn_id src (colors d) (g_display_buffer d)) (\<lambda>buffer.
              Inr (d\<lparr>g_display_buffer := buffer\<rparr>)))))))"

definition run_geometric_square_animation :: "bool \<Rightarrow> dev \<Rightarrow> dev run" where
  "run_geometric_square_animation = run_geometric GEOMETRIC_ANIMATION_STEPS_SQUARE draw_square"

definition run_geometric_circle_animation :: "bool \<Rightarrow> dev \<Rightarrow> dev run" where
  "run_geometric_circle_animation = run_geometric GEOMETRIC_ANIMATION_STEPS_CIRCLE draw_circle"

definition run_geometric_star_animation :: "bool \<Rightarrow> dev \<Rightarrow> dev run" where
  "run_geometric_star_animation = run_geometric GEOMETRIC_ANIMATION_STEPS_STAR draw_star"

definition run_geometric_triangle_animation :: "bool \<Rightarrow> dev \<Rightarrow> dev run" where
  "run_geometric_triangle_animation = run_geometric GEOMETRIC_ANIMATION_STEPS_TRIANGLE draw_triangle"

definition geometric_slot_state :: "bool \<Rightarrow> nat \<Rightarrow> dev \<Rightarrow> dev run" where
  "geometric_slot_state update_animation this_animation d =
     (let d = d\<lparr>anim := (anim d)\<lparr>geometric_animation_id := this_animation\<rparr>\<rparr>
      in andthen (load (geometric_animation_type (anim d)) this_animation) (\<lambda>ty.
         andthen (load (geometric_animation_pos (anim d)) this_animation) (\<lambda>pos.
         if ty < 1 then
           (if pos < GEOMETRIC_ANIMATION_STEPS_SQUARE then run_geometric_square_animation update_animation d
            else Inr d)
         else if ty < 2 then
           (if pos < GEOMETRIC_ANIMATION_STEPS_CIRCLE then run_geometric_circle_animation update_animation d
            else Inr d)
         else if ty < 3 then
           (if pos < GEOMETRIC_ANIMATION_STEPS_STAR then run_geometric_star_animation update_animation d
            else Inr d)
         else if ty < 4 then
           (if pos < GEOMETRIC_ANIMATION_STEPS_TRIANGLE then run_geometric_triangle_animation update_animation d
            else Inr d)
         else Inr d)))"

definition geometric_animation_state :: "dev \<Rightarrow> dev run" where
  "geometric_animation_state d =
     andthen (load (g_led_counter (led d)) 1) (\<lambda>counter.
     andthen (if counter = 0
              then andthen (store (g_led_counter (led d)) 1 GEOMETRIC_ANIMATION_G_LED_LIMIT) (\<lambda>cs.
                Inr (True, d\<lparr>led := (led d)\<lparr>g_led_counter := cs\<rparr>\<rparr>))
              else Inr (False, d)) (\<lambda>(update_animation, d).
     for_run (geometric_slot_state update_animation) [0..<CONCURRENT_GEOMETRIC_ANIMATIONS] d))"

section \<open>Starting an animation\<close>

definition set_geometric_animation_color_source :: "u8 \<Rightarrow> dev \<Rightarrow> dev run" where
  "set_geometric_animation_color_source button_id d =
     (let bank = unat (g_bank_selected (midi d)); slot = assign_geometric_animation_id (anim d)
      in andthen (load (g_midi_note_state (midi d)) (unat button_id + NUM_BUTTONS * bank)) (\<lambda>velocity.
         let src = (if velocity = 0 \<or> velocity \<ge> 121
                    then Bank_Active (bank_index bank (unat button_id * 3))
                    else Default_Color (unat (clamp (word_of_int ((uint velocity - 1) div 6 - 1)) 0 19)))
         in andthen (store (geometric_animation_color_ptr (anim d)) slot src) (\<lambda>ptrs.
            Inr (d\<lparr>anim := (anim d)\<lparr>geometric_animation_color_ptr := ptrs\<rparr>\<rparr>))))"

text \<open>The common body of the four \<^verbatim>\<open>start_geometric_*_animation\<close> functions.\<close>

definition start_geometric :: "u8 \<Rightarrow> u8 \<Rightarrow> dev \<Rightarrow> dev run" where
  "start_geometric ty button_id d =
     (let slot = assign_geometric_animation_id (anim d)
      in andthen (store (geometric_animation_btn_id (anim d)) slot button_id) (\<lambda>btns.
         andthen (store (geometric_animation_pos (anim d)) slot 0) (\<lambda>ps.
         andthen (store (geometric_animation_type (anim d)) slot ty) (\<lambda>tys.
         andthen (set_geometric_animation_color_source button_id
             (d\<lparr>anim := (anim d)\<lparr>geometric_animation_btn_id := btns, geometric_animation_pos := ps,
                                geometric_animation_type := tys\<rparr>\<rparr>)) (\<lambda>d.
         andthen (store (g_led_counter (led d)) GEOMETRIC_ANIMATION_G_LED_IDX GEOMETRIC_ANIMATION_G_LED_LIMIT)
           (\<lambda>cs. Inr (d\<lparr>led := (led d)\<lparr>g_led_counter := cs\<rparr>\<rparr>)))))))"

definition start_geometric_square_animation :: "u8 \<Rightarrow> dev \<Rightarrow> dev run" where
  "start_geometric_square_animation = start_geometric GEOMETRIC_ANIMATION_TYPE_SQUARE"

definition start_geometric_circle_animation :: "u8 \<Rightarrow> dev \<Rightarrow> dev run" where
  "start_geometric_circle_animation = start_geometric GEOMETRIC_ANIMATION_TYPE_CIRCLE"

definition start_geometric_star_animation :: "u8 \<Rightarrow> dev \<Rightarrow> dev run" where
  "start_geometric_star_animation = start_geometric GEOMETRIC_ANIMATION_TYPE_STAR"

definition start_geometric_triangle_animation :: "u8 \<Rightarrow> dev \<Rightarrow> dev run" where
  "start_geometric_triangle_animation = start_geometric GEOMETRIC_ANIMATION_TYPE_TRIANGLE"

definition start_geometric_animation :: "u8 \<Rightarrow> u8 \<Rightarrow> dev \<Rightarrow> dev run" where
  "start_geometric_animation button_id animation_id d =
     andthen (load (g_led_counter (led d)) 1) (\<lambda>counter.
     andthen (if counter = 0
              then andthen (store (g_led_counter (led d)) 1 GEOMETRIC_ANIMATION_G_LED_LIMIT) (\<lambda>cs.
                Inr (d\<lparr>led := (led d)\<lparr>g_led_counter := cs\<rparr>\<rparr>))
              else Inr d) (\<lambda>d.
     andthen (if animation_id = GEOMETRIC_ANIMATION_TYPE_CIRCLE then start_geometric_circle_animation button_id d
              else if animation_id = GEOMETRIC_ANIMATION_TYPE_SQUARE then start_geometric_square_animation button_id d
              else if animation_id = GEOMETRIC_ANIMATION_TYPE_STAR then start_geometric_star_animation button_id d
              else if animation_id = GEOMETRIC_ANIMATION_TYPE_TRIANGLE then start_geometric_triangle_animation button_id d
              else Inr d) (\<lambda>d.
     Inr (d\<lparr>anim := (anim d)\<lparr>assign_geometric_animation_id :=
            (assign_geometric_animation_id (anim d) + 1) mod CONCURRENT_GEOMETRIC_ANIMATIONS\<rparr>\<rparr>))))"

section \<open>Geometry\<close>

definition in_grid :: "u8 \<Rightarrow> u8 \<Rightarrow> bool" where
  "in_grid row col \<longleftrightarrow> row < 8 \<and> col < 8"

definition cell_index :: "u8 \<Rightarrow> u8 \<Rightarrow> nat" where
  "cell_index row col = 3 * unat (get_button_id_from_row_column row col)"

lemma grid_all:
  "list_all (\<lambda>i. list_all (\<lambda>j. let b = get_button_id_from_row_column (of_nat i) (of_nat j)
     in b < 64 \<and> get_geometric_button_row b = of_nat i \<and> get_geometric_button_column b = of_nat j)
     [0..<8]) [0..<8]"
  by code_simp

lemma button_id_in_grid:
  assumes "in_grid row col"
  shows "get_button_id_from_row_column row col < 64"
    and "get_geometric_button_row (get_button_id_from_row_column row col) = row"
    and "get_geometric_button_column (get_button_id_from_row_column row col) = col"
proof -
  let ?P = "\<lambda>row col. let b = get_button_id_from_row_column row col
     in b < 64 \<and> get_geometric_button_row b = row \<and> get_geometric_button_column b = col"
  have rc: "unat row < 8" "unat col < 8" using assms by (simp_all add: in_grid_def word_less_nat_alt)
  have "list_all (\<lambda>j. ?P row (of_nat j)) [0..<8]"
    by (rule u8_all_below [where P = "\<lambda>row. list_all (\<lambda>j. ?P row (of_nat j)) [0..<8]", OF grid_all rc(1)])
  then have "?P row col" by (rule u8_all_below [where P = "?P row", OF _ rc(2)])
  then show "get_button_id_from_row_column row col < 64"
    and "get_geometric_button_row (get_button_id_from_row_column row col) = row"
    and "get_geometric_button_column (get_button_id_from_row_column row col) = col"
    by (simp_all add: Let_def)
qed

lemma button_all:
  "list_all (\<lambda>i. let b = of_nat i :: u8 in
     get_button_id_from_row_column (get_geometric_button_row b) (get_geometric_button_column b) = b)
     [0..<64]"
  by code_simp

lemma row_in_grid: "get_geometric_button_row b < 8"
  using word_and_le1 [of "drop_bit 2 b" 7] by (simp add: get_geometric_button_row_def word_le_nat_alt word_less_nat_alt)

lemma and3_less: "(b :: u8) AND 3 < 4"
  using word_and_le1 [of b 3] by (simp add: word_le_nat_alt word_less_nat_alt)

lemma col_in_grid: "get_geometric_button_column b < 8"
proof -
  have "unat (b AND 3) < 4" using and3_less [of b] by (simp add: word_less_nat_alt)
  then show ?thesis
    by (simp add: get_geometric_button_column_def Let_def word_less_nat_alt unat_word_ariths)
qed

lemma cell_index_less: "in_grid row col \<Longrightarrow> cell_index row col + 2 < 192"
  using button_id_in_grid(1) [of row col] by (simp add: cell_index_def word_less_nat_alt)

lemma cell_index_inject:
  assumes "in_grid r c" "in_grid r' c'" "cell_index r c = cell_index r' c'"
  shows "r = r' \<and> c = c'"
proof -
  have "get_button_id_from_row_column r c = get_button_id_from_row_column r' c'"
    using assms(3) by (simp add: cell_index_def word_unat_eq_iff)
  then show ?thesis using button_id_in_grid [OF assms(1)] button_id_in_grid [OF assms(2)] by metis
qed

lemma unat_times3: "b < 64 \<Longrightarrow> unat (b * 3 :: u8) = 3 * unat b"
  by (simp add: unat_word_ariths word_less_nat_alt)

section \<open>Painting\<close>

definition cell_of :: "u8 list \<Rightarrow> u8 \<Rightarrow> u8 \<Rightarrow> u8 \<times> u8 \<times> u8" where
  "cell_of buffer row col = triple_at buffer (cell_index row col)"

definition paint :: "u8 \<times> u8 \<times> u8 \<Rightarrow> (u8 \<times> u8) list \<Rightarrow> u8 list \<Rightarrow> u8 list" where
  "paint v cells buffer = fold (\<lambda>(r, c) b. put3 b (cell_index r c) v) cells buffer"

lemma length_paint [simp]: "length (paint v cells buffer) = length buffer"
  unfolding paint_def by (rule length_fold_update) (simp split: prod.splits)

lemma cell_of_put3:
  assumes "in_grid r c" "in_grid r' c'" "length buffer = 192"
  shows "cell_of (put3 buffer (cell_index r c) v) r' c' =
     (if r = r' \<and> c = c' then v else cell_of buffer r' c')"
proof (cases "cell_index r c = cell_index r' c'")
  case True
  then show ?thesis using cell_index_inject [OF assms(1,2)] cell_index_less [OF assms(1)] assms(3)
    by (auto simp: cell_of_def triple_at_put3)
next
  case False
  then have "cell_index r' c' + 2 < cell_index r c \<or> cell_index r c + 2 < cell_index r' c'"
    unfolding cell_index_def by presburger
  then show ?thesis using False by (auto simp: cell_of_def triple_at_put3_other)
qed

lemma cell_of_paint:
  assumes "\<forall>(r, c) \<in> set cells. in_grid r c" "in_grid r c" "length buffer = 192"
  shows "cell_of (paint v cells buffer) r c = (if (r, c) \<in> set cells then v else cell_of buffer r c)"
  using assms
proof (induction cells arbitrary: buffer)
  case (Cons x cells)
  obtain a b where x: "x = (a, b)" by (cases x)
  with Cons.prems have "in_grid a b" by simp
  with Cons x show ?case by (auto simp: paint_def cell_of_put3)
qed (simp add: paint_def)

lemma draw_cell_put3:
  assumes "src_color src cs = Inr (r, g, b)" "in_grid row col" "length buffer = 192"
  shows "draw_cell src cs row col buffer = Inr (put3 buffer (cell_index row col) (b, r, g))"
proof -
  have "unat (get_button_id_from_row_column row col * 3) = cell_index row col"
    using unat_times3 [OF button_id_in_grid(1) [OF assms(2)]] by (simp add: cell_index_def)
  then show ?thesis using assms cell_index_less [OF assms(2)]
    by (simp add: draw_cell_def draw_button_def store3_put3)
qed

definition lit_cells :: "u8 list \<Rightarrow> u8 list \<Rightarrow> (u8 \<Rightarrow> u8 \<Rightarrow> bool) \<Rightarrow> (u8 \<times> u8) list" where
  "lit_cells rows cols light = concat (map (\<lambda>r. map (Pair r) (filter (light r) cols)) rows)"

lemma paint_append: "paint v (xs @ ys) buffer = paint v ys (paint v xs buffer)"
  by (simp add: paint_def)

lemma draw_row:
  assumes "src_color src cs = Inr (r, g, b)" "\<forall>col \<in> set cols. in_grid row col" "length buffer = 192"
  shows "for_run (\<lambda>col buffer. if light row col then draw_cell src cs row col buffer else Inr buffer) cols buffer
    = Inr (paint (b, r, g) (map (Pair row) (filter (light row) cols)) buffer)"
  using assms(2,3)
  by (induction cols arbitrary: buffer) (simp_all add: paint_def draw_cell_put3 [OF assms(1)])

lemma draw_grid_paint:
  assumes "src_color src cs = Inr (r, g, b)" "\<forall>row \<in> set rows. \<forall>col \<in> set cols. in_grid row col"
    and "length buffer = 192"
  shows "draw_grid src cs rows cols light buffer = Inr (paint (b, r, g) (lit_cells rows cols light) buffer)"
  using assms(2,3) unfolding draw_grid_def
  by (induction rows arbitrary: buffer)
     (simp_all add: draw_row [OF assms(1)] lit_cells_def paint_append, simp add: paint_def)

lemma set_u8_range: "set (u8_range a b) = {x. a \<le> x \<and> x \<le> b}"
proof
  show "set (u8_range a b) \<subseteq> {x. a \<le> x \<and> x \<le> b}"
  proof
    fix x assume "x \<in> set (u8_range a b)"
    then obtain i where i: "x = of_nat i" "unat a \<le> i" "i \<le> unat b" by (auto simp: u8_range_def)
    then have "i < 256" using unat_u8_less [of b] by linarith
    with i(1) have "unat x = i" by (simp add: unat_of_nat)
    with i show "x \<in> {x. a \<le> x \<and> x \<le> b}" by (simp add: word_le_nat_alt)
  qed
  show "{x. a \<le> x \<and> x \<le> b} \<subseteq> set (u8_range a b)"
  proof
    fix x assume "x \<in> {x. a \<le> x \<and> x \<le> b}"
    then have "unat x \<in> set [unat a..<Suc (unat b)]" by (auto simp: word_le_nat_alt)
    then have "of_nat (unat x) \<in> set (u8_range a b)" unfolding u8_range_def set_map by (rule imageI)
    then show "x \<in> set (u8_range a b)" by simp
  qed
qed

lemma last_in_grid_less: "last_in_grid 8 hi < 8"
  by (simp add: last_in_grid_def)

lemma first_in_grid_less: "first_in_grid 8 lo < 8"
  by (simp add: first_in_grid_def)

lemma range_in_grid:
  assumes "row \<in> set (u8_range (first_in_grid 8 lo) (last_in_grid 8 hi))"
  shows "row < 8"
  using assms last_in_grid_less [of hi] by (auto simp: set_u8_range)

section \<open>Every shape draws inside the buffer\<close>

definition buffer_wf :: "u8 list \<Rightarrow> bool" where
  "buffer_wf buffer \<longleftrightarrow> length buffer = 192"

lemma draw_cell_total:
  assumes "src_color src cs = Inr v" "in_grid row col" "buffer_wf buffer"
  shows "\<exists>b. draw_cell src cs row col buffer = Inr b \<and> buffer_wf b"
  using assms draw_cell_put3 [of src cs] by (cases v) (simp add: buffer_wf_def)

lemma draw_grid_total:
  assumes "src_color src cs = Inr v" "buffer_wf buffer"
  shows "\<exists>b. draw_grid src cs (u8_range (first_in_grid 8 a) (last_in_grid 8 a'))
     (u8_range (first_in_grid 8 e) (last_in_grid 8 e')) light buffer = Inr b \<and> buffer_wf b"
proof (cases v)
  case (fields r g b)
  then show ?thesis
    using assms draw_grid_paint [of src cs r g b "u8_range (first_in_grid 8 a) (last_in_grid 8 a')"
        "u8_range (first_in_grid 8 e) (last_in_grid 8 e')" buffer light] range_in_grid
    by (auto simp: in_grid_def buffer_wf_def)
qed

lemma draw_square_total:
  "src_color src cs = Inr v \<Longrightarrow> buffer_wf buffer \<Longrightarrow>
   \<exists>b. draw_square pos btn src cs buffer = Inr b \<and> buffer_wf b"
  unfolding draw_square_def Let_def geo_consts by (rule draw_grid_total)

lemma draw_circle_total:
  "src_color src cs = Inr v \<Longrightarrow> buffer_wf buffer \<Longrightarrow>
   \<exists>b. draw_circle pos btn src cs buffer = Inr b \<and> buffer_wf b"
  unfolding draw_circle_def Let_def geo_consts by (rule draw_grid_total)

lemma button_id_valid:
  "get_button_id_from_row_column row col < 64 \<Longrightarrow> in_grid row col"
  by (auto simp: get_button_id_from_row_column_def in_grid_def geo_consts split: if_splits)

lemma draw_cell_if_total:
  assumes "src_color src cs = Inr v" "buffer_wf buffer"
  shows "\<exists>b. draw_cell_if src cs cell buffer = Inr b \<and> buffer_wf b"
proof (cases cell)
  case (Pair row col)
  then show ?thesis
    using assms draw_cell_total [OF assms(1) button_id_valid assms(2), of row col]
    by (simp add: draw_cell_if_def Let_def draw_cell_def)
qed

lemma draw_star_total:
  assumes "src_color src cs = Inr v" "buffer_wf buffer"
  shows "\<exists>b. draw_star pos btn src cs buffer = Inr b \<and> buffer_wf b"
  unfolding draw_star_def Let_def using assms(2)
  by (rule for_run_total) (rule for_run_total, assumption, rule draw_cell_if_total [OF assms(1)])

lemma optional_total:
  assumes "buffer_wf buffer" "P \<Longrightarrow> \<exists>b. f buffer = Inr b \<and> buffer_wf b"
  shows "\<exists>b. (if P then f buffer else Inr buffer) = Inr b \<and> buffer_wf b"
  using assms by simp

lemma andthen_total:
  assumes "\<exists>x. m = Inr x \<and> P x" "\<And>x. P x \<Longrightarrow> \<exists>y. f x = Inr y \<and> Q y"
  shows "\<exists>y. andthen m f = Inr y \<and> Q y"
  using assms by auto

lemma draw_triangle_total:
  assumes src: "src_color src cs = Inr v" and buf: "buffer_wf buffer"
  shows "\<exists>b. draw_triangle pos btn src cs buffer = Inr b \<and> buffer_wf b"
proof -
  note cell = draw_cell_total [OF src]
  have edge: "\<exists>b. (if col < 8 then draw_cell src cs row col buffer else Inr buffer) = Inr b \<and> buffer_wf b"
    if "row < 8" "buffer_wf buffer" for row col buffer
    using that by (intro optional_total cell) (simp_all add: in_grid_def)
  have last: "last_in_grid 8 hi < 8" for hi by (rule last_in_grid_less)
  show ?thesis unfolding draw_triangle_def Let_def geo_consts
  proof (intro andthen_total [where P = buffer_wf])
    show "\<exists>b. (if first_in_grid 8 lo = lo
        then for_run (\<lambda>c. draw_cell src cs (first_in_grid 8 lo) c) (u8_range (first_in_grid 8 a) (last_in_grid 8 a')) buffer
        else Inr buffer) = Inr b \<and> buffer_wf b" for lo a a'
      using buf first_in_grid_less [of lo]
      by (intro optional_total for_run_total cell) (auto simp: in_grid_def dest: range_in_grid)
    show "\<exists>b'. (if last_in_grid 8 hi = hi
        then draw_cell src cs (last_in_grid 8 hi) (get_geometric_button_column btn) b else Inr b) = Inr b'
        \<and> buffer_wf b'" if "buffer_wf b" for hi b
      using that last [of hi] by (intro optional_total cell) (auto simp: in_grid_def col_in_grid)
    show "\<exists>b'. for_run (\<lambda>row buffer. andthen (if l row < 8 then draw_cell src cs row (l row) buffer else Inr buffer)
          (\<lambda>buffer. if r row < 8 then draw_cell src cs row (r row) buffer else Inr buffer))
        (u8_range (first_in_grid 8 a) (last_in_grid 8 a')) b = Inr b' \<and> buffer_wf b'"
      if "buffer_wf b" for l r a a' b
      using that by (rule for_run_total) (intro andthen_total [where P = buffer_wf] edge; auto dest: range_in_grid)
  qed
qed

section \<open>The slots\<close>

text \<open>A pointer that can be dereferenced, and a slot that is over or has such a pointer.\<close>

definition ptr_ok :: "color_ptr \<Rightarrow> bool" where
  "ptr_ok p = (case p of No_Color \<Rightarrow> False | Bank_Active off \<Rightarrow> off + 2 < 2 * BANK_BYTES
     | Default_Color ci \<Rightarrow> ci < 20)"

definition slot_ok :: "anim_globals \<Rightarrow> nat \<Rightarrow> bool" where
  "slot_ok a i \<longleftrightarrow> ptr_ok (geometric_animation_color_ptr a ! i)
     \<or> geometric_animation_type a ! i = 0
       \<and> GEOMETRIC_ANIMATION_STEPS_SQUARE \<le> geometric_animation_pos a ! i"

definition anim_wf :: "anim_globals \<Rightarrow> bool" where
  "anim_wf a \<longleftrightarrow> length (geometric_animation_btn_id a) = 4 \<and> length (geometric_animation_type a) = 4
     \<and> length (geometric_animation_pos a) = 4 \<and> length (geometric_animation_color_ptr a) = 4
     \<and> assign_geometric_animation_id a < 4 \<and> (\<forall>i<4. slot_ok a i)"

definition disp_wf :: "dev \<Rightarrow> bool" where
  "disp_wf d \<longleftrightarrow> colors_wf (colors d) \<and> anim_wf (anim d) \<and> length (g_led_counter (led d)) = 4
     \<and> buffer_wf (g_display_buffer d) \<and> length (g_midi_note_state (midi d)) = 256
     \<and> g_bank_selected (midi d) < 2"

lemma src_color_ok: "ptr_ok p \<Longrightarrow> colors_wf cs \<Longrightarrow> \<exists>v. src_color p cs = Inr v"
  by (cases p) (simp_all add: ptr_ok_def src_color_def colors_wf_def default_color_def triple_at_def)

text \<open>
  What a run of the slots may change: the position of the slot, the display buffer and, when
  the step timer has run out, that timer.
\<close>

definition display_frame where
  "display_frame d = (key_g d, midi d, combo_g d, rng d, ee d, colors d,
     (led d)\<lparr>g_led_counter := []\<rparr>, balls d, watchdog_flag d)"

locale geometric_shape =
  fixes draw :: "u8 \<Rightarrow> u8 \<Rightarrow> color_ptr \<Rightarrow> color_globals \<Rightarrow> u8 list \<Rightarrow> u8 list run"
  assumes draw_total: "src_color src cs = Inr v \<Longrightarrow> buffer_wf buffer \<Longrightarrow>
     \<exists>b. draw pos btn src cs buffer = Inr b \<and> buffer_wf b"
begin

lemma run_total:
  assumes "disp_wf d" "geometric_animation_id (anim d) < 4"
    and "ptr_ok (geometric_animation_color_ptr (anim d) ! geometric_animation_id (anim d))"
  shows "\<exists>d'. run_geometric steps draw upd d = Inr d' \<and> disp_wf d' \<and> display_frame d' = display_frame d"
proof -
  let ?s = "geometric_animation_id (anim d)"
  let ?p = "geometric_animation_pos (anim d) ! ?s"
  define pos where "pos = (if upd then ?p + 1 else ?p)"
  define e where "e = (if upd then d\<lparr>anim := (anim d)\<lparr>geometric_animation_pos :=
      (geometric_animation_pos (anim d))[?s := ?p + 1]\<rparr>\<rparr> else d)"
  have wf: "disp_wf e" "display_frame e = display_frame d"
    using assms
    by (auto simp: e_def disp_wf_def anim_wf_def slot_ok_def display_frame_def nth_list_update)
  obtain v where "src_color (geometric_animation_color_ptr (anim d) ! ?s) (colors d) = Inr v"
    using src_color_ok [OF assms(3)] assms(1) unfolding disp_wf_def by blast
  then obtain b where b: "draw pos (geometric_animation_btn_id (anim d) ! ?s)
      (geometric_animation_color_ptr (anim d) ! ?s) (colors d) (g_display_buffer d) = Inr b" "buffer_wf b"
    using draw_total assms(1) unfolding disp_wf_def by blast
  have drawn: "disp_wf (e\<lparr>g_display_buffer := b\<rparr>)" "display_frame (e\<lparr>g_display_buffer := b\<rparr>) = display_frame d"
    using wf b(2) by (auto simp: disp_wf_def display_frame_def)
  have "run_geometric steps draw upd d = Inr (if upd \<and> pos \<ge> steps then e else if pos = 0 then e
      else e\<lparr>g_display_buffer := b\<rparr>)"
    using assms b(1) by (auto simp: run_geometric_def Let_def disp_wf_def anim_wf_def e_def pos_def)
  then show ?thesis using wf drawn by simp
qed

end

interpretation square: geometric_shape draw_square
  by unfold_locales (rule draw_square_total)

interpretation circle: geometric_shape draw_circle
  by unfold_locales (rule draw_circle_total)

interpretation star: geometric_shape draw_star
  by unfold_locales (rule draw_star_total)

interpretation triangle: geometric_shape draw_triangle
  by unfold_locales (rule draw_triangle_total)

lemma slot_state_total:
  assumes "disp_wf d" "i < 4"
  shows "\<exists>d'. geometric_slot_state upd i d = Inr d' \<and> disp_wf d' \<and> display_frame d' = display_frame d"
proof -
  define e where "e = d\<lparr>anim := (anim d)\<lparr>geometric_animation_id := i\<rparr>\<rparr>"
  have e: "disp_wf e" "display_frame e = display_frame d" "geometric_animation_id (anim e) = i"
    using assms(1) by (auto simp: e_def disp_wf_def anim_wf_def slot_ok_def display_frame_def)
  have len: "i < length (geometric_animation_type (anim e))" "i < length (geometric_animation_pos (anim e))"
    using e(1) assms(2) by (simp_all add: disp_wf_def anim_wf_def)
  show ?thesis
  proof (cases "ptr_ok (geometric_animation_color_ptr (anim e) ! i)")
    case True
    then have run: "\<exists>d'. run_geometric steps draw upd e = Inr d' \<and> disp_wf d' \<and> display_frame d' = display_frame d"
      if "geometric_shape draw" for steps draw
      using geometric_shape.run_total [OF that e(1)] e assms(2) by simp
    show ?thesis
      using len e run [OF square.geometric_shape_axioms] run [OF circle.geometric_shape_axioms]
        run [OF star.geometric_shape_axioms] run [OF triangle.geometric_shape_axioms]
      by (simp add: geometric_slot_state_def Let_def e_def [symmetric] run_geometric_square_animation_def
          run_geometric_circle_animation_def run_geometric_star_animation_def
          run_geometric_triangle_animation_def)
  next
    case False
    then have "slot_ok (anim e) i" "geometric_animation_type (anim e) ! i = 0"
      "\<not> geometric_animation_pos (anim e) ! i < GEOMETRIC_ANIMATION_STEPS_SQUARE"
      using e(1) assms(2) by (auto simp: disp_wf_def anim_wf_def slot_ok_def)
    with len e show ?thesis by (simp add: geometric_slot_state_def Let_def e_def [symmetric])
  qed
qed

lemma geometric_animation_state_total:
  assumes "disp_wf d"
  shows "\<exists>d'. geometric_animation_state d = Inr d' \<and> disp_wf d' \<and> display_frame d' = display_frame d"
proof -
  define e where "e = (if g_led_counter (led d) ! 1 = 0 then
     d\<lparr>led := (led d)\<lparr>g_led_counter := (g_led_counter (led d))[1 := GEOMETRIC_ANIMATION_G_LED_LIMIT]\<rparr>\<rparr> else d)"
  have e: "disp_wf e \<and> display_frame e = display_frame d"
    using assms by (simp add: e_def disp_wf_def display_frame_def)
  have "\<exists>t. for_run (geometric_slot_state upd) [0..<CONCURRENT_GEOMETRIC_ANIMATIONS] e = Inr t
      \<and> disp_wf t \<and> display_frame t = display_frame d" for upd
    using e
    by (rule for_run_total) (metis CONCURRENT_GEOMETRIC_ANIMATIONS_def atLeastLessThan_iff set_upt
        slot_state_total)
  then show ?thesis using assms
    by (auto simp: geometric_animation_state_def disp_wf_def e_def split: if_splits)
qed

lemma clamp_all: "list_all (\<lambda>i. unat (clamp (of_nat i) 0 19) < 20) [0..<256]"
  by code_simp

lemma clamp_color: "unat (clamp x 0 19) < 20"
  by (rule u8_all_below [where P = "\<lambda>x. unat (clamp x 0 19) < 20", OF clamp_all]) simp

lemma color_source:
  assumes "length (g_midi_note_state (midi d)) = 256" "g_bank_selected (midi d) < 2" "b < 64"
    and "assign_geometric_animation_id (anim d) < length (geometric_animation_color_ptr (anim d))"
  shows "\<exists>p. ptr_ok p \<and> set_geometric_animation_color_source b d =
       Inr (d\<lparr>anim := (anim d)\<lparr>geometric_animation_color_ptr :=
         (geometric_animation_color_ptr (anim d))[assign_geometric_animation_id (anim d) := p]\<rparr>\<rparr>)"
proof -
  let ?bank = "unat (g_bank_selected (midi d))"
  have "?bank \<le> 1" "unat b < 64" using assms(2,3) by (simp_all add: word_less_nat_alt)
  then have i: "unat b + NUM_BUTTONS * ?bank < 256" "bank_index ?bank (unat b * 3) + 2 < 2 * BANK_BYTES"
    by (simp_all add: NUM_BUTTONS_def bank_index_def BANK_BYTES_def)
  define v where "v = g_midi_note_state (midi d) ! (unat b + NUM_BUTTONS * ?bank)"
  define p where "p = (if v = 0 \<or> v \<ge> 121 then Bank_Active (bank_index ?bank (unat b * 3))
     else Default_Color (unat (clamp (word_of_int ((uint v - 1) div 6 - 1)) 0 19)))"
  have "ptr_ok p" using i(2) clamp_color by (simp add: p_def ptr_ok_def)
  moreover have "set_geometric_animation_color_source b d =
       Inr (d\<lparr>anim := (anim d)\<lparr>geometric_animation_color_ptr :=
         (geometric_animation_color_ptr (anim d))[assign_geometric_animation_id (anim d) := p]\<rparr>\<rparr>)"
    using assms i(1) unfolding set_geometric_animation_color_source_def Let_def
    by (simp add: v_def [symmetric] p_def [symmetric])
  ultimately show ?thesis by blast
qed

lemma start_geometric_total:
  assumes "disp_wf d" "b < 64"
  shows "\<exists>d'. start_geometric ty b d = Inr d' \<and> disp_wf d' \<and> display_frame d' = display_frame d
     \<and> g_display_buffer d' = g_display_buffer d"
proof -
  let ?s = "assign_geometric_animation_id (anim d)"
  define e where "e = d\<lparr>anim := (anim d)\<lparr>
     geometric_animation_btn_id := (geometric_animation_btn_id (anim d))[?s := b],
     geometric_animation_pos := (geometric_animation_pos (anim d))[?s := 0],
     geometric_animation_type := (geometric_animation_type (anim d))[?s := ty]\<rparr>\<rparr>"
  have "\<exists>p. ptr_ok p \<and> set_geometric_animation_color_source b e =
       Inr (e\<lparr>anim := (anim e)\<lparr>geometric_animation_color_ptr :=
         (geometric_animation_color_ptr (anim e))[assign_geometric_animation_id (anim e) := p]\<rparr>\<rparr>)"
    using assms by (intro color_source) (simp_all add: e_def disp_wf_def anim_wf_def)
  then obtain p where p: "ptr_ok p" "set_geometric_animation_color_source b e =
       Inr (e\<lparr>anim := (anim e)\<lparr>geometric_animation_color_ptr :=
         (geometric_animation_color_ptr (anim e))[?s := p]\<rparr>\<rparr>)" by (auto simp: e_def)
  let ?e = "e\<lparr>anim := (anim e)\<lparr>geometric_animation_color_ptr :=
       (geometric_animation_color_ptr (anim e))[?s := p]\<rparr>,
     led := (led e)\<lparr>g_led_counter := (g_led_counter (led e))
       [GEOMETRIC_ANIMATION_G_LED_IDX := GEOMETRIC_ANIMATION_G_LED_LIMIT]\<rparr>\<rparr>"
  have "start_geometric ty b d = Inr ?e"
    using assms p(2)
    by (simp add: start_geometric_def Let_def disp_wf_def anim_wf_def e_def
        GEOMETRIC_ANIMATION_G_LED_IDX_def)
  moreover have "disp_wf ?e"
    using assms p(1) by (auto simp: e_def disp_wf_def anim_wf_def slot_ok_def nth_list_update)
  ultimately show ?thesis by (simp add: e_def display_frame_def)
qed

lemma start_geometric_animation_total:
  assumes "disp_wf d" "b < 64"
  shows "\<exists>d'. start_geometric_animation b a d = Inr d' \<and> disp_wf d' \<and> display_frame d' = display_frame d
     \<and> g_display_buffer d' = g_display_buffer d"
proof -
  define e where "e = (if g_led_counter (led d) ! 1 = 0 then
     d\<lparr>led := (led d)\<lparr>g_led_counter := (g_led_counter (led d))[1 := GEOMETRIC_ANIMATION_G_LED_LIMIT]\<rparr>\<rparr> else d)"
  have e: "disp_wf e" "display_frame e = display_frame d" "g_display_buffer e = g_display_buffer d"
    using assms by (simp_all add: e_def disp_wf_def display_frame_def)
  let ?P = "\<lambda>d'. disp_wf d' \<and> display_frame d' = display_frame d \<and> g_display_buffer d' = g_display_buffer d"
  have "\<exists>f. (if a = GEOMETRIC_ANIMATION_TYPE_CIRCLE then start_geometric_circle_animation b e
      else if a = GEOMETRIC_ANIMATION_TYPE_SQUARE then start_geometric_square_animation b e
      else if a = GEOMETRIC_ANIMATION_TYPE_STAR then start_geometric_star_animation b e
      else if a = GEOMETRIC_ANIMATION_TYPE_TRIANGLE then start_geometric_triangle_animation b e
      else Inr e) = Inr f \<and> ?P f"
    using start_geometric_total [OF e(1) assms(2)] e
    by (simp add: start_geometric_circle_animation_def start_geometric_square_animation_def
        start_geometric_star_animation_def start_geometric_triangle_animation_def)
  then obtain f where f: "(if a = GEOMETRIC_ANIMATION_TYPE_CIRCLE then start_geometric_circle_animation b e
      else if a = GEOMETRIC_ANIMATION_TYPE_SQUARE then start_geometric_square_animation b e
      else if a = GEOMETRIC_ANIMATION_TYPE_STAR then start_geometric_star_animation b e
      else if a = GEOMETRIC_ANIMATION_TYPE_TRIANGLE then start_geometric_triangle_animation b e
      else Inr e) = Inr f" "?P f" by blast
  let ?g = "f\<lparr>anim := (anim f)\<lparr>assign_geometric_animation_id :=
     (assign_geometric_animation_id (anim f) + 1) mod CONCURRENT_GEOMETRIC_ANIMATIONS\<rparr>\<rparr>"
  have "start_geometric_animation b a d = Inr ?g"
    using assms(1) f(1) by (auto simp: start_geometric_animation_def disp_wf_def e_def)
  moreover have "?P ?g"
    using f(2) by (auto simp: disp_wf_def anim_wf_def slot_ok_def display_frame_def
        CONCURRENT_GEOMETRIC_ANIMATIONS_def)
  ultimately show ?thesis by blast
qed

section \<open>The square is a ring\<close>

text \<open>One dimension of the clipping, checked on all positions of the grid.\<close>

definition ring_dim :: "u8 \<Rightarrow> u8 \<Rightarrow> u8 \<Rightarrow> bool" where
  "ring_dim pos b x \<longleftrightarrow>
     ((first_in_grid 8 (b - pos) \<le> x \<and> x \<le> last_in_grid 8 (b + pos)) \<longleftrightarrow> \<bar>uint x - uint b\<bar> \<le> uint pos)
     \<and> ((x = b - pos \<or> x = b + pos) \<longleftrightarrow> \<bar>uint x - uint b\<bar> = uint pos)"

lemma ring_dim_all:
  "list_all (\<lambda>p. list_all (\<lambda>b. list_all (\<lambda>x. p = 0 \<or> ring_dim (of_nat p) (of_nat b) (of_nat x))
     [0..<8]) [0..<8]) [0..<8]"
  by code_simp

lemma ring_dim:
  assumes "pos \<noteq> 0" "pos < 8" "b < 8" "x < 8"
  shows "ring_dim pos b x"
proof -
  have lt: "unat pos < 8" "unat b < 8" "unat x < 8" "unat pos \<noteq> 0"
    using assms by (simp_all add: word_less_nat_alt unat_eq_0)
  have "unat pos = 0 \<or> ring_dim (of_nat (unat pos)) (of_nat (unat b)) (of_nat (unat x))"
    using ring_dim_all lt(1,2,3) unfolding list_all_iff set_upt by (meson atLeastLessThan_iff le0)
  with lt(4) show ?thesis by simp
qed

definition grid_distance :: "u8 \<Rightarrow> u8 \<Rightarrow> u8 \<Rightarrow> int" where
  "grid_distance btn row col =
     max \<bar>uint row - uint (get_geometric_button_row btn)\<bar> \<bar>uint col - uint (get_geometric_button_column btn)\<bar>"

lemma lit_cells_square:
  fixes btn :: u8
  assumes "pos \<noteq> 0" "pos < 8" "in_grid row col"
  defines "R \<equiv> get_geometric_button_row btn" and "C \<equiv> get_geometric_button_column btn"
  shows "(row, col) \<in> set (lit_cells
       (u8_range (first_in_grid 8 (R - pos)) (last_in_grid 8 (R + pos)))
       (u8_range (first_in_grid 8 (C - pos)) (last_in_grid 8 (C + pos)))
       (\<lambda>r c. r = R - pos \<or> r = R + pos \<or> c = C - pos \<or> c = C + pos))
     \<longleftrightarrow> grid_distance btn row col = uint pos"
proof -
  have "ring_dim pos R row" "ring_dim pos C col"
    using assms row_in_grid [of btn] col_in_grid [of btn] by (auto intro!: ring_dim simp: in_grid_def)
  then show ?thesis
    by (auto simp: lit_cells_def set_u8_range ring_dim_def grid_distance_def R_def C_def max_def)
qed

section \<open>Properties\<close>

text \<open>The key numbering and the grid are inverse to each other: each of the 64 grid positions
  has a key number below 64 with that row and column, and each key number is that of its row
  and column; positions outside the grid give the number 255.\<close>

theorem grid_numbering_inverse:
  "(in_grid row col \<longrightarrow> get_button_id_from_row_column row col < 64
     \<and> get_geometric_button_row (get_button_id_from_row_column row col) = row
     \<and> get_geometric_button_column (get_button_id_from_row_column row col) = col)
   \<and> (\<not> in_grid row col \<longrightarrow> get_button_id_from_row_column row col = 0xFF)
   \<and> (b < 64 \<longrightarrow> get_button_id_from_row_column (get_geometric_button_row b)
                    (get_geometric_button_column b) = b)"
proof (intro conjI impI)
  show "get_button_id_from_row_column row col = 0xFF" if "\<not> in_grid row col"
    using that by (auto simp: in_grid_def get_button_id_from_row_column_def geo_consts)
  show "get_button_id_from_row_column (get_geometric_button_row b) (get_geometric_button_column b) = b"
    if "b < 64"
    using u8_all_below [where P = "\<lambda>b. get_button_id_from_row_column (get_geometric_button_row b)
        (get_geometric_button_column b) = b", of 64 b] button_all that
    by (simp add: Let_def word_less_nat_alt)
qed (simp_all add: button_id_in_grid)

theorem grid_numbering_inverse_witness:
  "get_geometric_button_row (get_button_id_from_row_column 7 4) = 7
   \<and> get_button_id_from_row_column (get_geometric_button_row 28) (get_geometric_button_column 28) = 28"
  using grid_numbering_inverse [of 7 4 28] by (simp add: in_grid_def)

text \<open>C30: the square animation draws a ring.  At step \<open>pos\<close> from 1 to 7 it gives its colour to
  exactly the LEDs at distance \<open>pos\<close> of the key, the larger of the row and column
  differences, clipped to the grid, and leaves every other LED as it was.\<close>

theorem square_draws_ring:
  assumes "src_color src cs = Inr (r, g, b)" "length buffer = 192" "pos \<noteq> 0" "pos < 8"
  shows "\<exists>buffer'. draw_square pos btn src cs buffer = Inr buffer' \<and>
     (\<forall>row col. in_grid row col \<longrightarrow> cell_of buffer' row col =
        (if grid_distance btn row col = uint pos then (b, r, g) else cell_of buffer row col))"
proof -
  let ?R = "get_geometric_button_row btn" and ?C = "get_geometric_button_column btn"
  let ?cells = "lit_cells (u8_range (first_in_grid 8 (?R - pos)) (last_in_grid 8 (?R + pos)))
       (u8_range (first_in_grid 8 (?C - pos)) (last_in_grid 8 (?C + pos)))
       (\<lambda>r c. r = ?R - pos \<or> r = ?R + pos \<or> c = ?C - pos \<or> c = ?C + pos)"
  have "draw_square pos btn src cs buffer = Inr (paint (b, r, g) ?cells buffer)"
    unfolding draw_square_def Let_def geo_consts using assms(1,2)
    by (intro draw_grid_paint) (auto simp: in_grid_def dest: range_in_grid)
  moreover have "\<forall>(r, c) \<in> set ?cells. in_grid r c"
    by (auto simp: lit_cells_def in_grid_def dest: range_in_grid)
  ultimately show ?thesis
    using cell_of_paint [of ?cells] lit_cells_square [OF assms(3,4)] assms(2) by simp
qed

theorem square_draws_ring_witness:
  "\<exists>buffer'. draw_square 3 28 (Default_Color 1) (colors dev_example) (replicate 192 0) = Inr buffer'
     \<and> cell_of buffer' 4 0 = (0, 48, 0)"
proof -
  have "src_color (Default_Color 1) (colors dev_example) = Inr (48, 0, 0)" by code_simp
  then obtain buffer' where
    "draw_square 3 28 (Default_Color 1) (colors dev_example) (replicate 192 0) = Inr buffer'"
    "cell_of buffer' 4 0 = (if grid_distance 28 4 0 = uint (3 :: u8) then (0, 48, 0)
        else cell_of (replicate 192 0) 4 0)"
    using square_draws_ring [of "Default_Color 1" "colors dev_example" 48 0 0 "replicate 192 0" 3 28]
    by (auto simp: in_grid_def)
  moreover have "grid_distance 28 4 0 = uint (3 :: u8)" by code_simp
  ultimately show ?thesis by simp
qed

text \<open>The animation engine is memory safe.  In every well-formed state it runs all four slots,
  each with any shape, position and key, without touching memory outside the display buffer
  and without following a null colour pointer; it changes the slots, the buffer and the step
  timer only, and leaves a well-formed state.\<close>

theorem geometric_animation_safe:
  assumes "disp_wf d"
  shows "\<exists>d'. geometric_animation_state d = Inr d' \<and> disp_wf d' \<and> display_frame d' = display_frame d"
  using assms by (rule geometric_animation_state_total)

lemma disp_wf_dev_example: "disp_wf dev_example"
  by (simp add: dev_example_def dev_init_def disp_wf_def anim_wf_def anim_init_def slot_ok_def
      led_init_def midi_init_def buffer_wf_def colors_wf_def CONCURRENT_GEOMETRIC_ANIMATIONS_def
      MIDI_MAX_NOTES_def)

end
