(* ===== verification/Mf_Led.thy ===== *)
theory Mf_Led
  imports Mf_State
begin

unbundle bit_operations_syntax

text \<open>
  The LED driver, \<^verbatim>\<open>led.c\<close> up to the light show: the timer interrupt that runs the animation
  counters, port and timer set-up, and the bit stream sent to the four strands of LEDs.  A bit
  on a strand is a long or a short pulse of its pin; the model records the bits, not the
  timing.
\<close>

section \<open>Timer interrupt and set-up\<close>

definition TIMER1_OVF_vect :: "dev \<Rightarrow> dev run" where
  "TIMER1_OVF_vect d =
     (let cs = map (\<lambda>c. if c > 0 then c - 1 else c) (g_led_counter (led d));
          d = d\<lparr>led := (led d)\<lparr>TCNT1 := 0xFFE0, g_led_counter := cs\<rparr>\<rparr>;
          d = (if \<not> midi_clock_enabled (midi d)
               then (if tick (led d) = 75
                     then d\<lparr>led := (led d)\<lparr>tick := 1\<rparr>,
                            midi := (midi d)\<lparr>display_flash_counter := display_flash_counter (midi d) + 1\<rparr>\<rparr>
                     else d\<lparr>led := (led d)\<lparr>tick := tick (led d) + 1\<rparr>\<rparr>)
               else d);
          d = d\<lparr>led := (led d)\<lparr>half_ms_counter := half_ms_counter (led d) + 1\<rparr>\<rparr>
      in andthen (load (g_led_counter (led d)) 3) (\<lambda>c.
           if c = 0 then andthen (store (g_led_counter (led d)) 3 16) (\<lambda>cs.
             Inr (d\<lparr>led := (led d)\<lparr>g_led_counter := cs\<rparr>\<rparr>))
           else Inr d))"

definition LED_ASYNC_GROUP0 :: u8 where "LED_ASYNC_GROUP0 = 0x40"
definition LED_ASYNC_GROUP1 :: u8 where "LED_ASYNC_GROUP1 = 0x40"
definition LED_ASYNC_GROUP2 :: u8 where "LED_ASYNC_GROUP2 = 0x20"
definition LED_ASYNC_GROUP3 :: u8 where "LED_ASYNC_GROUP3 = 0x10"
definition LED_LATCH :: u8 where "LED_LATCH = 0x01"
definition LED_CLOCK :: u8 where "LED_CLOCK = 0x02"
definition LED_MOSI :: u8 where "LED_MOSI = 0x04"
definition LED_MODE :: u8 where "LED_MODE = 0x80"
definition LED_BLANK :: u8 where "LED_BLANK = 0x40"
definition LED_PWM :: u8 where "LED_PWM = 0x80"

text \<open>Bits of the timer registers of the ATmega32U4.\<close>

definition BV_PRTIM1 :: u8 where "BV_PRTIM1 = 0x08"
definition BV_CS12 :: u8 where "BV_CS12 = 0x04"
definition BV_CS11 :: u8 where "BV_CS11 = 0x02"
definition BV_CS10 :: u8 where "BV_CS10 = 0x01"
definition BV_TOIE1 :: u8 where "BV_TOIE1 = 0x01"

definition led_setup :: "dev \<Rightarrow> dev" where
  "led_setup d = d\<lparr>
     key_g := (key_g d)\<lparr>DDRC_key := LED_BLANK + LED_PWM, interrupts_enabled := False\<rparr>,
     led := (led d)\<lparr>DDRB := LED_CLOCK + LED_MOSI + LED_LATCH + LED_MODE,
       PRR0 := PRR0 (led d) AND NOT BV_PRTIM1, TCCR1A := 0,
       TCCR1B := ((TCCR1B (led d) OR BV_CS12) AND NOT BV_CS11) AND NOT BV_CS10,
       TCNT1 := 0xFE40, TIMSK1 := TIMSK1 (led d) OR BV_TOIE1,
       g_led_counter := map (\<lambda>_. 0) (g_led_counter (led d))\<rparr>\<rparr>"

definition led_disable :: "dev \<Rightarrow> dev" where
  "led_disable d = d\<lparr>led := (led d)\<lparr>TIMSK1 := TIMSK1 (led d) AND NOT BV_TOIE1\<rparr>\<rparr>"

definition led_enable :: "dev \<Rightarrow> dev" where
  "led_enable d = d\<lparr>led := (led d)\<lparr>TIMSK1 := TIMSK1 (led d) OR BV_TOIE1\<rparr>\<rparr>"

definition led_set_state :: "u16 \<Rightarrow> u32 \<Rightarrow> dev \<Rightarrow> dev" where
  "led_set_state new_state color d = d"

definition led_set_test_colors :: "u8 \<Rightarrow> u8 \<Rightarrow> u8 \<Rightarrow> dev \<Rightarrow> dev" where
  "led_set_test_colors red green blue d = d\<lparr>led := (led d)\<lparr>
     test_red := (if red < 0x80 then ucast red else test_red (led d)),
     test_green := (if green < 0x80 then ucast green else test_green (led d)),
     test_blue := (if blue < 0x80 then ucast blue else test_blue (led d))\<rparr>\<rparr>"

section \<open>The bit stream\<close>

text \<open>
  A strand reads one LED's colour as a 32-bit little-endian word at the current offset, one
  byte more than the colour has.  For the last LED of a buffer that byte lies behind the
  buffer; \<open>after\<close> is its value.
\<close>

definition byte_or :: "u8 \<Rightarrow> u8 list \<Rightarrow> nat \<Rightarrow> u8" where
  "byte_or after buffer i = (if i < length buffer then buffer ! i else after)"

definition single_led_buffer :: "u8 \<Rightarrow> u8 list \<Rightarrow> nat \<Rightarrow> u32" where
  "single_led_buffer after buffer off =
     ucast (byte_or after buffer off) OR push_bit 8 (ucast (byte_or after buffer (off + 1)))
     OR push_bit 16 (ucast (byte_or after buffer (off + 2)))
     OR push_bit 24 (ucast (byte_or after buffer (off + 3)))"

definition led_bits :: "u32 \<Rightarrow> bool list" where
  "led_bits test_buffer = map (\<lambda>this_bit. test_buffer AND drop_bit this_bit 0x800000 \<noteq> 0) [0..<24]"

definition led_step :: "u8 \<Rightarrow> u8 list \<Rightarrow> nat \<Rightarrow> nat \<times> bool list \<Rightarrow> nat \<times> bool list" where
  "led_step after buffer this_led s = (case s of (off, bits) \<Rightarrow>
     (if odd this_led then off + 3 else off, bits @ led_bits (single_led_buffer after buffer off)))"

definition led_update_pixel_group :: "u8 \<Rightarrow> u8 list \<Rightarrow> nat \<Rightarrow> bool list" where
  "led_update_pixel_group after buffer off = snd (fold (led_step after buffer) [0..<32] (off, []))"

text \<open>The four functions of the source differ in the port pin they toggle.\<close>

definition led_update_pixel_group0 :: "u8 \<Rightarrow> u8 list \<Rightarrow> nat \<Rightarrow> bool list" where
  "led_update_pixel_group0 = led_update_pixel_group"

definition led_update_pixel_group1 :: "u8 \<Rightarrow> u8 list \<Rightarrow> nat \<Rightarrow> bool list" where
  "led_update_pixel_group1 = led_update_pixel_group"

definition led_update_pixel_group2 :: "u8 \<Rightarrow> u8 list \<Rightarrow> nat \<Rightarrow> bool list" where
  "led_update_pixel_group2 = led_update_pixel_group"

definition led_update_pixel_group3 :: "u8 \<Rightarrow> u8 list \<Rightarrow> nat \<Rightarrow> bool list" where
  "led_update_pixel_group3 = led_update_pixel_group"

lemmas pixel_groups = led_update_pixel_group0_def led_update_pixel_group1_def led_update_pixel_group2_def
  led_update_pixel_group3_def

definition led_update_pixels :: "dev \<Rightarrow> dev" where
  "led_update_pixels d =
     (let after = after_display_buffer (led d); buffer = g_display_buffer d
      in d\<lparr>key_g := (key_g d)\<lparr>DDRC_key := DDRC_key (key_g d) OR LED_ASYNC_GROUP1, interrupts_enabled := True\<rparr>,
           led := (led d)\<lparr>DDRB := DDRB (led d) OR (LED_ASYNC_GROUP0 OR LED_ASYNC_GROUP2 OR LED_ASYNC_GROUP3),
             led_frame := [led_update_pixel_group0 after buffer 0, led_update_pixel_group1 after buffer 48,
               led_update_pixel_group2 after buffer 96, led_update_pixel_group3 after buffer 144]\<rparr>\<rparr>)"

definition indicator_states :: "u8 list" where
  "indicator_states = [48, 0, 0,  0, 0, 0,  48, 0, 0,  0, 0, 0,  0, 0, 0,  48, 0, 0,  0, 0, 0,  48, 0, 0,
                       48, 0, 0,  0, 0, 0,  48, 0, 0,  0, 0, 0,  0, 0, 0,  48, 0, 0,  0, 0, 0,  48, 0, 0]"

definition led_set_state_dfu :: "u8 \<Rightarrow> dev \<Rightarrow> dev" where
  "led_set_state_dfu after d =
     d\<lparr>key_g := (key_g d)\<lparr>DDRC_key := DDRC_key (key_g d) OR LED_ASYNC_GROUP1, interrupts_enabled := True\<rparr>,
       led := (led d)\<lparr>DDRB := DDRB (led d) OR (LED_ASYNC_GROUP0 OR LED_ASYNC_GROUP2 OR LED_ASYNC_GROUP3),
         led_frame := [led_update_pixel_group0 after indicator_states 0, led_update_pixel_group1 after indicator_states 0,
           led_update_pixel_group2 after indicator_states 0, led_update_pixel_group3 after indicator_states 0]\<rparr>\<rparr>"

section \<open>What the strands receive\<close>

definition byte_bits :: "u8 \<Rightarrow> bool list" where
  "byte_bits x = map (\<lambda>i. bit x (7 - i)) [0..<8]"

definition color_bits :: "u8 \<times> u8 \<times> u8 \<Rightarrow> bool list" where
  "color_bits c = (case c of (x, y, z) \<Rightarrow> byte_bits z @ byte_bits y @ byte_bits x)"

definition strand_spec :: "u8 list \<Rightarrow> nat \<Rightarrow> bool list" where
  "strand_spec buffer off =
     concat (map (\<lambda>k. let c = triple_at buffer (off + 3 * k) in color_bits c @ color_bits c) [0..<16])"

lemma led_bits_bit: "led_bits w = map (\<lambda>i. bit w (23 - i)) [0..<24]"
proof -
  have "(w AND drop_bit i 0x800000 \<noteq> 0) = bit w (23 - i)" if "i < 24" for i
  proof -
    have "drop_bit i (0x800000 :: u32) = 2 ^ (23 - i)"
    proof (rule bit_word_eqI)
      fix n assume "n < LENGTH(32)"
      have "(0x800000 :: u32) = 2 ^ 23" by simp
      then show "bit (drop_bit i (0x800000 :: u32)) n = bit (2 ^ (23 - i) :: u32) n"
        using that by (simp only: bit_drop_bit_eq bit_exp_iff comp_def) auto
    qed
    then show ?thesis by (simp add: and_exp_eq_0_iff_not_bit)
  qed
  then show ?thesis by (simp add: led_bits_def)
qed

lemma u8_bit_length: "bit (x :: u8) n \<Longrightarrow> n < 8"
  using bit_imp_le_length [of x n] by simp

lemma single_led_bit:
  assumes "off + 2 < length buffer" "n < 24"
  shows "bit (single_led_buffer after buffer off) n =
     (if n < 8 then bit (buffer ! off) n else if n < 16 then bit (buffer ! (off + 1)) (n - 8)
      else bit (buffer ! (off + 2)) (n - 16))"
  using assms
  by (auto simp: single_led_buffer_def byte_or_def bit_simps dest: u8_bit_length)

lemma led_bits_color:
  assumes "off + 2 < length buffer"
  shows "led_bits (single_led_buffer after buffer off) = color_bits (triple_at buffer off)"
proof -
  have "[0..<24] = [0..<8] @ map (\<lambda>i. i + 8) [0..<8] @ map (\<lambda>i. i + 16) [0..<8]" by code_simp
  then show ?thesis using assms
    by (simp add: led_bits_bit color_bits_def triple_at_def byte_bits_def single_led_bit
        del: upt_conv_Nil) (auto simp: single_led_bit)
qed

lemma led_fold:
  assumes "off + 3 * n \<le> length buffer"
  shows "fold (led_step after buffer) [0..<2 * n] (off, bits) = (off + 3 * n,
     bits @ concat (map (\<lambda>k. let c = triple_at buffer (off + 3 * k) in color_bits c @ color_bits c) [0..<n]))"
  using assms
proof (induction n)
  case (Suc n)
  have "[0..<2 * Suc n] = [0..<2 * n] @ [2 * n, Suc (2 * n)]" by simp
  moreover have "off + 3 * n + 2 < length buffer" using Suc.prems by simp
  ultimately show ?case using Suc by (simp add: led_step_def led_bits_color Let_def)
qed simp

lemma strand_sent:
  assumes "off + 48 \<le> length buffer"
  shows "led_update_pixel_group after buffer off = strand_spec buffer off"
  using led_fold [of off 16 buffer after "[]"] assms
  by (simp add: led_update_pixel_group_def strand_spec_def)

section \<open>The flash timer\<close>

lemma timer1_effect:
  assumes "length (g_led_counter (led d)) = 4"
  shows "\<exists>d'. TIMER1_OVF_vect d = Inr d' \<and> length (g_led_counter (led d')) = 4
     \<and> midi_clock_enabled (midi d') = midi_clock_enabled (midi d)
     \<and> half_ms_counter (led d') = half_ms_counter (led d) + 1
     \<and> (\<not> midi_clock_enabled (midi d) \<longrightarrow>
          tick (led d') = (if tick (led d) = 75 then 1 else tick (led d) + 1)
          \<and> display_flash_counter (midi d') =
              (if tick (led d) = 75 then display_flash_counter (midi d) + 1 else display_flash_counter (midi d)))"
  using assms by (simp add: TIMER1_OVF_vect_def Let_def)

lemma timer1_ticks:
  assumes "length (g_led_counter (led d)) = 4" "\<not> midi_clock_enabled (midi d)" "tick (led d) = 1"
  shows "n \<le> 74 \<Longrightarrow> \<exists>d'. for_run (\<lambda>_. TIMER1_OVF_vect) [0..<n] d = Inr d'
     \<and> length (g_led_counter (led d')) = 4 \<and> \<not> midi_clock_enabled (midi d')
     \<and> tick (led d') = of_nat (Suc n) \<and> display_flash_counter (midi d') = display_flash_counter (midi d)"
proof (induction n)
  case 0
  then show ?case using assms by simp
next
  case (Suc n)
  then obtain e where e: "for_run (\<lambda>_. TIMER1_OVF_vect) [0..<n] d = Inr e"
     "length (g_led_counter (led e)) = 4" "\<not> midi_clock_enabled (midi e)"
     "tick (led e) = of_nat (Suc n)" "display_flash_counter (midi e) = display_flash_counter (midi d)"
    by auto
  have "(of_nat (Suc n) :: u16) \<noteq> 75"
    using Suc.prems by (simp add: word_unat_eq_iff unat_of_nat del: of_nat_Suc)
  then show ?case using e timer1_effect [OF e(2)] by (auto simp: for_run_append)
qed

section \<open>Properties\<close>

text \<open>C21: the four strands receive exactly the display buffer.  Strand \<open>g\<close> gets keys \<open>16 * g\<close> to
  \<open>16 * g + 15\<close> in order, each key's colour twice (it has two LEDs), the third byte of the
  triple first and each byte from its most significant bit; the byte the driver reads behind
  the buffer has no influence.\<close>

theorem strands_show_buffer:
  assumes "length (g_display_buffer d) = 192"
  shows "led_frame (led (led_update_pixels d)) =
     [strand_spec (g_display_buffer d) 0, strand_spec (g_display_buffer d) 48,
      strand_spec (g_display_buffer d) 96, strand_spec (g_display_buffer d) 144]"
  using assms by (simp add: led_update_pixels_def pixel_groups Let_def strand_sent)

theorem strands_show_buffer_witness:
  "led_frame (led (led_update_pixels dev_example)) =
     [strand_spec (g_display_buffer dev_example) 0, strand_spec (g_display_buffer dev_example) 48,
      strand_spec (g_display_buffer dev_example) 96, strand_spec (g_display_buffer dev_example) 144]"
  using strands_show_buffer [of dev_example] by (simp add: dev_example_def dev_init_def)

text \<open>Without a MIDI clock the flash counter advances once every 75 timer interrupts.\<close>

theorem flash_timer_rate:
  assumes "length (g_led_counter (led d)) = 4" "\<not> midi_clock_enabled (midi d)" "tick (led d) = 1"
  shows "\<exists>d'. for_run (\<lambda>_. TIMER1_OVF_vect) [0..<75] d = Inr d' \<and> tick (led d') = 1
     \<and> display_flash_counter (midi d') = display_flash_counter (midi d) + 1"
proof -
  obtain e where e: "for_run (\<lambda>_. TIMER1_OVF_vect) [0..<74] d = Inr e"
     "length (g_led_counter (led e)) = 4" "\<not> midi_clock_enabled (midi e)"
     "tick (led e) = 75" "display_flash_counter (midi e) = display_flash_counter (midi d)"
    using timer1_ticks [OF assms, of 74] by auto
  have "[0..<75] = [0..<74] @ [74]" by (simp add: upt_rec)
  then show ?thesis using e timer1_effect [OF e(2)] by (auto simp: for_run_append)
qed

end
