(* ===== verification/Mf_Ball.thy ===== *)
theory Mf_Ball
  imports Mf_Geometric
begin

unbundle bit_operations_syntax

text \<open>
  The light show of \<^verbatim>\<open>led.c\<close>: two balls that bounce over the grid while the device sleeps.
  \<^verbatim>\<open>ball_grid[row][col]\<close> is one list, cell \<open>(row, col)\<close> at \<open>8 * row + col\<close>; a cell holds the
  number of a ball or \<^const>\<open>BALL_DEMO_MAX_BALLS\<close> for none.
\<close>

section \<open>Tables and constants\<close>

definition OVERRIDE_BALL_SLOWDOWN_FACTOR :: u8 where "OVERRIDE_BALL_SLOWDOWN_FACTOR = 0xF0"
definition BALL_DEMO_MAX_SLOWDOWN_FACTOR :: u8 where "BALL_DEMO_MAX_SLOWDOWN_FACTOR = 0xFF"
definition REPEAT_BALL_COLLISION_LIMIT :: u8 where "REPEAT_BALL_COLLISION_LIMIT = 0xFF"
definition NO_BALL :: u8 where "NO_BALL = of_nat BALL_DEMO_MAX_BALLS"

definition vertical_slowdown_factors :: "u8 list" where
  "vertical_slowdown_factors = [0x0C, 0x0A, 0x08, 0x07, 0x06, 0x05, 0x04, 0x03]"

definition grid_cell :: "u8 \<Rightarrow> u8 \<Rightarrow> nat" where
  "grid_cell row col = 8 * unat row + unat col"

text \<open>A colour index from five random bits.\<close>

definition wrap_color :: "u16 \<Rightarrow> u8" where
  "wrap_color x = (let color = ucast (x AND 0x1F) :: u8 in if color < 18 then color + 1 else color - 17)"

section \<open>Operations\<close>

definition ball_demo_setup :: "dev \<Rightarrow> dev" where
  "ball_demo_setup d = d\<lparr>balls := (balls d)\<lparr>ball_grid := map (\<lambda>_. NO_BALL) (ball_grid (balls d))\<rparr>\<rparr>"

definition place_ball :: "u8 \<Rightarrow> u8 \<Rightarrow> u8 \<Rightarrow> dev \<Rightarrow> (bool \<times> dev) run" where
  "place_ball color vpos hpos d =
     (let b = balls d; i = ball_index b; (r, g) = random16 (rng d)
      in andthen (store (ball_grid b) (grid_cell vpos hpos) (of_nat i)) (\<lambda>grid.
         andthen (store (ball_color b) i color) (\<lambda>cs.
         andthen (store (ball_horizontal_slowdown_factor b) i (8 + ucast (r AND 0x1F))) (\<lambda>hf.
         andthen (store (ball_vertical_max b) i vpos) (\<lambda>vm.
         andthen (store (ball_vertical_direction b) i False) (\<lambda>vd.
         andthen (store (ball_vertical_slowdown_factor b) i BALL_DEMO_MAX_SLOWDOWN_FACTOR) (\<lambda>vf.
         andthen (store (ball_horizontal_slowdown_counter b) i 0) (\<lambda>hc.
         andthen (store (ball_vertical_slowdown_counter b) i 0) (\<lambda>vc.
         Inr (True, d\<lparr>rng := g, balls := b\<lparr>ball_grid := grid, ball_color := cs,
           ball_horizontal_slowdown_factor := hf, ball_vertical_max := vm, ball_vertical_direction := vd,
           ball_vertical_slowdown_factor := vf, ball_horizontal_slowdown_counter := hc,
           ball_vertical_slowdown_counter := vc,
           ball_index := (i + 1) mod BALL_DEMO_MAX_BALLS\<rparr>\<rparr>))))))))))"

definition drop_ball :: "bool \<Rightarrow> u8 \<Rightarrow> u8 \<Rightarrow> u8 \<Rightarrow> dev \<Rightarrow> (bool \<times> dev) run" where
  "drop_ball direction color vpos hpos d =
     andthen (store (ball_horizontal_direction (balls d)) (ball_index (balls d)) direction) (\<lambda>hd.
     andthen (load (ball_grid (balls d)) (grid_cell vpos hpos)) (\<lambda>there.
       let d = d\<lparr>balls := (balls d)\<lparr>ball_horizontal_direction := hd\<rparr>\<rparr>
       in if there < NO_BALL then Inr (False, d) else place_ball color vpos hpos d))"

definition new_ball :: "dev \<Rightarrow> (bool \<times> dev) run" where
  "new_ball d =
     (let counter = new_ball_delay_counter (balls d) + 1
      in if counter < BALL_DEMO_NEW_BALL_DELAY_LIMIT
         then Inr (False, d\<lparr>balls := (balls d)\<lparr>new_ball_delay_counter := counter\<rparr>\<rparr>)
         else
           let direction = (\<not> new_ball_direction (balls d));
               (r1, g1) = random16 (rng d);
               color = wrap_color r1;
               hpos = (if direction then 7 else 0);
               (r2, g2) = random16 g1;
               v = ucast (r2 AND 0x07) + 2;
               vpos = (if v \<ge> 8 then 7 else v)
           in drop_ball direction color vpos hpos (d\<lparr>rng := g2,
                balls := (balls d)\<lparr>new_ball_delay_counter := 0, new_ball_direction := direction\<rparr>\<rparr>))"

definition move_ball_vertically :: "u8 \<Rightarrow> u8 \<Rightarrow> ball_globals \<Rightarrow> (u8 \<times> ball_globals) run" where
  "move_ball_vertically ball_id this_row b =
     (let i = unat ball_id
      in andthen (load (ball_vertical_slowdown_counter b) i) (\<lambda>c.
         andthen (load (ball_vertical_max b) i) (\<lambda>vmax.
         andthen (load (ball_vertical_direction b) i) (\<lambda>dir.
         let vertical_count = c + 1;
             base_row_offset = (vmax - this_row) AND 0x07
         in andthen (load vertical_slowdown_factors (unat base_row_offset)) (\<lambda>f.
            if vertical_count \<ge> f
            then let new_row = (if dir then this_row - 1 else this_row + 1)
                 in if new_row \<le> vmax
                    then andthen (store (ball_vertical_slowdown_counter b) i 0) (\<lambda>cs.
                      Inr (new_row, b\<lparr>ball_vertical_slowdown_counter := cs\<rparr>))
                    else andthen (store (ball_vertical_direction b) i (\<not> dir)) (\<lambda>dirs.
                         andthen (store (ball_vertical_slowdown_counter b) i f) (\<lambda>cs.
                         Inr (this_row, b\<lparr>ball_vertical_direction := dirs,
                                          ball_vertical_slowdown_counter := cs\<rparr>)))
            else andthen (store (ball_vertical_slowdown_counter b) i vertical_count) (\<lambda>cs.
              Inr (this_row, b\<lparr>ball_vertical_slowdown_counter := cs\<rparr>)))))))"

definition move_ball_horizontally :: "u8 \<Rightarrow> u8 \<Rightarrow> ball_globals \<Rightarrow> (u8 \<times> ball_globals) run" where
  "move_ball_horizontally ball_id this_col b =
     (let i = unat ball_id
      in andthen (load (ball_horizontal_slowdown_counter b) i) (\<lambda>c.
         andthen (load (ball_horizontal_slowdown_factor b) i) (\<lambda>f.
         andthen (load (ball_horizontal_direction b) i) (\<lambda>dir.
         let horizontal_count = c + 1
         in if horizontal_count \<ge> f
            then let new_col = (if dir then this_col - 1 else this_col + 1)
                 in if new_col < 8
                    then andthen (store (ball_horizontal_slowdown_counter b) i 0) (\<lambda>cs.
                      Inr (new_col, b\<lparr>ball_horizontal_slowdown_counter := cs\<rparr>))
                    else andthen (store (ball_horizontal_direction b) i (\<not> dir)) (\<lambda>dirs.
                         andthen (store (ball_horizontal_slowdown_counter b) i f) (\<lambda>cs.
                         Inr (this_col, b\<lparr>ball_horizontal_direction := dirs,
                                          ball_horizontal_slowdown_counter := cs\<rparr>)))
            else andthen (store (ball_horizontal_slowdown_counter b) i horizontal_count) (\<lambda>cs.
              Inr (this_col, b\<lparr>ball_horizontal_slowdown_counter := cs\<rparr>))))))"

definition change_ball_colors_after_collision :: "u8 \<Rightarrow> u8 \<Rightarrow> dev \<Rightarrow> dev run" where
  "change_ball_colors_after_collision this_ball that_ball d =
     (let (r, g) = random16 (rng d)
      in andthen (store (ball_color (balls d)) (unat that_ball) (wrap_color (drop_bit 5 r))) (\<lambda>cs.
         Inr (d\<lparr>rng := g, balls := (balls d)\<lparr>ball_color := cs\<rparr>\<rparr>)))"

definition repeat_collision_limit_reached :: "u8 \<Rightarrow> u8 \<Rightarrow> ball_globals \<Rightarrow> bool \<times> ball_globals" where
  "repeat_collision_limit_reached this_ball that_ball b =
     (if this_ball = last_this_ball b \<and> that_ball = last_that_ball b
         \<or> this_ball = last_that_ball b \<and> that_ball = last_this_ball b
      then (let n = repeat_collision_counter b + 1
            in if n \<ge> REPEAT_BALL_COLLISION_LIMIT then (True, b\<lparr>repeat_collision_counter := 0\<rparr>)
               else (False, b\<lparr>repeat_collision_counter := n\<rparr>))
      else (False, b\<lparr>repeat_collision_counter := 0\<rparr>))"

text \<open>The two bounces: which way the balls go after they met, and the ball to move next turn.\<close>

definition bounce_vertically :: "bool \<Rightarrow> u8 \<Rightarrow> u8 \<Rightarrow> dev \<Rightarrow> dev run" where
  "bounce_vertically this_dir this_ball that_ball d =
     andthen (store (ball_vertical_direction (balls d)) (unat this_ball) this_dir) (\<lambda>ds.
     andthen (store ds (unat that_ball) (\<not> this_dir)) (\<lambda>ds.
     andthen (store (ball_vertical_slowdown_counter (balls d)) (unat this_ball) OVERRIDE_BALL_SLOWDOWN_FACTOR) (\<lambda>cs.
     change_ball_colors_after_collision this_ball that_ball
       (d\<lparr>balls := (balls d)\<lparr>ball_vertical_direction := ds, ball_vertical_slowdown_counter := cs\<rparr>\<rparr>))))"

definition bounce_horizontally :: "bool \<Rightarrow> u8 \<Rightarrow> u8 \<Rightarrow> dev \<Rightarrow> dev run" where
  "bounce_horizontally this_dir this_ball that_ball d =
     andthen (store (ball_horizontal_direction (balls d)) (unat this_ball) this_dir) (\<lambda>ds.
     andthen (store ds (unat that_ball) (\<not> this_dir)) (\<lambda>ds.
     andthen (store (ball_horizontal_slowdown_counter (balls d)) (unat this_ball) OVERRIDE_BALL_SLOWDOWN_FACTOR) (\<lambda>cs.
     change_ball_colors_after_collision this_ball that_ball
       (d\<lparr>balls := (balls d)\<lparr>ball_horizontal_direction := ds, ball_horizontal_slowdown_counter := cs\<rparr>\<rparr>))))"

definition explode :: "u8 \<times> u8 \<Rightarrow> u8 \<times> u8 \<Rightarrow> u8 \<Rightarrow> dev \<Rightarrow> (u8 \<times> dev) run" where
  "explode here there balls_on_grid d = (case here of (this_row, this_col) \<Rightarrow> case there of (new_row, new_col) \<Rightarrow>
     (let (r, g) = random16 (rng d)
      in andthen (start_geometric_animation (get_button_id_from_row_column this_row this_col)
             (ucast (r AND 0x03)) (d\<lparr>rng := g\<rparr>)) (\<lambda>d.
         andthen (store (ball_grid (balls d)) (grid_cell this_row this_col) NO_BALL) (\<lambda>grid.
         andthen (store grid (grid_cell new_row new_col) NO_BALL) (\<lambda>grid.
         Inr (if new_row < this_row \<or> new_col < this_col then balls_on_grid - 2 else balls_on_grid,
              d\<lparr>balls := (balls d)\<lparr>ball_grid := grid\<rparr>\<rparr>))))))"

definition ball_collision :: "u8 \<Rightarrow> u8 \<Rightarrow> u8 \<times> u8 \<Rightarrow> u8 \<times> u8 \<Rightarrow> bool list \<times> u8 \<times> dev
    \<Rightarrow> (bool list \<times> u8 \<times> dev) run" where
  "ball_collision this_ball that_ball here there s =
     (case s of (disabled, balls_on_grid, d) \<Rightarrow> case here of (this_row, this_col) \<Rightarrow>
      case there of (new_row, new_col) \<Rightarrow>
      andthen (load disabled (unat this_ball)) (\<lambda>dis.
      andthen (if dis then Inr (balls_on_grid + 1, d)
               else let (limit, b) = repeat_collision_limit_reached this_ball that_ball (balls d);
                        d = d\<lparr>balls := b\<rparr>
                    in if limit then explode here there (balls_on_grid + 1) d
                       else if new_row > this_row
                       then andthen (bounce_vertically False this_ball that_ball d) (\<lambda>d. Inr (balls_on_grid + 1, d))
                       else if new_row < this_row
                       then andthen (bounce_vertically True this_ball that_ball d) (\<lambda>d. Inr (balls_on_grid + 1, d))
                       else Inr (balls_on_grid + 1, d)) (\<lambda>(balls_on_grid, d).
      andthen (if new_col > this_col then bounce_horizontally False this_ball that_ball d
               else if new_col < this_col then bounce_horizontally True this_ball that_ball d
               else Inr d) (\<lambda>d.
      andthen (store disabled (unat that_ball) True) (\<lambda>disabled.
      Inr (disabled, balls_on_grid, d))))))"

definition ball_cell_step :: "nat \<times> nat \<Rightarrow> bool list \<times> u8 \<times> dev \<Rightarrow> (bool list \<times> u8 \<times> dev) run" where
  "ball_cell_step cell s = (case cell of (row, col) \<Rightarrow> case s of (disabled, balls_on_grid, d) \<Rightarrow>
     (let this_row = of_nat row; this_col = of_nat col
      in andthen (load (ball_grid (balls d)) (grid_cell this_row this_col)) (\<lambda>this_ball.
         if this_ball < NO_BALL then
           andthen (move_ball_horizontally this_ball this_col (balls d)) (\<lambda>(new_col, b).
           andthen (move_ball_vertically this_ball this_row b) (\<lambda>(new_row, b).
           let d = d\<lparr>balls := b\<rparr>
           in andthen (load (ball_grid b) (grid_cell new_row new_col)) (\<lambda>that_ball.
              if that_ball \<ge> NO_BALL then
                andthen (store (ball_grid b) (grid_cell this_row this_col) NO_BALL) (\<lambda>grid.
                andthen (store grid (grid_cell new_row new_col) this_ball) (\<lambda>grid.
                Inr (disabled, balls_on_grid + 1, d\<lparr>balls := b\<lparr>ball_grid := grid\<rparr>\<rparr>)))
              else if that_ball = this_ball then Inr (disabled, balls_on_grid + 1, d)
              else ball_collision this_ball that_ball (this_row, this_col) (new_row, new_col)
                     (disabled, balls_on_grid, d))))
         else Inr (disabled, balls_on_grid, d))))"

definition grid_scan :: "(nat \<times> nat) list" where
  "grid_scan = concat (map (\<lambda>row. map (\<lambda>col. (row, col)) [0..<8]) [0..<8])"

definition ball_demo_update :: "dev \<Rightarrow> dev run" where
  "ball_demo_update d =
     andthen (store (g_led_counter (led d)) 2 0x30) (\<lambda>cs.
     andthen (for_run ball_cell_step grid_scan
                (replicate 64 False, 0, d\<lparr>led := (led d)\<lparr>g_led_counter := cs\<rparr>\<rparr>)) (\<lambda>(disabled, balls_on_grid, d).
     if balls_on_grid < NO_BALL then andthen (new_ball d) (\<lambda>(status, d). Inr d) else Inr d))"

definition draw_ball_cell :: "nat \<times> nat \<Rightarrow> dev \<Rightarrow> dev run" where
  "draw_ball_cell cell d = (case cell of (row, col) \<Rightarrow>
     (let btn_id = get_button_id_from_row_column (of_nat row) (of_nat col)
      in andthen (load (ball_grid (balls d)) (grid_cell (of_nat row) (of_nat col))) (\<lambda>ball_id.
         andthen (if ball_id \<ge> NO_BALL then Inr 0 else load (ball_color (balls d)) (unat ball_id)) (\<lambda>color.
         andthen (load3 default_color (3 * unat color)) (\<lambda>(r, g, b).
         andthen (store3 (g_display_buffer d) (3 * unat btn_id) (b, r, g)) (\<lambda>buffer.
         Inr (d\<lparr>g_display_buffer := buffer\<rparr>)))))))"

definition ball_demo_run :: "dev \<Rightarrow> dev run" where
  "ball_demo_run d =
     andthen (load (g_led_counter (led d)) 2) (\<lambda>c.
     andthen (if c = 0 then ball_demo_update d else Inr d)
       (for_run draw_ball_cell grid_scan))"

section \<open>Invariant\<close>

definition ball_wf :: "ball_globals \<Rightarrow> bool" where
  "ball_wf b \<longleftrightarrow> ball_index b < 2 \<and> length (ball_horizontal_direction b) = 2
     \<and> length (ball_horizontal_slowdown_factor b) = 2 \<and> length (ball_horizontal_slowdown_counter b) = 2
     \<and> length (ball_vertical_direction b) = 2 \<and> length (ball_vertical_slowdown_counter b) = 2
     \<and> length (ball_vertical_slowdown_factor b) = 2 \<and> length (ball_vertical_max b) = 2
     \<and> length (ball_color b) = 2 \<and> length (ball_grid b) = 64
     \<and> list_all (\<lambda>v. v < 8) (ball_vertical_max b) \<and> list_all (\<lambda>c. c < 20) (ball_color b)"

text \<open>What the light show leaves alone.\<close>

definition ball_frame where
  "ball_frame d = (key_g d, midi d, combo_g d, ee d, colors d, (led d)\<lparr>g_led_counter := []\<rparr>, watchdog_flag d)"

definition show_wf :: "dev \<Rightarrow> bool" where
  "show_wf d \<longleftrightarrow> disp_wf d \<and> ball_wf (balls d)"

lemma list_all_update: "list_all P xs \<Longrightarrow> P x \<Longrightarrow> list_all P (xs[i := x])"
  by (auto simp: list_all_iff dest: set_update_subset_insert [THEN subsetD])

lemma NO_BALL: "NO_BALL = 2"
  by (simp add: NO_BALL_def BALL_DEMO_MAX_BALLS_def)

lemma u8_less_2: "(x :: u8) < 2 \<Longrightarrow> unat x < 2"
  by (simp add: word_less_nat_alt)

lemma u8_less_8: "(x :: u8) < 8 \<Longrightarrow> unat x < 8"
  by (simp add: word_less_nat_alt)

lemma u8_pred_wrap: "(row :: u8) < row - 1 \<Longrightarrow> row - 1 = 0xFF"
  by (cases "row = 0") (simp_all add: word_less_nat_alt unat_minus_one)

lemma grid_cell_less: "row < 8 \<Longrightarrow> col < 8 \<Longrightarrow> grid_cell row col < 64"
  by (drule u8_less_8)+ (simp add: grid_cell_def)

lemma wrap_color_less: "wrap_color x < 20"
proof -
  let ?c = "ucast (x AND 0x1F) :: u8"
  have "unat (x AND 0x1F) \<le> 31" using word_and_le1 [of x "0x1F"] by (simp add: word_le_nat_alt)
  then have c: "unat ?c \<le> 31" by (simp add: unsigned_ucast_eq take_bit_nat_eq_self)
  show ?thesis
  proof (cases "?c < 18")
    case True
    then show ?thesis
      by (simp add: wrap_color_def Let_def word_less_nat_alt unat_word_ariths)
  next
    case False
    then have "17 \<le> unat ?c" by (simp add: word_less_nat_alt)
    then have "unat (?c - 17) = unat ?c - 17" by (subst unat_sub) (simp_all add: word_le_nat_alt)
    with False c show ?thesis by (simp add: wrap_color_def Let_def word_less_nat_alt)
  qed
qed

lemma move_h_total:
  assumes "ball_wf b" "i < 2" "col < 8"
  shows "\<exists>c b'. move_ball_horizontally i col b = Inr (c, b') \<and> c < 8 \<and> ball_wf b' \<and> ball_grid b' = ball_grid b"
  using assms u8_less_2 [OF assms(2)]
  by (simp add: move_ball_horizontally_def Let_def ball_wf_def)

lemma factor_index: "unat ((x :: u8) AND 7) < length vertical_slowdown_factors"
  using word_and_le1 [of x 7] by (simp add: vertical_slowdown_factors_def word_le_nat_alt)

lemma move_v_total:
  assumes "ball_wf b" "i < 2" "row < 8"
  shows "\<exists>r b'. move_ball_vertically i row b = Inr (r, b') \<and> r < 8 \<and> ball_wf b' \<and> ball_grid b' = ball_grid b"
proof -
  have "ball_vertical_max b ! unat i < 8"
    using assms u8_less_2 [OF assms(2)] by (simp add: ball_wf_def list_all_length)
  then have "r \<le> ball_vertical_max b ! unat i \<Longrightarrow> r < 8" for r by (meson order.strict_trans1)
  then show ?thesis using assms u8_less_2 [OF assms(2)] factor_index
    by (simp add: move_ball_vertically_def Let_def ball_wf_def)
qed

lemma repeat_collision_frame:
  "repeat_collision_limit_reached i j b = (limit, b') \<Longrightarrow> ball_wf b \<Longrightarrow> ball_wf b' \<and> ball_grid b' = ball_grid b"
  by (auto simp: repeat_collision_limit_reached_def ball_wf_def Let_def split: if_splits)

text \<open>Every operation of the light show, in one contract: it returns, and keeps the invariant
  and the rest of the device.\<close>

definition show_ok :: "dev \<Rightarrow> dev \<Rightarrow> bool" where
  "show_ok d d' \<longleftrightarrow> show_wf d' \<and> ball_frame d' = ball_frame d"

lemma show_ok_refl: "show_wf d \<Longrightarrow> show_ok d d"
  by (simp add: show_ok_def)

lemma show_ok_trans: "show_ok d e \<Longrightarrow> show_ok e f \<Longrightarrow> show_ok d f"
  by (simp add: show_ok_def)

lemma show_ok_wf: "show_ok d e \<Longrightarrow> show_wf e"
  by (simp add: show_ok_def)

lemma show_ok_balls:
  "show_wf d \<Longrightarrow> ball_wf b \<Longrightarrow> show_ok d (d\<lparr>balls := b\<rparr>)"
  "show_wf d \<Longrightarrow> ball_wf b \<Longrightarrow> show_ok d (d\<lparr>rng := g, balls := b\<rparr>)"
  "show_wf d \<Longrightarrow> show_ok d (d\<lparr>rng := g\<rparr>)"
  by (simp_all add: show_ok_def show_wf_def disp_wf_def ball_frame_def)

lemma change_colors_total:
  assumes "show_wf d" "j < 2"
  shows "\<exists>d'. change_ball_colors_after_collision i j d = Inr d' \<and> show_ok d d'"
proof -
  obtain r g where rg: "random16 (rng d) = (r, g)" by (cases "random16 (rng d)")
  let ?b = "(balls d)\<lparr>ball_color := (ball_color (balls d))[unat j := wrap_color (drop_bit 5 r)]\<rparr>"
  have "ball_wf ?b"
    using assms by (simp add: show_wf_def ball_wf_def list_all_update wrap_color_less)
  moreover have "change_ball_colors_after_collision i j d = Inr (d\<lparr>rng := g, balls := ?b\<rparr>)"
    using assms u8_less_2 [OF assms(2)]
    by (simp add: change_ball_colors_after_collision_def rg show_wf_def ball_wf_def)
  ultimately show ?thesis using assms show_ok_balls(2) by blast
qed

lemma bounce_total:
  assumes "show_wf d" "i < 2" "j < 2"
  shows "\<exists>d'. bounce_vertically dir i j d = Inr d' \<and> show_ok d d'"
    and "\<exists>d'. bounce_horizontally dir i j d = Inr d' \<and> show_ok d d'"
proof -
  note ij = u8_less_2 [OF assms(2)] u8_less_2 [OF assms(3)]
  let ?v = "(balls d)\<lparr>ball_vertical_direction := (ball_vertical_direction (balls d))[unat i := dir, unat j := \<not> dir],
     ball_vertical_slowdown_counter := (ball_vertical_slowdown_counter (balls d))[unat i := OVERRIDE_BALL_SLOWDOWN_FACTOR]\<rparr>"
  have v: "show_ok d (d\<lparr>balls := ?v\<rparr>)"
    using assms by (intro show_ok_balls) (simp_all add: show_wf_def ball_wf_def)
  obtain d1 where "change_ball_colors_after_collision i j (d\<lparr>balls := ?v\<rparr>) = Inr d1"
      "show_ok (d\<lparr>balls := ?v\<rparr>) d1"
    using change_colors_total [OF show_ok_wf [OF v] assms(3)] by blast
  with v ij assms(1) show "\<exists>d'. bounce_vertically dir i j d = Inr d' \<and> show_ok d d'"
    by (auto simp: bounce_vertically_def show_wf_def ball_wf_def intro: show_ok_trans)
  let ?h = "(balls d)\<lparr>ball_horizontal_direction := (ball_horizontal_direction (balls d))[unat i := dir, unat j := \<not> dir],
     ball_horizontal_slowdown_counter := (ball_horizontal_slowdown_counter (balls d))[unat i := OVERRIDE_BALL_SLOWDOWN_FACTOR]\<rparr>"
  have h: "show_ok d (d\<lparr>balls := ?h\<rparr>)"
    using assms by (intro show_ok_balls) (simp_all add: show_wf_def ball_wf_def)
  obtain d2 where "change_ball_colors_after_collision i j (d\<lparr>balls := ?h\<rparr>) = Inr d2"
      "show_ok (d\<lparr>balls := ?h\<rparr>) d2"
    using change_colors_total [OF show_ok_wf [OF h] assms(3)] by blast
  with h ij assms(1) show "\<exists>d'. bounce_horizontally dir i j d = Inr d' \<and> show_ok d d'"
    by (auto simp: bounce_horizontally_def show_wf_def ball_wf_def intro: show_ok_trans)
qed

lemma explode_total:
  assumes "show_wf d" "in_grid r c" "in_grid r' c'"
  shows "\<exists>n' d'. explode (r, c) (r', c') n d = Inr (n', d') \<and> show_ok d d'"
proof -
  obtain x g where rg: "random16 (rng d) = (x, g)" by (cases "random16 (rng d)")
  have wf: "disp_wf (d\<lparr>rng := g\<rparr>)" using assms by (simp add: show_wf_def disp_wf_def)
  obtain e where e: "start_geometric_animation (get_button_id_from_row_column r c) (ucast (x AND 0x03))
      (d\<lparr>rng := g\<rparr>) = Inr e" "disp_wf e" "display_frame e = display_frame (d\<lparr>rng := g\<rparr>)"
    using start_geometric_animation_total [OF wf button_id_in_grid(1) [OF assms(2)]] by blast
  then have "ball_wf (balls e)" "ball_frame e = ball_frame d" "length (ball_grid (balls e)) = 64"
    using assms(1) by (auto simp: show_wf_def display_frame_def ball_frame_def ball_wf_def)
  moreover have "grid_cell r c < 64" "grid_cell r' c' < 64"
    using assms(2,3) grid_cell_less by (simp_all add: in_grid_def)
  ultimately show ?thesis using e(1,2)
    by (simp add: explode_def rg show_ok_def show_wf_def disp_wf_def ball_wf_def ball_frame_def)
qed

definition scan_ok :: "dev \<Rightarrow> bool list \<times> u8 \<times> dev \<Rightarrow> bool" where
  "scan_ok d0 s = (case s of (disabled, n, d) \<Rightarrow> length disabled = 64 \<and> show_ok d0 d)"

lemma collision_vertical_total:
  assumes "show_wf d" "i < 2" "j < 2" "in_grid r c" "in_grid r' c'"
  shows "\<exists>x. (let (limit, b) = repeat_collision_limit_reached i j (balls d); d = d\<lparr>balls := b\<rparr>
       in if limit then explode (r, c) (r', c') (n + 1) d
          else if r' > r then andthen (bounce_vertically False i j d) (\<lambda>d. Inr (n + 1, d))
          else if r' < r then andthen (bounce_vertically True i j d) (\<lambda>d. Inr (n + 1, d))
          else Inr (n + 1, d)) = Inr x \<and> show_ok d (snd x)"
proof -
  obtain limit b where lb: "repeat_collision_limit_reached i j (balls d) = (limit, b)" by fastforce
  let ?e = "d\<lparr>balls := b\<rparr>"
  have e: "show_ok d ?e" "show_wf ?e"
    using assms(1) repeat_collision_frame [OF lb] show_ok_balls(1) [of d b] show_ok_wf
    by (auto simp: show_wf_def)
  have "\<exists>x. explode (r, c) (r', c') (n + 1) ?e = Inr x \<and> show_ok d (snd x)"
    using explode_total [OF e(2) assms(4,5)] e(1) show_ok_trans by (metis snd_conv)
  moreover have "\<exists>x. andthen (bounce_vertically dir i j ?e) (\<lambda>d. Inr (n + 1, d)) = Inr x \<and> show_ok d (snd x)"
    for dir using bounce_total(1) [OF e(2) assms(2,3)] e(1) show_ok_trans by (metis andthen_simps(2) snd_conv)
  ultimately show ?thesis using e(1) by (simp add: lb Let_def)
qed

lemma ball_collision_total:
  assumes "scan_ok d0 (disabled, n, d)" "i < 2" "j < 2" "in_grid r c" "in_grid r' c'"
  shows "\<exists>s'. ball_collision i j (r, c) (r', c') (disabled, n, d) = Inr s' \<and> scan_ok d0 s'"
proof -
  have d: "show_wf d" "show_ok d0 d" "length disabled = 64"
    using assms(1) by (auto simp: scan_ok_def show_ok_def)
  have ij: "unat i < 64" "unat j < 64" using u8_less_2 [OF assms(2)] u8_less_2 [OF assms(3)] by simp_all
  let ?first = "if disabled ! unat i then Inr (n + 1, d)
     else let (limit, b) = repeat_collision_limit_reached i j (balls d); d = d\<lparr>balls := b\<rparr>
       in if limit then explode (r, c) (r', c') (n + 1) d
          else if r' > r then andthen (bounce_vertically False i j d) (\<lambda>d. Inr (n + 1, d))
          else if r' < r then andthen (bounce_vertically True i j d) (\<lambda>d. Inr (n + 1, d))
          else Inr (n + 1, d)"
  obtain m e where e: "?first = Inr (m, e)" "show_ok d e"
    using collision_vertical_total [OF d(1) assms(2-5), of n] show_ok_refl [OF d(1)]
    by (cases "disabled ! unat i") auto
  have "show_wf e" using e(2) by (rule show_ok_wf)
  then have "\<exists>f. (if c' > c then bounce_horizontally False i j e
      else if c' < c then bounce_horizontally True i j e else Inr e) = Inr f \<and> show_ok e f"
    using bounce_total(2) assms(2,3) show_ok_refl by simp
  then obtain f where f: "(if c' > c then bounce_horizontally False i j e
      else if c' < c then bounce_horizontally True i j e else Inr e) = Inr f" "show_ok e f" by blast
  have "ball_collision i j (r, c) (r', c') (disabled, n, d) = Inr (disabled[unat j := True], m, f)"
    using e(1) f(1) ij d(3) by (simp add: ball_collision_def)
  moreover have "show_ok d0 f" using d(2) e(2) f(2) by (blast intro: show_ok_trans)
  ultimately show ?thesis using d(3) by (simp add: scan_ok_def)
qed

lemma ball_cell_step_total:
  assumes "scan_ok d0 s" "row < 8" "col < 8"
  shows "\<exists>s'. ball_cell_step (row, col) s = Inr s' \<and> scan_ok d0 s'"
proof -
  obtain disabled n d where s: "s = (disabled, n, d)" by (cases s)
  have d: "show_ok d0 d" "length disabled = 64" "show_wf d" "ball_wf (balls d)"
    using assms(1) s by (auto simp: scan_ok_def show_ok_def show_wf_def)
  have rc: "(of_nat row :: u8) < 8" "(of_nat col :: u8) < 8"
    using assms(2,3) by (simp_all add: word_less_nat_alt unat_of_nat)
  let ?r = "of_nat row :: u8" and ?c = "of_nat col :: u8"
  have cell: "grid_cell ?r ?c < length (ball_grid (balls d))"
    using grid_cell_less [OF rc] d(4) by (simp add: ball_wf_def)
  define i where "i = ball_grid (balls d) ! grid_cell ?r ?c"
  show ?thesis
  proof (cases "i < 2")
    case False
    then show ?thesis using s d assms(1) cell by (simp add: ball_cell_step_def i_def NO_BALL)
  next
    case True
    obtain c' b1 where h: "move_ball_horizontally i ?c (balls d) = Inr (c', b1)" "c' < 8" "ball_wf b1"
      "ball_grid b1 = ball_grid (balls d)" using move_h_total [OF d(4) True rc(2)] by blast
    obtain r' b where v: "move_ball_vertically i ?r b1 = Inr (r', b)" "r' < 8" "ball_wf b"
      "ball_grid b = ball_grid (balls d)" using move_v_total [OF h(3) True rc(1)] h(4) by metis
    have cell': "grid_cell r' c' < length (ball_grid b)"
      using grid_cell_less [OF v(2) h(2)] v(3) by (simp add: ball_wf_def)
    define j where "j = ball_grid (balls d) ! grid_cell r' c'"
    have b: "show_ok d0 (d\<lparr>balls := b\<rparr>)" "show_ok d0 (d\<lparr>balls := b\<lparr>ball_grid := g\<rparr>\<rparr>)" if "length g = 64" for g
      using d(1) show_ok_balls(1) [OF d(3)] v(3) that
      by (auto intro: show_ok_trans simp: ball_wf_def)
    have moved: "\<exists>s'. ball_collision i j (?r, ?c) (r', c') (disabled, n, d\<lparr>balls := b\<rparr>) = Inr s' \<and> scan_ok d0 s'"
      if "j < 2" using that True rc h(2) v(2) d(2) b(1) [of "replicate 64 0"]
      by (intro ball_collision_total) (simp_all add: scan_ok_def in_grid_def)
    have step: "ball_cell_step (row, col) s =
      (if j \<ge> 2 then Inr (disabled, n + 1, d\<lparr>balls := b\<lparr>ball_grid :=
            (ball_grid b)[grid_cell ?r ?c := 2, grid_cell r' c' := i]\<rparr>\<rparr>)
       else if j = i then Inr (disabled, n + 1, d\<lparr>balls := b\<rparr>)
       else ball_collision i j (?r, ?c) (r', c') (disabled, n, d\<lparr>balls := b\<rparr>))"
      using True cell cell' h(1) v(1,4)
      by (simp add: s ball_cell_step_def Let_def i_def [symmetric] NO_BALL j_def [symmetric])
    show ?thesis
      using moved b d(2) v(3) unfolding step by (auto simp: scan_ok_def ball_wf_def not_le)
  qed
qed

lemma grid_scan_set: "(row, col) \<in> set grid_scan \<longleftrightarrow> row < 8 \<and> col < 8"
  by (auto simp: grid_scan_def image_iff)

lemma place_ball_total:
  assumes "show_wf d" "v < 8" "h < 8" "color < 20"
  shows "\<exists>x. place_ball color v h d = Inr x \<and> show_ok d (snd x)"
proof -
  obtain r g where rg: "random16 (rng d) = (r, g)" by (cases "random16 (rng d)")
  have b: "ball_wf (balls d)" "grid_cell v h < length (ball_grid (balls d))"
    using assms grid_cell_less [OF assms(2,3)] by (simp_all add: show_wf_def ball_wf_def)
  then show ?thesis using assms
    by (simp add: place_ball_def rg Let_def ball_wf_def show_ok_def show_wf_def disp_wf_def
        ball_frame_def list_all_update BALL_DEMO_MAX_BALLS_def)
qed

lemma drop_ball_total:
  assumes "show_wf d" "v < 8" "h < 8" "color < 20"
  shows "\<exists>x. drop_ball dir color v h d = Inr x \<and> show_ok d (snd x)"
proof -
  let ?e = "d\<lparr>balls := (balls d)\<lparr>ball_horizontal_direction :=
     (ball_horizontal_direction (balls d))[ball_index (balls d) := dir]\<rparr>\<rparr>"
  have e: "show_ok d ?e" using assms(1) by (intro show_ok_balls) (simp_all add: show_wf_def ball_wf_def)
  have len: "ball_index (balls d) < length (ball_horizontal_direction (balls d))"
    "grid_cell v h < length (ball_grid (balls d))"
    using assms(1) grid_cell_less [OF assms(2,3)] by (simp_all add: show_wf_def ball_wf_def)
  show ?thesis
    using len e place_ball_total [OF show_ok_wf [OF e] assms(2-4)] show_ok_trans [OF e]
    by (cases "ball_grid (balls d) ! grid_cell v h < NO_BALL") (auto simp: drop_ball_def Let_def)
qed

lemma new_ball_total:
  assumes "show_wf d"
  shows "\<exists>x. new_ball d = Inr x \<and> show_ok d (snd x)"
proof (cases "new_ball_delay_counter (balls d) + 1 < BALL_DEMO_NEW_BALL_DELAY_LIMIT")
  case True
  then show ?thesis using assms
    by (simp add: new_ball_def Let_def show_ok_def show_wf_def disp_wf_def ball_frame_def ball_wf_def)
next
  case False
  define dir where "dir = (\<not> new_ball_direction (balls d))"
  obtain r1 g1 where rg1: "random16 (rng d) = (r1, g1)" by (cases "random16 (rng d)")
  obtain r2 g2 where rg2: "random16 g1 = (r2, g2)" by (cases "random16 g1")
  define h where "h = (if dir then 7 else 0 :: u8)"
  define v where "v = (if (ucast (r2 AND 0x07) + 2 :: u8) \<ge> 8 then 7 else ucast (r2 AND 0x07) + 2 :: u8)"
  define e where "e = d\<lparr>rng := g2,
     balls := (balls d)\<lparr>new_ball_delay_counter := 0, new_ball_direction := dir\<rparr>\<rparr>"
  have hv: "v < 8" "h < 8" by (simp_all add: h_def v_def not_le)
  have e: "show_ok d e"
    unfolding e_def using assms by (intro show_ok_balls) (simp_all add: show_wf_def ball_wf_def)
  have "new_ball d = drop_ball dir (wrap_color r1) v h e"
    using False unfolding new_ball_def Let_def rg1 rg2 prod.case dir_def h_def v_def e_def
    by (simp only: rg2 prod.case if_False)
  moreover obtain x where "drop_ball dir (wrap_color r1) v h e = Inr x" "show_ok e (snd x)"
    using drop_ball_total [OF show_ok_wf [OF e] hv wrap_color_less] by blast
  ultimately show ?thesis using show_ok_trans [OF e] by simp
qed

lemma ball_demo_update_total:
  assumes "show_wf d"
  shows "\<exists>d'. ball_demo_update d = Inr d' \<and> show_ok d d'"
proof -
  let ?d = "d\<lparr>led := (led d)\<lparr>g_led_counter := (g_led_counter (led d))[2 := 0x30]\<rparr>\<rparr>"
  have d: "show_ok d ?d" "2 < length (g_led_counter (led d))"
    using assms by (simp_all add: show_ok_def show_wf_def disp_wf_def ball_frame_def)
  have "\<exists>t. for_run ball_cell_step grid_scan (replicate 64 False, 0, ?d) = Inr t \<and> scan_ok d t"
  proof (rule for_run_total)
    show "scan_ok d (replicate 64 False, 0, ?d)" using d by (simp add: scan_ok_def)
    show "\<exists>s'. ball_cell_step x s = Inr s' \<and> scan_ok d s'" if "x \<in> set grid_scan" "scan_ok d s" for x s
      using that by (metis grid_scan_set ball_cell_step_total surj_pair)
  qed
  then obtain dis n e where t: "for_run ball_cell_step grid_scan (replicate 64 False, 0, ?d) = Inr (dis, n, e)"
    "show_ok d e" by (auto simp: scan_ok_def)
  obtain x f where "new_ball e = Inr (x, f)" "show_ok d f"
    using new_ball_total [OF show_ok_wf [OF t(2)]] t(2) show_ok_trans by force
  then show ?thesis using t d(2) by (simp add: ball_demo_update_def)
qed

lemma draw_ball_cell_total:
  assumes "show_wf d" "row < 8" "col < 8"
  shows "\<exists>d'. draw_ball_cell (row, col) d = Inr d' \<and> show_ok d d'"
proof -
  let ?r = "of_nat row :: u8" and ?c = "of_nat col :: u8"
  have rc: "?r < 8" "?c < 8" using assms(2,3) by (simp_all add: word_less_nat_alt unat_of_nat)
  have cell: "grid_cell ?r ?c < length (ball_grid (balls d))"
    using grid_cell_less [OF rc] assms(1) by (simp add: show_wf_def ball_wf_def)
  let ?i = "ball_grid (balls d) ! grid_cell ?r ?c"
  have "\<exists>color. (if ?i \<ge> NO_BALL then Inr 0 else load (ball_color (balls d)) (unat ?i)) = Inr color \<and> color < 20"
    using assms(1) u8_less_2 [of ?i]
    by (auto simp: NO_BALL not_le show_wf_def ball_wf_def list_all_length)
  then obtain color where color: "(if ?i \<ge> NO_BALL then Inr 0 else load (ball_color (balls d)) (unat ?i)) = Inr color"
    "color < 20" by blast
  have idx: "cell_index ?r ?c + 2 < length (g_display_buffer d)"
    using cell_index_less [of ?r ?c] rc assms(1) by (simp add: in_grid_def show_wf_def disp_wf_def buffer_wf_def)
  have len: "3 * unat color + 2 < length default_color"
    using color(2) by (simp add: default_color_def word_less_nat_alt)
  obtain x y z where xyz: "triple_at default_color (3 * unat color) = (x, y, z)"
    by (cases "triple_at default_color (3 * unat color)")
  have "draw_ball_cell (row, col) d = Inr (d\<lparr>g_display_buffer := put3 (g_display_buffer d) (cell_index ?r ?c) (z, x, y)\<rparr>)"
    using cell color(1) idx len
    by (simp add: draw_ball_cell_def Let_def xyz store3_put3 cell_index_def [symmetric] del: One_nat_def)
  then show ?thesis using assms(1)
    by (simp add: show_ok_def show_wf_def disp_wf_def ball_frame_def buffer_wf_def)
qed

lemma ball_demo_run_total:
  assumes "show_wf d"
  shows "\<exists>d'. ball_demo_run d = Inr d' \<and> show_ok d d'"
proof -
  have c: "2 < length (g_led_counter (led d))" using assms by (simp add: show_wf_def disp_wf_def)
  obtain e where e: "(if g_led_counter (led d) ! 2 = 0 then ball_demo_update d else Inr d) = Inr e" "show_ok d e"
    using ball_demo_update_total [OF assms] show_ok_refl [OF assms]
    by (cases "g_led_counter (led d) ! 2 = 0") auto
  have "\<exists>t. for_run draw_ball_cell grid_scan e = Inr t \<and> show_ok d t"
    using e(2)
  proof (rule for_run_total)
    show "\<exists>s'. draw_ball_cell x s = Inr s' \<and> show_ok d s'" if xs: "x \<in> set grid_scan" and sd: "show_ok d s" for x s
    proof -
      obtain row col where x: "x = (row, col)" by (cases x)
      with xs have "row < 8" "col < 8" by (simp_all add: grid_scan_set)
      then obtain s' where "draw_ball_cell (row, col) s = Inr s'" "show_ok s s'"
        using draw_ball_cell_total [OF show_ok_wf [OF sd]] by blast
      with x show ?thesis using show_ok_trans [OF sd] by blast
    qed
  qed
  then show ?thesis using e(1) c by (simp add: ball_demo_run_def)
qed

lemma ball_demo_setup_ok: "show_wf d \<Longrightarrow> show_ok d (ball_demo_setup d)"
  by (simp add: ball_demo_setup_def show_ok_def show_wf_def disp_wf_def ball_wf_def ball_frame_def)

section \<open>Properties\<close>

text \<open>C29: the light show is memory safe.  From every well-formed state, whatever balls the grid
  holds and whatever the random numbers are, a run returns, stays inside the grid, the ball
  tables, the palette and the display buffer, and changes nothing but the balls, the
  animation slots and timers, the random seed and the display buffer.\<close>

theorem ball_demo_safe:
  assumes "show_wf d"
  shows "\<exists>d'. ball_demo_run d = Inr d' \<and> show_wf d' \<and> ball_frame d' = ball_frame d"
  using ball_demo_run_total [OF assms] by (simp add: show_ok_def)

lemma show_wf_dev_example: "show_wf dev_example"
proof -
  have "ball_wf (balls dev_example)" by code_simp
  then show ?thesis using disp_wf_dev_example by (simp add: show_wf_def)
qed

theorem ball_demo_safe_witness:
  "show_wf dev_example \<and> (\<exists>d'. ball_demo_run dev_example = Inr d' \<and> show_wf d')"
  using show_wf_dev_example ball_demo_safe [of dev_example] by blast

text \<open>Balls never explode.  The function that should detect repeated collisions never records
  which balls collided, so with its initial values it answers no for every pair of balls,
  keeps those values, and the explosion branch is dead.\<close>

theorem repeat_collision_never_reached:
  assumes "last_this_ball b = 0xFF" "last_that_ball b = 0xFF" "i < 2" "j < 2"
  shows "\<not> fst (repeat_collision_limit_reached i j b)
     \<and> last_this_ball (snd (repeat_collision_limit_reached i j b)) = 0xFF
     \<and> last_that_ball (snd (repeat_collision_limit_reached i j b)) = 0xFF"
  using assms by (auto simp: repeat_collision_limit_reached_def)

text \<open>A vertical collision does not reverse the ball.  When a ball has moved up into another
  one, its direction bit already is the one the collision handler stores for it, although the
  handler means to send it back down.\<close>

theorem collision_keeps_direction:
  assumes "ball_wf (balls d)" "i < 2" "i \<noteq> j"
    and "move_ball_vertically i row (balls d) = Inr (row', b)" "row < row'"
    and "bounce_vertically False i j (d\<lparr>balls := b\<rparr>) = Inr d'"
  shows "ball_vertical_direction (balls d') ! unat i = ball_vertical_direction (balls d) ! unat i"
proof -
  have ij: "unat i \<noteq> unat j" using assms(3) by (simp add: word_unat_eq_iff)
  have "ball_vertical_max (balls d) ! unat i < 8"
    using assms(1) u8_less_2 [OF assms(2)] by (simp add: ball_wf_def list_all_length)
  then have "\<not> row - 1 \<le> ball_vertical_max (balls d) ! unat i" if "row < row - 1"
    using u8_pred_wrap [OF that] by (simp add: not_le order.strict_trans)
  then show ?thesis using assms(4-6) ij
    by (auto simp: move_ball_vertically_def bounce_vertically_def change_ball_colors_after_collision_def
        Let_def andthen_Inr_iff load_Inr_iff store_Inr_iff split: if_splits prod.splits)
qed

definition ball_meeting :: dev where
  "ball_meeting = dev_example\<lparr>balls := (balls dev_example)\<lparr>ball_vertical_max := [7, 7],
     ball_vertical_slowdown_counter := [0xF0, 0]\<rparr>\<rparr>"

theorem collision_keeps_direction_witness:
  "\<exists>b d'. move_ball_vertically 0 3 (balls ball_meeting) = Inr (4, b)
     \<and> bounce_vertically False 0 1 (ball_meeting\<lparr>balls := b\<rparr>) = Inr d'
     \<and> ball_vertical_direction (balls d') ! 0 = ball_vertical_direction (balls ball_meeting) ! 0"
proof -
  define b where "b = (balls ball_meeting)\<lparr>ball_vertical_slowdown_counter := [0, 0]\<rparr>"
  have wf: "ball_wf (balls ball_meeting)" by code_simp
  have m: "move_ball_vertically 0 3 (balls ball_meeting) = Inr (4, b)" unfolding b_def by code_simp
  have "isl (bounce_vertically False 0 1 (ball_meeting\<lparr>balls := b\<rparr>)) = False" unfolding b_def by code_simp
  then obtain d' where "bounce_vertically False 0 1 (ball_meeting\<lparr>balls := b\<rparr>) = Inr d'"
    by (cases "bounce_vertically False 0 1 (ball_meeting\<lparr>balls := b\<rparr>)") auto
  then show ?thesis using collision_keeps_direction [OF wf _ _ m, of 1 d'] m by auto
qed

end
