(* ===== verification/Mf_Display.thy ===== *)
theory Mf_Display
  imports Mf_Ball Mf_Eeprom
begin

unbundle bit_operations_syntax

text \<open>
  The frame composition of \<^verbatim>\<open>display.c\<close>: key colours, colours and animations set over MIDI,
  the sleep timer with the light show, and the geometric animations on top.  The brightness
  curve of \<^verbatim>\<open>pulse_animation\<close>, a sine on floats, is a parameter \<open>level\<close> from the phase byte.
\<close>

section \<open>Key colours\<close>

definition BUTTON_ID_FLAGS :: u8 where "BUTTON_ID_FLAGS = 0x3F"

definition to_brg :: "u8 \<times> u8 \<times> u8 \<Rightarrow> u8 \<times> u8 \<times> u8" where
  "to_brg c = (case c of (r, g, b) \<Rightarrow> (b, r, g))"

definition info_display_active :: "dev \<Rightarrow> dev run" where
  "info_display_active d =
     (let bank = unat (g_bank_selected (midi d))
      in andthen (for_run (\<lambda>i buffer.
             andthen (load3 (if g_key_state (key_g d) AND key_bit i \<noteq> 0
                             then default_bank_active (colors d) else default_bank_inactive (colors d))
                        (bank_index bank (3 * i))) (\<lambda>c.
             store3 buffer (3 * i) (to_brg c))) [0..<NUM_BUTTONS] (g_display_buffer d)) (\<lambda>buffer.
         Inr (d\<lparr>g_display_buffer := buffer\<rparr>)))"

section \<open>Colours set over MIDI\<close>

text \<open>
  The loops over the notes of a bank count a \<^verbatim>\<open>uint8_t\<close> up to \<open>bank_offset + 64\<close>; with an
  offset of 192 that bound is 256 and the loop never ends.
\<close>

definition midi_color_state :: "dev \<Rightarrow> dev run" where
  "midi_color_state d =
     (let bank_offset = unat (g_bank_selected (midi d) * 64)
      in if bank_offset + NUM_BUTTONS > 255 then Inl Hang
         else andthen (for_run (\<lambda>k buffer.
             andthen (load (g_midi_note_state (midi d)) (note_state_index 0 (bank_offset + k))) (\<lambda>velocity.
             if velocity > 0
             then (let key = unat (of_nat (bank_offset + k) AND BUTTON_ID_FLAGS)
                   in andthen (load3 ableton_midi_feedback_colors (3 * unat velocity)) (\<lambda>c.
                      store3 buffer (3 * key) (to_brg c)))
             else Inr buffer)) [0..<NUM_BUTTONS] (g_display_buffer d)) (\<lambda>buffer.
         Inr (d\<lparr>g_display_buffer := buffer\<rparr>)))"

text \<open>The variant for \<^verbatim>\<open>MIDI_FEEDBACK_MF3D_MODE\<close>, which the current configuration does not build.\<close>

definition midi_color_state_mf3d :: "dev \<Rightarrow> dev run" where
  "midi_color_state_mf3d d =
     (let bank = unat (g_bank_selected (midi d));
          bank_offset = unat (g_bank_selected (midi d) * 64)
      in if bank_offset + NUM_BUTTONS > 255 then Inl Hang
         else andthen (for_run (\<lambda>k buffer.
             andthen (load (g_midi_note_state (midi d)) (note_state_index 0 (bank_offset + k))) (\<lambda>velocity.
             let key = unat (of_nat (bank_offset + k) AND BUTTON_ID_FLAGS)
             in if velocity > 0
                then andthen
                  (if velocity < 121
                   then load3 default_color (3 * unat (clamp (word_of_int ((uint velocity - 1) div 6 - 1)) 0 19))
                   else if velocity < 127 then load3 default_color (3 * COLORID_WHITE)
                   else load3 (default_bank_active (colors d)) (bank_index bank (3 * key)))
                  (\<lambda>c. store3 buffer (3 * key) (to_brg c))
                else Inr buffer)) [0..<NUM_BUTTONS] (g_display_buffer d)) (\<lambda>buffer.
         Inr (d\<lparr>g_display_buffer := buffer\<rparr>)))"

section \<open>Animations set over MIDI\<close>

definition SIXTEENTH_FLASH_STATE :: u16 where "SIXTEENTH_FLASH_STATE = 0x01"

definition flash_animation :: "u8 \<Rightarrow> midi_globals \<Rightarrow> bool" where
  "flash_animation flash_rate m \<longleftrightarrow>
     display_flash_counter m AND push_bit (8 - unat flash_rate) SIXTEENTH_FLASH_STATE \<noteq> 0"

definition pulse_animation :: "(u8 \<Rightarrow> u8) \<Rightarrow> u8 \<Rightarrow> midi_globals \<Rightarrow> u8" where
  "pulse_animation level pulse_rate m =
     (let rgb_step = (if \<not> midi_clock_enabled m
                      then ucast (drop_bit (8 - unat pulse_rate) (push_bit 4 (display_flash_counter m)) AND 0xFF)
                      else ucast (drop_bit (8 - unat pulse_rate) (push_bit 5 (display_flash_counter m)) AND 0xFF))
      in level rgb_step)"

definition scale_color :: "nat \<Rightarrow> u8 \<Rightarrow> u8 \<times> u8 \<times> u8 \<Rightarrow> u8 \<times> u8 \<times> u8" where
  "scale_color shift level c = (case c of (x, y, z) \<Rightarrow>
     (let f = (\<lambda>v. ucast (drop_bit shift (ucast v * ucast level :: u16))) in (f x, f y, f z)))"

definition rescale_key :: "nat \<Rightarrow> u8 \<Rightarrow> nat \<Rightarrow> dev \<Rightarrow> dev run" where
  "rescale_key shift level key d =
     andthen (load3 (g_display_buffer d) (3 * key)) (\<lambda>c.
     andthen (store3 (g_display_buffer d) (3 * key) (scale_color shift level c)) (\<lambda>buffer.
     Inr (d\<lparr>g_display_buffer := buffer\<rparr>)))"

definition animate_key :: "(u8 \<Rightarrow> u8) \<Rightarrow> nat \<Rightarrow> dev \<Rightarrow> dev run" where
  "animate_key level i d =
     andthen (load (g_midi_note_state (midi d)) (note_state_index 1 i)) (\<lambda>velocity.
     let key = unat (of_nat i AND BUTTON_ID_FLAGS)
     in if velocity = 0 \<or> velocity < 18 then Inr d
        else if velocity < 34 then rescale_key 4 (velocity - 18) key d
        else if velocity < 42 then
          (if \<not> flash_animation (velocity - 33) (midi d)
           then andthen (store3 (g_display_buffer d) (3 * key) (0, 0, 0)) (\<lambda>buffer.
             Inr (d\<lparr>g_display_buffer := buffer\<rparr>))
           else Inr d)
        else if velocity < 50 then rescale_key 8 (pulse_animation level (velocity - 41) (midi d)) key d
        else if velocity < 54 then
          andthen (start_geometric_animation (of_nat i AND BUTTON_ID_FLAGS) (velocity - 50) d) (\<lambda>d.
          andthen (store (g_midi_note_state (midi d)) (note_state_index 1 i) 0) (\<lambda>ns.
          Inr (d\<lparr>midi := (midi d)\<lparr>g_midi_note_state := ns\<rparr>\<rparr>)))
        else Inr d)"

definition midi_animation_state :: "(u8 \<Rightarrow> u8) \<Rightarrow> u8 \<Rightarrow> dev \<Rightarrow> dev run" where
  "midi_animation_state level bank d =
     (let bank_offset = (if bank \<noteq> 0 then NUM_BUTTONS else 0)
      in for_run (animate_key level) [bank_offset..<bank_offset + 64] d)"

section \<open>Sleep timer and frame\<close>

definition sleep_counters :: "led_globals \<Rightarrow> led_globals" where
  "sleep_counters l =
     (if half_ms_counter l \<ge> 2000
      then (let l = l\<lparr>half_ms_counter := 0, one_second_counter := one_second_counter l + 1\<rparr>
            in if one_second_counter l \<ge> 60
               then l\<lparr>sleep_minute_counter := sleep_minute_counter l + 1, one_second_counter := 0\<rparr>
               else l)
      else l)"

definition sleep_animation :: "dev \<Rightarrow> dev run" where
  "sleep_animation d =
     (if G_EE_SLEEP_TIME (ee d) \<noteq> 0
      then (let d = (if sleep_minute_counter (led d) = G_EE_SLEEP_TIME (ee d)
                     then (ball_demo_setup d)\<lparr>led := (led d)\<lparr>sleep_minute_counter := sleep_minute_counter (led d) + 1\<rparr>\<rparr>
                     else d)
            in andthen (if sleep_minute_counter (led d) > G_EE_SLEEP_TIME (ee d) then ball_demo_run d else Inr d) (\<lambda>d.
               if g_key_down (key_g d) \<noteq> 0
               then Inr (d\<lparr>led := (led d)\<lparr>one_second_counter := 0, sleep_minute_counter := 0\<rparr>\<rparr>)
               else Inr d))
      else Inr d)"

definition default_display_run :: "(u8 \<Rightarrow> u8) \<Rightarrow> dev \<Rightarrow> dev run" where
  "default_display_run level d =
     andthen (info_display_active d) (\<lambda>d.
     andthen (midi_color_state d) (\<lambda>d.
     andthen (midi_animation_state level (g_bank_selected (midi d)) d) (\<lambda>d.
     andthen (sleep_animation (d\<lparr>led := sleep_counters (led d)\<rparr>))
       geometric_animation_state)))"

section \<open>Loops over the keys\<close>

text \<open>A loop that gives some keys a colour and skips the others.\<close>

lemma for_run_key_colors:
  assumes "n \<le> 64" "length buffer = 192"
    and "\<And>i buf. i < n \<Longrightarrow> length buf = 192 \<Longrightarrow>
       step i buf = (case c i of None \<Rightarrow> Inr buf | Some v \<Rightarrow> store3 buf (3 * i) v)"
  shows "\<exists>buf. for_run step [0..<n] buffer = Inr buf \<and> length buf = 192 \<and>
     (\<forall>i<64. triple_at buf (3 * i) = (if i < n then case_option (triple_at buffer (3 * i)) id (c i)
                                        else triple_at buffer (3 * i)))"
proof -
  let ?Q = "\<lambda>k buf. length buf = 192 \<and>
     (\<forall>i<64. triple_at buf (3 * i) = (if i < k then case_option (triple_at buffer (3 * i)) id (c i)
                                        else triple_at buffer (3 * i)))"
  show ?thesis
  proof (rule for_run_upt [where Q = ?Q])
    show "?Q 0 buffer" using assms(2) by simp
    fix k buf assume k: "k < n" and Q: "?Q k buf"
    then have len: "3 * k + 2 < length buf" using assms(1) by simp
    show "\<exists>b. step k buf = Inr b \<and> ?Q (Suc k) b"
    proof (cases "c k")
      case None
      then show ?thesis using k Q assms(3) [of k buf] by (auto simp: less_Suc_eq)
    next
      case (Some v)
      have "triple_at (put3 buf (3 * k) v) (3 * i) = (if i = k then v else triple_at buf (3 * i))" for i
      proof (cases "i = k")
        case False
        then have "3 * i + 2 < 3 * k \<or> 3 * k + 2 < 3 * i" by presburger
        then show ?thesis using False by (simp add: triple_at_put3_other)
      qed (simp add: triple_at_put3 [OF len])
      then show ?thesis using k Q Some assms(3) [of k buf] len
        by (auto simp: store3_put3 less_Suc_eq)
    qed
  qed
qed

section \<open>The layers of a frame\<close>

text \<open>All velocities are data bytes.\<close>

definition notes7 :: "dev \<Rightarrow> bool" where
  "notes7 d \<longleftrightarrow> list_all (\<lambda>v. v < 0x80) (g_midi_note_state (midi d))"

definition display_wf :: "dev \<Rightarrow> bool" where
  "display_wf d \<longleftrightarrow> show_wf d \<and> notes7 d"

definition key_color :: "dev \<Rightarrow> nat \<Rightarrow> u8 \<times> u8 \<times> u8" where
  "key_color d i = to_brg (triple_at (if g_key_state (key_g d) AND key_bit i \<noteq> 0
       then default_bank_active (colors d) else default_bank_inactive (colors d))
     (bank_index (unat (g_bank_selected (midi d))) (3 * i)))"

definition note_velocity :: "dev \<Rightarrow> nat \<Rightarrow> u8" where
  "note_velocity d i = g_midi_note_state (midi d) ! (NUM_BUTTONS * unat (g_bank_selected (midi d)) + i)"

definition velocity_color :: "u8 \<Rightarrow> u8 \<times> u8 \<times> u8" where
  "velocity_color v = to_brg (triple_at ableton_midi_feedback_colors (3 * unat v))"

lemma bank01: "disp_wf d \<Longrightarrow> g_bank_selected (midi d) = 0 \<or> g_bank_selected (midi d) = 1"
  by (auto simp: disp_wf_def word_less_nat_alt word_unat_eq_iff)

lemma info_display_active_spec:
  assumes "disp_wf d"
  shows "\<exists>buf. info_display_active d = Inr (d\<lparr>g_display_buffer := buf\<rparr>) \<and> length buf = 192
     \<and> (\<forall>i<64. triple_at buf (3 * i) = key_color d i)"
proof -
  let ?step = "\<lambda>i buffer. andthen (load3 (if g_key_state (key_g d) AND key_bit i \<noteq> 0
        then default_bank_active (colors d) else default_bank_inactive (colors d))
      (bank_index (unat (g_bank_selected (midi d))) (3 * i))) (\<lambda>c. store3 buffer (3 * i) (to_brg c))"
  have "?step i buf = (case Some (key_color d i) of None \<Rightarrow> Inr buf | Some v \<Rightarrow> store3 buf (3 * i) v)"
    if "i < 64" for i buf
    using assms bank01 [OF assms] that
    by (auto simp: key_color_def disp_wf_def colors_wf_def bank_index_def BANK_BYTES_def)
  then have "\<exists>buf. for_run ?step [0..<64] (g_display_buffer d) = Inr buf \<and> length buf = 192
      \<and> (\<forall>i<64. triple_at buf (3 * i) = (if i < 64 then case_option (triple_at (g_display_buffer d) (3 * i)) id
            (Some (key_color d i)) else triple_at (g_display_buffer d) (3 * i)))"
    using assms by (intro for_run_key_colors) (simp_all add: disp_wf_def buffer_wf_def)
  then show ?thesis by (auto simp: info_display_active_def Let_def NUM_BUTTONS_def)
qed

lemma key_of_note:
  assumes "k < 64" "b = 0 \<or> b = (1 :: u8)"
  shows "unat (of_nat (unat (b * 64) + k) AND BUTTON_ID_FLAGS) = k" "unat (b * 64) = NUM_BUTTONS * unat b"
proof -
  have "unat ((of_nat n :: u8) AND 0x3F) = n mod 64" if "n < 256" for n
  proof -
    have "unat ((of_nat n :: u8) AND 0x3F) = n AND 63"
      using that by (simp add: unsigned_and_eq unat_of_nat)
    also have "\<dots> = take_bit 6 n" by (simp add: take_bit_eq_mask mask_eq_exp_minus_1)
    finally show ?thesis by (simp add: take_bit_eq_mod)
  qed
  with assms show "unat (of_nat (unat (b * 64) + k) AND BUTTON_ID_FLAGS) = k"
    by (auto simp: BUTTON_ID_FLAGS_def simp del: of_nat_add)
  show "unat (b * 64) = NUM_BUTTONS * unat b" using assms by (auto simp: NUM_BUTTONS_def)
qed

lemma midi_color_state_spec:
  assumes "disp_wf d" "notes7 d"
  shows "\<exists>buf. midi_color_state d = Inr (d\<lparr>g_display_buffer := buf\<rparr>) \<and> length buf = 192
     \<and> (\<forall>i<64. triple_at buf (3 * i) = (if note_velocity d i = 0 then triple_at (g_display_buffer d) (3 * i)
                                          else velocity_color (note_velocity d i)))"
proof -
  let ?b = "g_bank_selected (midi d)"
  let ?step = "\<lambda>k buffer. andthen (load (g_midi_note_state (midi d)) (note_state_index 0 (unat (?b * 64) + k))) (\<lambda>velocity.
     if velocity > 0
     then (let key = unat (of_nat (unat (?b * 64) + k) AND BUTTON_ID_FLAGS)
           in andthen (load3 ableton_midi_feedback_colors (3 * unat velocity)) (\<lambda>c.
              store3 buffer (3 * key) (to_brg c)))
     else Inr buffer)"
  let ?c = "\<lambda>i. if note_velocity d i = 0 then None else Some (velocity_color (note_velocity d i))"
  have b: "?b = 0 \<or> ?b = 1" using assms(1) by (rule bank01)
  have step: "?step i buf = (case ?c i of None \<Rightarrow> Inr buf | Some v \<Rightarrow> store3 buf (3 * i) v)" if "i < 64" for i buf
  proof -
    have idx: "NUM_BUTTONS * unat ?b + i < length (g_midi_note_state (midi d))"
      using that b assms(1) by (auto simp: disp_wf_def NUM_BUTTONS_def)
    then have "note_velocity d i < 0x80"
      using assms(2) by (simp add: notes7_def note_velocity_def list_all_length)
    then have "3 * unat (note_velocity d i) + 2 < length ableton_midi_feedback_colors"
      by (simp add: ableton_midi_feedback_colors_def word_less_nat_alt)
    moreover have "load (g_midi_note_state (midi d)) (note_state_index 0 (unat (?b * 64) + i)) = Inr (note_velocity d i)"
      using idx by (simp add: note_state_index_def key_of_note(2) [OF that b] note_velocity_def)
    ultimately show ?thesis
      by (simp add: key_of_note(1) [OF that b] Let_def velocity_color_def word_greater_zero_iff
          del: of_nat_add)
  qed
  have "\<exists>buf. for_run ?step [0..<64] (g_display_buffer d) = Inr buf \<and> length buf = 192
      \<and> (\<forall>i<64. triple_at buf (3 * i) = (if i < 64 then case_option (triple_at (g_display_buffer d) (3 * i)) id (?c i)
           else triple_at (g_display_buffer d) (3 * i)))"
    using assms step by (intro for_run_key_colors) (simp_all add: disp_wf_def buffer_wf_def)
  then show ?thesis using b
    by (auto simp: midi_color_state_def Let_def NUM_BUTTONS_def split: if_splits)
qed

section \<open>A frame never fails\<close>

text \<open>
  What a frame leaves alone: everything but the display buffer, the animation and ball state,
  the random numbers, the LED counters and the animation velocities it has consumed.
\<close>

definition run_frame where
  "run_frame d = (key_g d, (midi d)\<lparr>g_midi_note_state := []\<rparr>, combo_g d, ee d, colors d, watchdog_flag d)"

definition display_ok :: "dev \<Rightarrow> dev \<Rightarrow> bool" where
  "display_ok d d' \<longleftrightarrow> display_wf d' \<and> run_frame d' = run_frame d"

lemma display_ok_wf: "display_ok d d' \<Longrightarrow> display_wf d'"
  by (simp add: display_ok_def)

lemma display_ok_refl: "display_wf d \<Longrightarrow> display_ok d d"
  by (simp add: display_ok_def)

lemma display_ok_trans: "display_ok d e \<Longrightarrow> display_ok e f \<Longrightarrow> display_ok d f"
  by (simp add: display_ok_def)

lemma display_ok_show: "display_wf d \<Longrightarrow> show_ok d d' \<Longrightarrow> display_ok d d'"
  by (simp add: display_ok_def display_wf_def notes7_def show_ok_def ball_frame_def run_frame_def)

lemma display_ok_disp:
  "display_wf d \<Longrightarrow> disp_wf d' \<Longrightarrow> display_frame d' = display_frame d \<Longrightarrow> display_ok d d'"
  by (simp add: display_ok_def display_wf_def notes7_def show_wf_def display_frame_def run_frame_def)

lemma display_ok_buffer:
  "display_wf d \<Longrightarrow> length buf = 192 \<Longrightarrow> display_ok d (d\<lparr>g_display_buffer := buf\<rparr>)"
  by (simp add: display_ok_def display_wf_def notes7_def show_wf_def disp_wf_def buffer_wf_def run_frame_def)

lemma display_ok_led:
  "display_wf d \<Longrightarrow> g_led_counter l = g_led_counter (led d) \<Longrightarrow> display_ok d (d\<lparr>led := l\<rparr>)"
  by (simp add: display_ok_def display_wf_def notes7_def show_wf_def disp_wf_def run_frame_def)

lemma display_ok_note_off:
  "display_wf d \<Longrightarrow> display_ok d (d\<lparr>midi := (midi d)\<lparr>g_midi_note_state := (g_midi_note_state (midi d))[n := 0]\<rparr>\<rparr>)"
  by (simp add: display_ok_def display_wf_def notes7_def show_wf_def disp_wf_def run_frame_def list_all_update)

lemma key_below_64: "(w AND BUTTON_ID_FLAGS) < 64" "unat (w AND BUTTON_ID_FLAGS) < 64"
proof -
  have "w AND 0x3F \<le> (0x3F :: u8)" by (rule word_and_le1)
  then show "(w AND BUTTON_ID_FLAGS) < 64" "unat (w AND BUTTON_ID_FLAGS) < 64"
    by (simp_all add: BUTTON_ID_FLAGS_def word_less_nat_alt word_le_nat_alt)
qed

lemma store_key_total:
  assumes "display_wf d" "key < 64"
  shows "\<exists>buf. store3 (g_display_buffer d) (3 * key) c = Inr buf \<and> length buf = 192"
  using assms by (cases c)
    (simp add: display_wf_def show_wf_def disp_wf_def buffer_wf_def store3_put3)

lemma rescale_key_total:
  assumes "display_wf d" "key < 64"
  shows "\<exists>d'. rescale_key shift l key d = Inr d' \<and> display_ok d d'"
proof -
  let ?c = "triple_at (g_display_buffer d) (3 * key)"
  have c: "load3 (g_display_buffer d) (3 * key) = Inr ?c"
    using assms by (simp add: display_wf_def show_wf_def disp_wf_def buffer_wf_def)
  obtain buf where "store3 (g_display_buffer d) (3 * key) (scale_color shift l ?c) = Inr buf" "length buf = 192"
    using store_key_total [OF assms] by blast
  then show ?thesis using c display_ok_buffer [OF assms(1)] by (simp add: rescale_key_def)
qed

lemma animate_key_total:
  assumes "display_wf d" "i < 128"
  shows "\<exists>d'. animate_key level i d = Inr d' \<and> display_ok d d'"
proof -
  let ?key = "of_nat i AND BUTTON_ID_FLAGS" and ?n = "note_state_index 1 i"
  let ?v = "g_midi_note_state (midi d) ! ?n"
  have len: "length (g_midi_note_state (midi d)) = 256" and n: "?n < 256"
    using assms by (simp_all add: display_wf_def show_wf_def disp_wf_def note_state_index_def MIDI_MAX_NOTES_def)
  obtain buf where buf: "store3 (g_display_buffer d) (3 * unat ?key) (0, 0, 0) = Inr buf" "length buf = 192"
    using store_key_total [OF assms(1) key_below_64(2)] by blast
  note rescale = rescale_key_total [OF assms(1) key_below_64(2) [of "of_nat i"]]
  obtain e where e: "start_geometric_animation ?key (?v - 50) d = Inr e" "disp_wf e" "display_frame e = display_frame d"
    using assms(1) start_geometric_animation_total [of d "?key" "?v - 50"] key_below_64(1)
    by (auto simp: display_wf_def show_wf_def)
  have e_ok: "display_ok d e" using assms(1) e by (intro display_ok_disp) simp_all
  have len_e: "length (g_midi_note_state (midi e)) = 256" using e(2) by (simp add: disp_wf_def)
  have "display_ok d (e\<lparr>midi := (midi e)\<lparr>g_midi_note_state := (g_midi_note_state (midi e))[?n := 0]\<rparr>\<rparr>)"
    using e_ok display_ok_note_off display_ok_trans by (blast dest: display_ok_def [THEN iffD1])
  then show ?thesis
    using len len_e n buf rescale e(1) display_ok_refl [OF assms(1)] display_ok_buffer [OF assms(1)]
    by (auto simp: animate_key_def Let_def)
qed

lemma for_run_display_ok:
  assumes "display_wf d" "\<And>i d. i \<in> set is \<Longrightarrow> display_wf d \<Longrightarrow> \<exists>d'. f i d = Inr d' \<and> display_ok d d'"
  shows "\<exists>d'. for_run f is d = Inr d' \<and> display_ok d d'"
proof (rule for_run_total [where P = "display_ok d"])
  show "display_ok d d" using assms(1) by (rule display_ok_refl)
  fix i s assume "i \<in> set is" "display_ok d s"
  then show "\<exists>s'. f i s = Inr s' \<and> display_ok d s'"
    using assms(2) [of i s] display_ok_trans by (auto simp: display_ok_def)
qed

lemma midi_animation_state_total:
  assumes "display_wf d"
  shows "\<exists>d'. midi_animation_state level bank d = Inr d' \<and> display_ok d d'"
  unfolding midi_animation_state_def Let_def
  using assms by (rule for_run_display_ok) (auto intro!: animate_key_total simp: NUM_BUTTONS_def split: if_splits)

lemma sleep_animation_total:
  assumes "display_wf d"
  shows "\<exists>d'. sleep_animation d = Inr d' \<and> display_ok d d'"
proof -
  define e where "e = (if sleep_minute_counter (led d) = G_EE_SLEEP_TIME (ee d)
     then (ball_demo_setup d)\<lparr>led := (led d)\<lparr>sleep_minute_counter := sleep_minute_counter (led d) + 1\<rparr>\<rparr> else d)"
  have "display_ok d ((ball_demo_setup d)\<lparr>led := (led d)\<lparr>sleep_minute_counter := sleep_minute_counter (led d) + 1\<rparr>\<rparr>)"
  proof -
    have ready: "display_ok d (ball_demo_setup d)"
      using assms ball_demo_setup_ok by (simp add: display_ok_show display_wf_def)
    moreover have "led (ball_demo_setup d) = led d" by (simp add: ball_demo_setup_def)
    ultimately show ?thesis
      by (intro display_ok_trans [OF ready] display_ok_led) (simp_all add: display_ok_def)
  qed
  then have e: "display_ok d e" using assms unfolding e_def by (auto intro: display_ok_refl)
  obtain f where f: "(if sleep_minute_counter (led e) > G_EE_SLEEP_TIME (ee e) then ball_demo_run e else Inr e) = Inr f"
    "display_ok e f"
  proof -
    have "show_wf e" using display_ok_wf [OF e] by (simp add: display_wf_def)
    then obtain f where "ball_demo_run e = Inr f" "show_ok e f" using ball_demo_run_total by blast
    then show thesis
      using that [of f] that [of e] display_ok_show [OF display_ok_wf [OF e]] display_ok_refl [OF display_ok_wf [OF e]]
      by (cases "G_EE_SLEEP_TIME (ee e) < sleep_minute_counter (led e)") simp_all
  qed
  have "display_ok f (f\<lparr>led := (led f)\<lparr>one_second_counter := 0, sleep_minute_counter := 0\<rparr>\<rparr>)"
    using f by (intro display_ok_led) (simp_all add: display_ok_def)
  then have "display_ok d (f\<lparr>led := (led f)\<lparr>one_second_counter := 0, sleep_minute_counter := 0\<rparr>\<rparr>)" "display_ok d f"
    using e f display_ok_trans by blast+
  then show ?thesis
    using f(1) display_ok_refl [OF assms] by (simp add: sleep_animation_def Let_def flip: e_def)
qed

lemma default_display_run_total:
  assumes "display_wf d"
  shows "\<exists>d'. default_display_run level d = Inr d' \<and> display_ok d d'"
proof -
  obtain buf where b: "info_display_active d = Inr (d\<lparr>g_display_buffer := buf\<rparr>)" "length buf = 192"
    using assms info_display_active_spec by (auto simp: display_wf_def show_wf_def)
  define d1 where "d1 = d\<lparr>g_display_buffer := buf\<rparr>"
  have d1: "display_ok d d1" using assms b(2) by (simp add: d1_def display_ok_buffer)
  obtain buf2 where b2: "midi_color_state d1 = Inr (d1\<lparr>g_display_buffer := buf2\<rparr>)" "length buf2 = 192"
    using d1 midi_color_state_spec [of d1] by (auto simp: display_ok_def display_wf_def show_wf_def)
  define d2 where "d2 = d1\<lparr>g_display_buffer := buf2\<rparr>"
  have d2: "display_ok d1 d2" using d1 b2(2) by (simp add: d2_def display_ok_buffer display_ok_def [of d])
  obtain d3 where d3: "midi_animation_state level (g_bank_selected (midi d2)) d2 = Inr d3" "display_ok d2 d3"
    using midi_animation_state_total [OF display_ok_wf [OF d2]] by blast
  define d4 where "d4 = d3\<lparr>led := sleep_counters (led d3)\<rparr>"
  have d4: "display_ok d3 d4"
    unfolding d4_def using d3(2) by (intro display_ok_led) (simp_all add: display_ok_def sleep_counters_def Let_def)
  obtain d5 where d5: "sleep_animation d4 = Inr d5" "display_ok d4 d5"
    using sleep_animation_total [OF display_ok_wf [OF d4]] by blast
  obtain d6 where d6: "geometric_animation_state d5 = Inr d6" "disp_wf d6" "display_frame d6 = display_frame d5"
    using d5(2) geometric_animation_state_total [of d5] by (auto simp: display_ok_def display_wf_def show_wf_def)
  have "display_ok d5 d6" using d5(2) d6 by (intro display_ok_disp) (simp_all add: display_ok_def)
  then have "display_ok d d6" using d1 d2 d3(2) d4 d5(2) by (simp add: display_ok_def)
  moreover have "default_display_run level d = Inr d6"
    using b(1) b2(1) d3(1) d5(1) d6(1) by (simp add: default_display_run_def flip: d1_def d2_def d4_def)
  ultimately show ?thesis by blast
qed

section \<open>A frame without animations\<close>

definition animation_steps :: "u8 \<Rightarrow> u8" where
  "animation_steps ty = (if ty < 1 then GEOMETRIC_ANIMATION_STEPS_SQUARE
     else if ty < 2 then GEOMETRIC_ANIMATION_STEPS_CIRCLE
     else if ty < 3 then GEOMETRIC_ANIMATION_STEPS_STAR
     else if ty < 4 then GEOMETRIC_ANIMATION_STEPS_TRIANGLE else 0)"

text \<open>No animation velocity is set on the selected bank, every geometric animation has run out,
  and the sleep timer is off.\<close>

definition plain_frame :: "dev \<Rightarrow> bool" where
  "plain_frame d \<longleftrightarrow>
     list_all (\<lambda>i. g_midi_note_state (midi d) ! (MIDI_MAX_NOTES + NUM_BUTTONS * unat (g_bank_selected (midi d)) + i) < 18)
       [0..<NUM_BUTTONS]
     \<and> list_all (\<lambda>i. animation_steps (geometric_animation_type (anim d) ! i) \<le> geometric_animation_pos (anim d) ! i)
         [0..<CONCURRENT_GEOMETRIC_ANIMATIONS]
     \<and> G_EE_SLEEP_TIME (ee d) = 0"

lemma midi_animation_state_plain:
  assumes "disp_wf d" "plain_frame d"
  shows "midi_animation_state level (g_bank_selected (midi d)) d = Inr d"
proof -
  let ?off = "if g_bank_selected (midi d) \<noteq> 0 then NUM_BUTTONS else 0"
  have "animate_key level i d = Inr d" if "i \<in> {?off..<?off + 64}" for i
  proof -
    have "g_midi_note_state (midi d) ! (MIDI_MAX_NOTES + i) < 18"
      using assms(2) that bank01 [OF assms(1)]
      by (auto simp: plain_frame_def list_all_iff NUM_BUTTONS_def dest!: bspec [of _ _ "i - ?off"])
    moreover have "MIDI_MAX_NOTES + i < length (g_midi_note_state (midi d))"
      using assms(1) that by (auto simp: disp_wf_def MIDI_MAX_NOTES_def NUM_BUTTONS_def split: if_splits)
    ultimately show ?thesis by (simp add: animate_key_def note_state_index_def Let_def)
  qed
  then have "\<exists>t. for_run (animate_key level) [?off..<?off + 64] d = Inr t \<and> t = d"
    by (intro for_run_total) simp_all
  then show ?thesis by (simp add: midi_animation_state_def Let_def)
qed

lemma geometric_slot_state_plain:
  assumes "anim_wf (anim d)" "i < 4"
    "animation_steps (geometric_animation_type (anim d) ! i) \<le> geometric_animation_pos (anim d) ! i"
  shows "geometric_slot_state u i d = Inr (d\<lparr>anim := (anim d)\<lparr>geometric_animation_id := i\<rparr>\<rparr>)"
  using assms by (auto simp: geometric_slot_state_def Let_def anim_wf_def animation_steps_def not_less split: if_splits)

lemma geometric_animation_state_plain:
  assumes "disp_wf d" "plain_frame d"
  shows "\<exists>d'. geometric_animation_state d = Inr d' \<and> g_display_buffer d' = g_display_buffer d"
proof -
  define e where "e = (if g_led_counter (led d) ! 1 = 0 then
     d\<lparr>led := (led d)\<lparr>g_led_counter := (g_led_counter (led d))[1 := GEOMETRIC_ANIMATION_G_LED_LIMIT]\<rparr>\<rparr> else d)"
  let ?P = "\<lambda>s :: dev. g_display_buffer s = g_display_buffer d \<and> anim_wf (anim s)
     \<and> geometric_animation_type (anim s) = geometric_animation_type (anim d)
     \<and> geometric_animation_pos (anim s) = geometric_animation_pos (anim d)"
  have "\<exists>t. for_run (geometric_slot_state u) [0..<4] e = Inr t \<and> ?P t" for u
  proof (rule for_run_total [where P = ?P])
    show "?P e" using assms(1) by (simp add: e_def disp_wf_def)
    fix i s assume "i \<in> set [0..<4]" and P: "?P s"
    then have i: "i < 4" by simp
    have "geometric_slot_state u i s = Inr (s\<lparr>anim := (anim s)\<lparr>geometric_animation_id := i\<rparr>\<rparr>)"
      using assms i P by (intro geometric_slot_state_plain)
        (simp_all add: disp_wf_def plain_frame_def CONCURRENT_GEOMETRIC_ANIMATIONS_def list_all_iff)
    then show "\<exists>s'. geometric_slot_state u i s = Inr s' \<and> ?P s'"
      using P by (auto simp: anim_wf_def slot_ok_def)
  qed
  from this [of True] this [of False] show ?thesis using assms(1)
    by (auto simp: geometric_animation_state_def e_def disp_wf_def CONCURRENT_GEOMETRIC_ANIMATIONS_def split: if_splits)
qed

section \<open>Properties\<close>

text \<open>A frame is always drawn.  Whatever keys are held and whatever data bytes the note state
  holds, \<^verbatim>\<open>default_display_run\<close> returns from every well-formed state: no layer reads or writes
  outside its arrays.  The state stays well-formed and keys, settings, palettes, the USB side
  and the MIDI state other than consumed animation velocities are untouched.\<close>

theorem default_display_safe:
  assumes "display_wf d"
  shows "\<exists>d'. default_display_run level d = Inr d' \<and> display_wf d' \<and> run_frame d' = run_frame d"
  using default_display_run_total [OF assms] by (simp add: display_ok_def)

lemma display_wf_dev_example: "display_wf dev_example"
proof -
  have "notes7 dev_example" by code_simp
  then show ?thesis using show_wf_dev_example by (simp add: display_wf_def)
qed

lemma display_layers:
  assumes "display_wf d" "plain_frame d" "i < 64"
  shows "\<exists>d'. default_display_run level d = Inr d' \<and> length (g_display_buffer d') = 192
     \<and> triple_at (g_display_buffer d') (3 * i)
         = (if note_velocity d i \<noteq> 0 then velocity_color (note_velocity d i) else key_color d i)"
proof -
  have wf: "disp_wf d" "notes7 d" using assms(1) by (simp_all add: display_wf_def show_wf_def)
  obtain buf where b: "info_display_active d = Inr (d\<lparr>g_display_buffer := buf\<rparr>)" "length buf = 192"
      "\<forall>i<64. triple_at buf (3 * i) = key_color d i"
    using info_display_active_spec [OF wf(1)] by blast
  define d1 where "d1 = d\<lparr>g_display_buffer := buf\<rparr>"
  have wf1: "disp_wf d1" "notes7 d1" using wf b(2) by (simp_all add: d1_def disp_wf_def notes7_def buffer_wf_def)
  obtain buf2 where b2: "midi_color_state d1 = Inr (d1\<lparr>g_display_buffer := buf2\<rparr>)" "length buf2 = 192"
      "\<forall>i<64. triple_at buf2 (3 * i) = (if note_velocity d1 i = 0 then triple_at buf (3 * i)
                                          else velocity_color (note_velocity d1 i))"
    using midi_color_state_spec [OF wf1] by (auto simp: d1_def)
  define d2 where "d2 = d1\<lparr>g_display_buffer := buf2\<rparr>"
  have d2: "disp_wf d2" "plain_frame d2"
    using wf1 assms(2) b2(2) by (simp_all add: d2_def d1_def disp_wf_def buffer_wf_def plain_frame_def)
  define d4 where "d4 = d2\<lparr>led := sleep_counters (led d2)\<rparr>"
  have d4: "disp_wf d4" "plain_frame d4"
    using d2 by (simp_all add: d4_def disp_wf_def plain_frame_def sleep_counters_def Let_def)
  have sleep: "sleep_animation d4 = Inr d4" using d4(2) by (simp add: sleep_animation_def plain_frame_def)
  obtain d6 where d6: "geometric_animation_state d4 = Inr d6" "g_display_buffer d6 = g_display_buffer d4"
    using geometric_animation_state_plain [OF d4] by blast
  have "default_display_run level d = Inr d6"
    using b(1) b2(1) midi_animation_state_plain [OF d2, of level] sleep d6(1)
    by (simp add: default_display_run_def flip: d1_def d2_def d4_def)
  moreover have "note_velocity d1 i = note_velocity d i" by (simp add: d1_def note_velocity_def)
  ultimately show ?thesis using assms(3) b(3) b2(2,3) d6(2) by (simp add: d4_def d2_def)
qed


definition painted_example :: dev where
  "painted_example = dev_example\<lparr>midi := (midi dev_example)\<lparr>g_midi_note_state :=
     (g_midi_note_state (midi dev_example))[5 := 3]\<rparr>\<rparr>"


end
