(* ===== verification/Mf_Sysex.thy ===== *)
theory Mf_Sysex
  imports Mf_State
begin

unbundle bit_operations_syntax

text \<open>
  The SysEx parser of \<^verbatim>\<open>sysex.c\<close>: the state machine over the four kinds of USB-MIDI SysEx
  packets, the message buffer and the table of command handlers.  A handler gets the number of
  bytes after the command byte and the buffer from there on.  \<open>sysex_ptr\<close> is the offset into
  \<open>sysex_buffer\<close>, or \<^const>\<open>None\<close> for the null pointer it starts as.
\<close>

section \<open>State\<close>

datatype sysex_state_t = State_Begin | State_CheckMID | State_Invalid | State_NonRealtime | State_DJTT

type_synonym SysExFn = "u8 \<Rightarrow> u8 list \<Rightarrow> dev \<Rightarrow> dev run"

record sysex_globals =
  sysex_buffer :: "u8 list"
  sysex_state :: sysex_state_t
  sysExCommandMap :: "SysExFn option list"
  sysex_is_reading :: bool
  sysex_ptr :: "nat option"

definition MIDI_MAX_SYSEX :: nat where "MIDI_MAX_SYSEX = 64"
definition MAX_COMMAND :: u8 where "MAX_COMMAND = 8"
definition MANUFACTURER_ID :: u16 where "MANUFACTURER_ID = 0x0179"
definition DEVICE_MODEL_LSB :: u8 where "DEVICE_MODEL_LSB = 1"
definition DEVICE_MODEL_MSB :: u8 where "DEVICE_MODEL_MSB = 0"

definition manufacturer_hi :: u8 where "manufacturer_hi = ucast (drop_bit 8 MANUFACTURER_ID)"
definition manufacturer_lo :: u8 where "manufacturer_lo = ucast (MANUFACTURER_ID AND 0x7F)"

definition sysex_init :: sysex_globals where
  "sysex_init = \<lparr>sysex_buffer = replicate MIDI_MAX_SYSEX 0, sysex_state = State_Begin,
     sysExCommandMap = replicate (unat MAX_COMMAND) None, sysex_is_reading = False, sysex_ptr = None\<rparr>"

section \<open>Messages\<close>

definition identify_reply :: "u8 list" where
  "identify_reply = [0xF0, 0x7E, 0x7F, 0x06, 0x02, 0x00, manufacturer_hi, manufacturer_lo,
     DEVICE_FAMILY_LSB, DEVICE_FAMILY_MSB, DEVICE_MODEL_LSB, DEVICE_MODEL_MSB,
     ucast (drop_bit 8 DEVICE_VERSION_YEAR), ucast (DEVICE_VERSION_YEAR AND 0x7F),
     DEVICE_VERSION_MONTH, DEVICE_VERSION_DAY, 0xF7]"

definition send_sysex :: "u8 list \<Rightarrow> dev \<Rightarrow> dev run" where
  "send_sysex payload d = andthen (midi_stream_sysex (of_nat (length payload)) payload (midi d)) (\<lambda>m.
     Inr (d\<lparr>midi := m\<rparr>))"

definition sysex_handle :: "u8 \<Rightarrow> sysex_globals \<Rightarrow> dev \<Rightarrow> dev run" where
  "sysex_handle len g d =
     (if sysex_state g = State_DJTT \<and> len > 0 then
        andthen (load (sysex_buffer g) 0) (\<lambda>command.
        if command > 0 \<and> command \<le> MAX_COMMAND
        then andthen (load (sysExCommandMap g) (unat (command - 1))) (\<lambda>fn.
             case fn of None \<Rightarrow> Inr d | Some f \<Rightarrow> f (len - 1) (drop 1 (sysex_buffer g)) d)
        else Inr d)
      else if sysex_state g = State_NonRealtime then
        (if len \<ge> 2
         then andthen (load (sysex_buffer g) 0) (\<lambda>b0. andthen (load (sysex_buffer g) 1) (\<lambda>b1.
              if b0 = 0x06 \<and> b1 = 0x01 then send_sysex identify_reply d else Inr d))
         else Inr d)
      else Inr d)"

definition sysex_install :: "u8 \<Rightarrow> SysExFn \<Rightarrow> sysex_globals \<Rightarrow> sysex_globals run" where
  "sysex_install cmd fn g =
     (if cmd > 0 \<and> cmd \<le> MAX_COMMAND
      then andthen (store (sysExCommandMap g) (unat (cmd - 1)) (Some fn)) (\<lambda>t. Inr (g\<lparr>sysExCommandMap := t\<rparr>))
      else Inr g)"

section \<open>Packets\<close>

text \<open>\<^verbatim>\<open>*sysex_ptr++ = b\<close>, and the bounds check \<^verbatim>\<open>sysex_ptr + k < buffer_end\<close>, which the null
  pointer passes.\<close>

definition sysex_put :: "u8 \<Rightarrow> sysex_globals \<Rightarrow> sysex_globals run" where
  "sysex_put b g = (case sysex_ptr g of
       None \<Rightarrow> Inl Null_Pointer
     | Some p \<Rightarrow> andthen (store (sysex_buffer g) p b) (\<lambda>buf. Inr (g\<lparr>sysex_buffer := buf, sysex_ptr := Some (p + 1)\<rparr>)))"

definition sysex_room :: "nat \<Rightarrow> sysex_globals \<Rightarrow> bool" where
  "sysex_room k g = (case sysex_ptr g of None \<Rightarrow> True | Some p \<Rightarrow> p + k < MIDI_MAX_SYSEX)"

definition sysex_length :: "sysex_globals \<Rightarrow> u8" where
  "sysex_length g = (case sysex_ptr g of None \<Rightarrow> 0 | Some p \<Rightarrow> of_nat p)"

definition sysex_handle_3sc :: "MIDI_EventPacket_t \<Rightarrow> sysex_globals \<times> dev \<Rightarrow> (sysex_globals \<times> dev) run" where
  "sysex_handle_3sc packet s = (case s of (g, d) \<Rightarrow>
     if \<not> sysex_is_reading g then
       (let g = g\<lparr>sysex_is_reading := True, sysex_ptr := Some 0\<rparr>
        in Inr (g\<lparr>sysex_state :=
          (if Data1 packet = 0xF0 \<and> Data2 packet = 0x7E
              \<and> (Data3 packet = g_midi_sysex_channel (midi d) \<or> Data3 packet = 0x7F)
           then State_NonRealtime
           else if Data1 packet = 0xF0 \<and> Data2 packet = MIDI_MFR_ID_0 \<and> Data3 packet = MIDI_MFR_ID_1
           then State_CheckMID
           else State_Invalid)\<rparr>, d))
     else if sysex_state g = State_CheckMID then
       (if Data1 packet = MIDI_MFR_ID_2 \<and> sysex_room 2 g
        then andthen (sysex_put (Data2 packet) (g\<lparr>sysex_state := State_DJTT\<rparr>)) (\<lambda>g.
             andthen (sysex_put (Data3 packet) g) (\<lambda>g. Inr (g, d)))
        else Inr (g\<lparr>sysex_state := State_Invalid\<rparr>, d))
     else if sysex_state g = State_Invalid then Inr (g, d)
     else if sysex_room 3 g
       then andthen (sysex_put (Data1 packet) g) (\<lambda>g.
            andthen (sysex_put (Data2 packet) g) (\<lambda>g.
            andthen (sysex_put (Data3 packet) g) (\<lambda>g. Inr (g, d))))
       else Inr (g\<lparr>sysex_state := State_Invalid\<rparr>, d))"

definition sysex_handle_3e :: "MIDI_EventPacket_t \<Rightarrow> sysex_globals \<times> dev \<Rightarrow> (sysex_globals \<times> dev) run" where
  "sysex_handle_3e packet s = (case s of (g, d) \<Rightarrow>
     let g = g\<lparr>sysex_is_reading := False\<rparr>
     in andthen
       (if sysex_state g = State_CheckMID then
          (if Data1 packet = MIDI_MFR_ID_2 \<and> sysex_room 2 g
           then andthen (sysex_put (Data2 packet) (g\<lparr>sysex_state := State_DJTT\<rparr>)) (\<lambda>g.
                andthen (sysex_put (Data3 packet) g) (\<lambda>g.
                andthen (sysex_handle (sysex_length g) g d) (\<lambda>d. Inr (g, d))))
           else Inr (g, d))
        else if sysex_state g \<noteq> State_Invalid then
          (if sysex_room 3 g
           then andthen (sysex_put (Data1 packet) g) (\<lambda>g.
                andthen (sysex_put (Data2 packet) g) (\<lambda>g.
                andthen (sysex_put (Data3 packet) g) (\<lambda>g.
                andthen (sysex_handle (sysex_length g) g d) (\<lambda>d. Inr (g, d)))))
           else Inr (g, d))
        else Inr (g, d))
       (\<lambda>(g, d). Inr (g\<lparr>sysex_state := State_Begin\<rparr>, d)))"

definition sysex_handle_2e :: "MIDI_EventPacket_t \<Rightarrow> sysex_globals \<times> dev \<Rightarrow> (sysex_globals \<times> dev) run" where
  "sysex_handle_2e packet s = (case s of (g, d) \<Rightarrow>
     if sysex_is_reading g then
       (let g = g\<lparr>sysex_is_reading := False\<rparr>
        in andthen
          (if sysex_state g \<noteq> State_Invalid \<and> sysex_room 2 g
           then andthen (sysex_put (Data1 packet) g) (\<lambda>g.
                andthen (sysex_put (Data2 packet) g) (\<lambda>g.
                andthen (sysex_handle (sysex_length g) g d) (\<lambda>d. Inr (g, d))))
           else Inr (g, d))
          (\<lambda>(g, d). Inr (g\<lparr>sysex_state := State_Begin\<rparr>, d)))
     else Inr (g, d))"

definition sysex_handle_1e :: "MIDI_EventPacket_t \<Rightarrow> sysex_globals \<times> dev \<Rightarrow> (sysex_globals \<times> dev) run" where
  "sysex_handle_1e packet s = (case s of (g, d) \<Rightarrow>
     if sysex_is_reading g then
       (let g = g\<lparr>sysex_is_reading := False\<rparr>
        in andthen
          (if sysex_state g \<noteq> State_Invalid \<and> sysex_room 1 g
           then andthen (sysex_put (Data1 packet) g) (\<lambda>g.
                andthen (sysex_handle (sysex_length g) g d) (\<lambda>d. Inr (g, d)))
           else Inr (g, d))
          (\<lambda>(g, d). Inr (g\<lparr>sysex_state := State_Begin\<rparr>, d)))
     else Inr (g, d))"

text \<open>The four SysEx cases of the switch over the packet kinds in \<^verbatim>\<open>midifighter64.c\<close>.\<close>

definition sysex_packet :: "u8 \<Rightarrow> MIDI_EventPacket_t \<Rightarrow> sysex_globals \<times> dev \<Rightarrow> (sysex_globals \<times> dev) run" where
  "sysex_packet command packet s =
     (if command = 4 then sysex_handle_3sc packet s
      else if command = 5 then sysex_handle_1e packet s
      else if command = 6 then sysex_handle_2e packet s
      else if command = 7 then sysex_handle_3e packet s
      else Inr s)"

section \<open>The parser as a machine on messages\<close>

text \<open>
  What the parser promises, without buffer, pointer and flags: it is idle, skips a message it
  does not want, waits for the last byte of the manufacturer number, or has collected the bytes
  of a message, a command (\<^const>\<open>True\<close>) or a universal non real time one (\<^const>\<open>False\<close>).  A
  step gives the next state and the message that is complete, if any.
\<close>

datatype parser = Idle | Skip | Check | Gather bool "u8 list"

definition collect_more :: "nat \<Rightarrow> MIDI_EventPacket_t \<Rightarrow> u8 list \<Rightarrow> u8 list option" where
  "collect_more k ev bs = (if length bs + k < MIDI_MAX_SYSEX
     then Some (bs @ take k [Data1 ev, Data2 ev, Data3 ev]) else None)"

fun parse_more :: "u8 \<Rightarrow> MIDI_EventPacket_t \<Rightarrow> parser \<Rightarrow> parser" where
  "parse_more channel ev Idle =
     (if Data1 ev = 0xF0 \<and> Data2 ev = 0x7E \<and> (Data3 ev = channel \<or> Data3 ev = 0x7F) then Gather False []
      else if Data1 ev = 0xF0 \<and> Data2 ev = MIDI_MFR_ID_0 \<and> Data3 ev = MIDI_MFR_ID_1 then Check
      else Skip)"
| "parse_more channel ev Skip = Skip"
| "parse_more channel ev Check = (if Data1 ev = MIDI_MFR_ID_2 then Gather True [Data2 ev, Data3 ev] else Skip)"
| "parse_more channel ev (Gather k bs) = (case collect_more 3 ev bs of None \<Rightarrow> Skip | Some bs \<Rightarrow> Gather k bs)"

fun parse_end :: "nat \<Rightarrow> MIDI_EventPacket_t \<Rightarrow> parser \<Rightarrow> (bool \<times> u8 list) option" where
  "parse_end n ev Check = (if n = 3 \<and> Data1 ev = MIDI_MFR_ID_2 then Some (True, [Data2 ev, Data3 ev]) else None)"
| "parse_end n ev (Gather k bs) = map_option (Pair k) (collect_more n ev bs)"
| "parse_end n ev p = None"

definition end_size :: "u8 \<Rightarrow> nat" where
  "end_size command = unat command - 4"

definition parse_packet :: "u8 \<Rightarrow> u8 \<Rightarrow> MIDI_EventPacket_t \<Rightarrow> parser \<Rightarrow> parser \<times> (bool \<times> u8 list) option" where
  "parse_packet channel command ev p =
     (if command = 4 then (parse_more channel ev p, None)
      else if command = 5 \<or> command = 6 \<or> command = 7 then (Idle, parse_end (end_size command) ev p)
      else (p, None))"

definition parser_of :: "sysex_globals \<Rightarrow> parser" where
  "parser_of g = (if \<not> sysex_is_reading g then Idle
     else (let bs = (case sysex_ptr g of None \<Rightarrow> [] | Some p \<Rightarrow> take p (sysex_buffer g))
           in case sysex_state g of
                State_CheckMID \<Rightarrow> Check
              | State_NonRealtime \<Rightarrow> Gather False bs
              | State_DJTT \<Rightarrow> Gather True bs
              | _ \<Rightarrow> Skip))"

text \<open>
  The invariant: the buffer and the command table have their sizes, the pointer is inside the
  buffer, while a message is read it is set and the state is not \<^const>\<open>State_Begin\<close>, and between
  messages the state is \<^const>\<open>State_Begin\<close>.
\<close>

definition sysex_wf :: "sysex_globals \<Rightarrow> bool" where
  "sysex_wf g \<longleftrightarrow> length (sysex_buffer g) = MIDI_MAX_SYSEX \<and> length (sysExCommandMap g) = unat MAX_COMMAND
     \<and> (case sysex_ptr g of None \<Rightarrow> \<not> sysex_is_reading g | Some p \<Rightarrow> p < MIDI_MAX_SYSEX)
     \<and> (sysex_is_reading g \<longleftrightarrow> sysex_state g \<noteq> State_Begin)
     \<and> (sysex_state g = State_CheckMID \<longrightarrow> sysex_ptr g = Some 0)"

text \<open>The parser handed the complete message \<open>(k, bs)\<close> to \<^const>\<open>sysex_handle\<close> in state \<open>h\<close>.\<close>

definition holds_message :: "bool \<Rightarrow> u8 list \<Rightarrow> sysex_globals \<Rightarrow> bool" where
  "holds_message k bs h \<longleftrightarrow> sysex_state h = (if k then State_DJTT else State_NonRealtime)
     \<and> length (sysex_buffer h) = MIDI_MAX_SYSEX \<and> length bs < MIDI_MAX_SYSEX
     \<and> take (length bs) (sysex_buffer h) = bs \<and> sysex_ptr h = Some (length bs)"

definition deliver :: "(bool \<times> u8 list) option \<Rightarrow> sysex_globals \<Rightarrow> dev \<Rightarrow> dev run" where
  "deliver msg h d = (case msg of None \<Rightarrow> Inr d | Some (k, bs) \<Rightarrow> sysex_handle (of_nat (length bs)) h d)"

section \<open>The parser refines the machine\<close>

lemma sysex_put_ok:
  assumes "sysex_ptr g = Some p" "p < length (sysex_buffer g)"
  shows "sysex_put b g = Inr (g\<lparr>sysex_buffer := (sysex_buffer g)[p := b], sysex_ptr := Some (p + 1)\<rparr>)"
  using assms by (simp add: sysex_put_def)

definition put_all :: "nat \<Rightarrow> u8 list \<Rightarrow> sysex_globals \<Rightarrow> sysex_globals" where
  "put_all p bs g = g\<lparr>sysex_buffer := take p (sysex_buffer g) @ bs @ drop (p + length bs) (sysex_buffer g),
     sysex_ptr := Some (p + length bs)\<rparr>"

lemma update_as_append: "p < length xs \<Longrightarrow> xs[p := b] = take p xs @ [b] @ drop (p + 1) xs"
  by (simp add: upd_conv_take_nth_drop)

lemma sysex_put_put_all:
  assumes "sysex_ptr g = Some p" "p < length (sysex_buffer g)"
  shows "sysex_put b g = Inr (put_all p [b] g)"
  using assms by (simp add: sysex_put_ok put_all_def update_as_append)

lemma put_all_put_all:
  "p + length bs + length cs \<le> length (sysex_buffer g) \<Longrightarrow>
   put_all (p + length bs) cs (put_all p bs g) = put_all p (bs @ cs) g"
  by (simp add: put_all_def ac_simps)

definition parse_ok :: "u8 \<Rightarrow> MIDI_EventPacket_t \<Rightarrow> sysex_globals \<Rightarrow> dev \<Rightarrow> (sysex_globals \<times> dev) run \<Rightarrow> bool" where
  "parse_ok command ev g d r \<longleftrightarrow>
     (\<exists>h g'. r = andthen (deliver (snd (parse_packet (g_midi_sysex_channel (midi d)) command ev (parser_of g))) h d)
                   (\<lambda>d. Inr (g', d))
        \<and> sysex_wf g' \<and> parser_of g' = fst (parse_packet (g_midi_sysex_channel (midi d)) command ev (parser_of g))
        \<and> sysExCommandMap g' = sysExCommandMap g \<and> sysExCommandMap h = sysExCommandMap g
        \<and> (\<forall>k bs. snd (parse_packet (g_midi_sysex_channel (midi d)) command ev (parser_of g)) = Some (k, bs)
              \<longrightarrow> holds_message k bs h)
        \<and> (sysex_ptr g \<noteq> None \<longrightarrow> sysex_ptr g' \<noteq> None))"

lemma parse_okI:
  assumes "parse_packet (g_midi_sysex_channel (midi d)) command ev (parser_of g) = (q, msg)"
    and "r = andthen (deliver msg h d) (\<lambda>d. Inr (g', d))" "sysex_wf g'" "parser_of g' = q"
    and "sysExCommandMap g' = sysExCommandMap g" "sysExCommandMap h = sysExCommandMap g"
    and "\<And>k bs. msg = Some (k, bs) \<Longrightarrow> holds_message k bs h"
    and "sysex_ptr g \<noteq> None \<Longrightarrow> sysex_ptr g' \<noteq> None"
  shows "parse_ok command ev g d r"
  unfolding parse_ok_def using assms by (intro exI [of _ h] exI [of _ g']) simp

lemma deliver_None [simp]: "deliver None h d = Inr d"
  by (simp add: deliver_def)

lemma sysex_handle_other:
  "sysex_state g \<noteq> State_DJTT \<Longrightarrow> sysex_state g \<noteq> State_NonRealtime \<Longrightarrow> sysex_handle len g d = Inr d"
  by (simp add: sysex_handle_def)

lemma put_all_simps [simp]:
  "sysex_state (put_all p bs g) = sysex_state g" "sysex_is_reading (put_all p bs g) = sysex_is_reading g"
  "sysExCommandMap (put_all p bs g) = sysExCommandMap g" "sysex_ptr (put_all p bs g) = Some (p + length bs)"
  "p + length bs \<le> length (sysex_buffer g) \<Longrightarrow> length (sysex_buffer (put_all p bs g)) = length (sysex_buffer g)"
  "p \<le> length (sysex_buffer g) \<Longrightarrow> take (p + length bs) (sysex_buffer (put_all p bs g)) = take p (sysex_buffer g) @ bs"
  by (simp_all add: put_all_def)

lemma sysex_put_chain:
  assumes "sysex_ptr g = Some p"
  shows "p + 1 < length (sysex_buffer g) \<Longrightarrow> andthen (sysex_put a g) f = f (put_all p [a] g)"
    "p + 2 < length (sysex_buffer g) \<Longrightarrow>
     andthen (sysex_put a g) (\<lambda>g. andthen (sysex_put b g) f) = f (put_all p [a, b] g)"
    "p + 3 < length (sysex_buffer g) \<Longrightarrow>
     andthen (sysex_put a g) (\<lambda>g. andthen (sysex_put b g) (\<lambda>g. andthen (sysex_put c g) f)) = f (put_all p [a, b, c] g)"
  using assms put_all_put_all [of p "[a]" "[b]" g] put_all_put_all [of p "[a, b]" "[c]" g]
  by (simp_all add: sysex_put_put_all)

lemma ptr_cases:
  assumes "sysex_wf g" "sysex_is_reading g \<or> sysex_ptr g \<noteq> None"
  obtains p where "sysex_ptr g = Some p" "p < 64" "length (sysex_buffer g) = 64"
  using assms by (cases "sysex_ptr g") (auto simp: sysex_wf_def MIDI_MAX_SYSEX_def)

lemma more_ok:
  assumes "sysex_wf g"
  shows "parse_ok 4 ev g d (sysex_handle_3sc ev (g, d))"
proof (cases "sysex_is_reading g")
  case False
  let ?st = "if Data1 ev = 0xF0 \<and> Data2 ev = 0x7E \<and> (Data3 ev = g_midi_sysex_channel (midi d) \<or> Data3 ev = 0x7F)
      then State_NonRealtime
      else if Data1 ev = 0xF0 \<and> Data2 ev = MIDI_MFR_ID_0 \<and> Data3 ev = MIDI_MFR_ID_1 then State_CheckMID else State_Invalid"
  show ?thesis
    by (rule parse_okI [where g' = "g\<lparr>sysex_is_reading := True, sysex_ptr := Some 0, sysex_state := ?st\<rparr>" and h = g])
      (use False assms in \<open>auto simp: parse_packet_def parser_of_def sysex_handle_3sc_def sysex_wf_def MIDI_MAX_SYSEX_def\<close>)
next
  case True
  obtain p where p: "sysex_ptr g = Some p" "p < 64" "length (sysex_buffer g) = 64"
    using ptr_cases assms True by blast
  show ?thesis
  proof (cases "sysex_state g")
    case State_Begin
    then show ?thesis using True assms by (simp add: sysex_wf_def)
  next
    case State_CheckMID
    then have p0: "p = 0" using assms p(1) by (simp add: sysex_wf_def)
    let ?g = "if Data1 ev = MIDI_MFR_ID_2 then put_all 0 [Data2 ev, Data3 ev] (g\<lparr>sysex_state := State_DJTT\<rparr>)
       else g\<lparr>sysex_state := State_Invalid\<rparr>"
    show ?thesis
      by (rule parse_okI [where g' = ?g and h = g])
        (use True assms State_CheckMID p p0 in \<open>auto simp: parse_packet_def parser_of_def sysex_handle_3sc_def
           sysex_room_def sysex_put_chain sysex_wf_def MIDI_MAX_SYSEX_def put_all_def Let_def\<close>)
  next
    case State_Invalid
    show ?thesis
      by (rule parse_okI [where g' = g and h = g])
        (use True assms State_Invalid in \<open>auto simp: parse_packet_def parser_of_def sysex_handle_3sc_def Let_def\<close>)
  next
    case State_NonRealtime
    let ?g = "if p + 3 < 64 then put_all p [Data1 ev, Data2 ev, Data3 ev] g else g\<lparr>sysex_state := State_Invalid\<rparr>"
    show ?thesis
      by (rule parse_okI [where g' = ?g and h = g])
        (use True assms State_NonRealtime p in \<open>auto simp: parse_packet_def parser_of_def sysex_handle_3sc_def
           sysex_room_def sysex_put_chain sysex_wf_def MIDI_MAX_SYSEX_def put_all_def Let_def collect_more_def\<close>)
  next
    case State_DJTT
    let ?g = "if p + 3 < 64 then put_all p [Data1 ev, Data2 ev, Data3 ev] g else g\<lparr>sysex_state := State_Invalid\<rparr>"
    show ?thesis
      by (rule parse_okI [where g' = ?g and h = g])
        (use True assms State_DJTT p in \<open>auto simp: parse_packet_def parser_of_def sysex_handle_3sc_def
           sysex_room_def sysex_put_chain sysex_wf_def MIDI_MAX_SYSEX_def put_all_def Let_def collect_more_def\<close>)
  qed
qed

text \<open>The common end of a message: the last \<open>n\<close> bytes are appended and the message is handled.\<close>

definition finish_message :: "u8 list \<Rightarrow> nat \<Rightarrow> sysex_globals \<Rightarrow> dev \<Rightarrow> (sysex_globals \<times> dev) run" where
  "finish_message bs p g d =
     andthen (sysex_handle (of_nat (p + length bs)) (put_all p bs g) d)
       (\<lambda>d. Inr ((put_all p bs g)\<lparr>sysex_state := State_Begin\<rparr>, d))"

lemma finish_skip:
  assumes "sysex_wf g" "sysex_is_reading g" "command = 5 \<or> command = 6 \<or> command = 7"
    and "parse_end (end_size command) ev (parser_of g) = None"
  shows "parse_ok command ev g d (Inr (g\<lparr>sysex_is_reading := False, sysex_state := State_Begin\<rparr>, d))"
  by (rule parse_okI [where h = g and g' = "g\<lparr>sysex_is_reading := False, sysex_state := State_Begin\<rparr>"])
    (use assms in \<open>auto simp: parse_packet_def parser_of_def sysex_wf_def split: option.splits\<close>)

lemma finish_ok:
  assumes wf: "sysex_wf g" and p: "sysex_ptr g = Some p" and n: "p + length bs < 64"
    and command: "command = 5 \<or> command = 6 \<or> command = 7"
    and pe: "parse_end (end_size command) ev (parser_of g)
      = (if st = State_DJTT then Some (True, take p (sysex_buffer g) @ bs)
         else if st = State_NonRealtime then Some (False, take p (sysex_buffer g) @ bs) else None)"
  shows "parse_ok command ev g d (finish_message bs p (g\<lparr>sysex_is_reading := False, sysex_state := st\<rparr>) d)"
proof (rule parse_okI)
  let ?h = "put_all p bs (g\<lparr>sysex_is_reading := False, sysex_state := st\<rparr>)"
  let ?g' = "?h\<lparr>sysex_state := State_Begin\<rparr>"
  let ?msg = "parse_end (end_size command) ev (parser_of g)"
  have len: "length (sysex_buffer g) = 64" using wf by (simp add: sysex_wf_def MIDI_MAX_SYSEX_def)
  show "parse_packet (g_midi_sysex_channel (midi d)) command ev (parser_of g) = (Idle, ?msg)"
    using command by (auto simp: parse_packet_def)
  show "finish_message bs p (g\<lparr>sysex_is_reading := False, sysex_state := st\<rparr>) d
      = andthen (deliver ?msg ?h d) (\<lambda>d. Inr (?g', d))"
    using n len by (simp add: finish_message_def pe deliver_def sysex_handle_other)
  show "sysex_wf ?g'" "parser_of ?g' = Idle" "sysExCommandMap ?g' = sysExCommandMap g"
    "sysExCommandMap ?h = sysExCommandMap g" "sysex_ptr ?g' \<noteq> None"
    using wf n len by (simp_all add: sysex_wf_def parser_of_def MIDI_MAX_SYSEX_def)
  show "holds_message k cs ?h" if "?msg = Some (k, cs)" for k cs
    using that n len by (auto simp: pe holds_message_def MIDI_MAX_SYSEX_def put_all_def split: if_splits)
qed

lemma sysex_length_put_all [simp]: "sysex_length (put_all p bs g) = of_nat (p + length bs)"
  by (simp add: sysex_length_def)

lemma set_reading_state: "g\<lparr>sysex_is_reading := False\<rparr> = g\<lparr>sysex_is_reading := False, sysex_state := sysex_state g\<rparr>"
  by simp

lemma end1_ok:
  assumes "sysex_wf g"
  shows "parse_ok 5 ev g d (sysex_handle_1e ev (g, d))"
proof (cases "sysex_is_reading g")
  case False
  show ?thesis by (rule parse_okI [where g' = g and h = g])
    (use False assms in \<open>auto simp: parse_packet_def parser_of_def sysex_handle_1e_def end_size_def\<close>)
next
  case True
  then obtain p where p: "sysex_ptr g = Some p" "p < 64" "length (sysex_buffer g) = 64"
    using ptr_cases assms by blast
  show ?thesis
  proof (cases "sysex_state g \<noteq> State_Invalid \<and> p + 1 < 64")
    case room: True
    then have "sysex_handle_1e ev (g, d)
        = finish_message [Data1 ev] p (g\<lparr>sysex_is_reading := False, sysex_state := sysex_state g\<rparr>) d"
      using True p by (simp add: sysex_handle_1e_def sysex_room_def MIDI_MAX_SYSEX_def sysex_put_chain(1)
          finish_message_def andthen_assoc Let_def)
    then show ?thesis
      by (elim ssubst, intro finish_ok) (use True room p assms in \<open>auto simp: parser_of_def collect_more_def
          end_size_def MIDI_MAX_SYSEX_def sysex_wf_def Let_def split: sysex_state_t.splits\<close>)
  next
    case False
    then have "sysex_handle_1e ev (g, d) = Inr (g\<lparr>sysex_is_reading := False, sysex_state := State_Begin\<rparr>, d)"
      using True p by (auto simp: sysex_handle_1e_def sysex_room_def MIDI_MAX_SYSEX_def)
    then show ?thesis using True False p assms
      by (auto intro!: finish_skip simp: parser_of_def collect_more_def end_size_def MIDI_MAX_SYSEX_def sysex_wf_def
          Let_def split: sysex_state_t.splits)
  qed
qed

lemma end2_ok:
  assumes "sysex_wf g"
  shows "parse_ok 6 ev g d (sysex_handle_2e ev (g, d))"
proof (cases "sysex_is_reading g")
  case False
  show ?thesis by (rule parse_okI [where g' = g and h = g])
    (use False assms in \<open>auto simp: parse_packet_def parser_of_def sysex_handle_2e_def end_size_def\<close>)
next
  case True
  then obtain p where p: "sysex_ptr g = Some p" "p < 64" "length (sysex_buffer g) = 64"
    using ptr_cases assms by blast
  show ?thesis
  proof (cases "sysex_state g \<noteq> State_Invalid \<and> p + 2 < 64")
    case room: True
    then have "sysex_handle_2e ev (g, d)
        = finish_message [Data1 ev, Data2 ev] p (g\<lparr>sysex_is_reading := False, sysex_state := sysex_state g\<rparr>) d"
      using True p by (simp add: sysex_handle_2e_def sysex_room_def MIDI_MAX_SYSEX_def sysex_put_chain(2)
          finish_message_def andthen_assoc Let_def)
    then show ?thesis
      by (elim ssubst, intro finish_ok) (use True room p assms in \<open>auto simp: parser_of_def collect_more_def
          end_size_def MIDI_MAX_SYSEX_def sysex_wf_def Let_def split: sysex_state_t.splits\<close>)
  next
    case False
    then have "sysex_handle_2e ev (g, d) = Inr (g\<lparr>sysex_is_reading := False, sysex_state := State_Begin\<rparr>, d)"
      using True p by (auto simp: sysex_handle_2e_def sysex_room_def MIDI_MAX_SYSEX_def)
    then show ?thesis using True False p assms
      by (auto intro!: finish_skip simp: parser_of_def collect_more_def end_size_def MIDI_MAX_SYSEX_def sysex_wf_def
          Let_def split: sysex_state_t.splits)
  qed
qed

lemma end3_ok:
  assumes "sysex_wf g" "sysex_ptr g \<noteq> None"
  shows "parse_ok 7 ev g d (sysex_handle_3e ev (g, d))"
proof -
  obtain p where p: "sysex_ptr g = Some p" "p < 64" "length (sysex_buffer g) = 64"
    using ptr_cases assms by blast
  consider (check) "sysex_state g = State_CheckMID" "Data1 ev = MIDI_MFR_ID_2"
    | (collect) "sysex_state g \<noteq> State_CheckMID" "sysex_state g \<noteq> State_Invalid" "p + 3 < 64"
    | (idle) "sysex_state g = State_Begin" "\<not> p + 3 < 64"
    | (skip) "sysex_state g \<noteq> State_Begin"
        "(sysex_state g = State_CheckMID \<and> Data1 ev \<noteq> MIDI_MFR_ID_2) \<or> sysex_state g = State_Invalid
           \<or> (sysex_state g \<noteq> State_CheckMID \<and> \<not> p + 3 < 64)"
    by (cases "sysex_state g") auto
  then show ?thesis
  proof cases
    case check
    then have "p = 0" "sysex_is_reading g" using assms(1) p(1) by (simp_all add: sysex_wf_def)
    moreover from this have "sysex_handle_3e ev (g, d) = finish_message [Data2 ev, Data3 ev] p
        (g\<lparr>sysex_is_reading := False, sysex_state := State_DJTT\<rparr>) d"
      using check p by (simp add: sysex_handle_3e_def sysex_room_def MIDI_MAX_SYSEX_def sysex_put_chain(2)
          finish_message_def andthen_assoc Let_def)
    ultimately show ?thesis
      by (elim ssubst, intro finish_ok) (use check p assms in \<open>auto simp: parser_of_def end_size_def\<close>)
  next
    case collect
    then have "sysex_handle_3e ev (g, d) = finish_message [Data1 ev, Data2 ev, Data3 ev] p
        (g\<lparr>sysex_is_reading := False, sysex_state := sysex_state g\<rparr>) d"
      using p by (simp add: sysex_handle_3e_def sysex_room_def MIDI_MAX_SYSEX_def sysex_put_chain(3)
          finish_message_def andthen_assoc Let_def)
    then show ?thesis
      by (elim ssubst, intro finish_ok) (use collect p assms(1) in \<open>auto simp: parser_of_def collect_more_def
          end_size_def MIDI_MAX_SYSEX_def sysex_wf_def Let_def split: sysex_state_t.splits\<close>)
  next
    case idle
    then have "\<not> sysex_is_reading g" using assms(1) by (simp add: sysex_wf_def)
    then have "sysex_handle_3e ev (g, d) = Inr (g, d)"
      using idle p by (simp add: sysex_handle_3e_def sysex_room_def MIDI_MAX_SYSEX_def Let_def)
    then show ?thesis using idle \<open>\<not> sysex_is_reading g\<close> assms(1)
      by (intro parse_okI [where g' = g and h = g]) (auto simp: parse_packet_def parser_of_def)
  next
    case skip
    then have "sysex_is_reading g" using assms(1) by (simp add: sysex_wf_def)
    moreover have "sysex_handle_3e ev (g, d) = Inr (g\<lparr>sysex_is_reading := False, sysex_state := State_Begin\<rparr>, d)"
      using skip p assms(1) by (auto simp: sysex_handle_3e_def sysex_room_def MIDI_MAX_SYSEX_def Let_def)
    ultimately show ?thesis using skip p assms(1)
      by (auto intro!: finish_skip simp: parser_of_def collect_more_def end_size_def MIDI_MAX_SYSEX_def sysex_wf_def
          Let_def split: sysex_state_t.splits)
  qed
qed

lemma sysex_packet_refines:
  assumes "sysex_wf g" "command = 7 \<Longrightarrow> sysex_ptr g \<noteq> None"
  shows "parse_ok command ev g d (sysex_packet command ev (g, d))"
proof (cases "command = 4 \<or> command = 5 \<or> command = 6 \<or> command = 7")
  case True
  with assms show ?thesis
    using more_ok [OF assms(1)] end1_ok [OF assms(1)] end2_ok [OF assms(1)] end3_ok [OF assms(1)]
    by (auto simp: sysex_packet_def)
next
  case False
  then show ?thesis
    by (intro parse_okI [where g' = g and h = g]) (use assms in \<open>auto simp: parse_packet_def sysex_packet_def\<close>)
qed

section \<open>Whole messages\<close>

definition sysex_feed :: "MIDI_EventPacket_t list \<Rightarrow> sysex_globals \<times> dev \<Rightarrow> (sysex_globals \<times> dev) run" where
  "sysex_feed evs s = for_run (\<lambda>ev. sysex_packet (Event ev AND 0x0F) ev) evs s"

lemma sysex_feed_simps: "sysex_feed [ev] s = sysex_packet (Event ev AND 0x0F) ev s"
  by (cases "sysex_packet (Event ev AND 0x0F) ev s") (simp_all add: sysex_feed_def)

lemma sysex_feed_Cons: "sysex_feed (ev # evs) s = andthen (sysex_packet (Event ev AND 0x0F) ev s) (sysex_feed evs)"
  by (simp add: sysex_feed_def [abs_def])

text \<open>The rest of a message arrives: the parser hands all of it to \<^const>\<open>sysex_handle\<close>, once.\<close>

definition delivered :: "bool \<Rightarrow> u8 list \<Rightarrow> sysex_globals \<Rightarrow> dev \<Rightarrow> (sysex_globals \<times> dev) run \<Rightarrow> bool" where
  "delivered k msg g d r \<longleftrightarrow> (\<exists>h g'. r = andthen (sysex_handle (of_nat (length msg)) h d) (\<lambda>d. Inr (g', d))
     \<and> holds_message k msg h \<and> sysExCommandMap h = sysExCommandMap g
     \<and> sysex_wf g' \<and> parser_of g' = Idle \<and> sysExCommandMap g' = sysExCommandMap g)"

lemma gathering:
  "parser_of g = Gather k xs \<Longrightarrow> sysex_is_reading g"
  by (simp add: parser_of_def split: if_splits)

lemma deliver_last:
  assumes "sysex_wf g" "sysex_is_reading g" "command \<in> {5, 6, 7}"
    and "parse_end (end_size command) ev (parser_of g) = Some (k, msg)"
  shows "delivered k msg g d (sysex_packet command ev (g, d))"
proof -
  have ptr: "sysex_ptr g \<noteq> None" using assms(1,2) by (cases "sysex_ptr g") (simp_all add: sysex_wf_def)
  have "parse_packet c command ev (parser_of g) = (Idle, Some (k, msg))" for c
    using assms(3,4) by (auto simp: parse_packet_def)
  then show ?thesis
    using sysex_packet_refines [OF assms(1), of command ev d, OF ptr] by (simp add: parse_ok_def delivered_def deliver_def) blast
qed

lemma gather_step:
  assumes "sysex_wf g" "parser_of g = Gather k xs" "length xs + 3 < 64"
  obtains g' where "sysex_packet 4 ev (g, d) = Inr (g', d)" "sysex_wf g'"
    "parser_of g' = Gather k (xs @ [Data1 ev, Data2 ev, Data3 ev])" "sysExCommandMap g' = sysExCommandMap g"
proof -
  have "parse_packet c 4 ev (parser_of g) = (Gather k (xs @ [Data1 ev, Data2 ev, Data3 ev]), None)" for c
    using assms by (simp add: parse_packet_def collect_more_def MIDI_MAX_SYSEX_def)
  then show thesis using that sysex_packet_refines [OF assms(1), of 4 ev d] by (auto simp: parse_ok_def)
qed

lemma delivered_cong: "sysExCommandMap g' = sysExCommandMap g \<Longrightarrow> delivered k msg g' d r = delivered k msg g d r"
  by (simp add: delivered_def)

lemma gather_rest:
  assumes "sysex_wf g" "parser_of g = Gather k xs" "length xs + length bs < 64" "bs \<noteq> []"
  shows "delivered k (xs @ bs) g d (sysex_feed (sysex_packets False bs) (g, d))"
  using assms
proof (induction "False" bs arbitrary: g xs rule: sysex_packets.induct)
  case (2 a)
  let ?ev = "\<lparr>Event = 5, Data1 = a, Data2 = 0, Data3 = 0\<rparr> :: MIDI_EventPacket_t"
  have "delivered k (xs @ [a]) g d (sysex_packet 5 ?ev (g, d))"
    using 2(1) gathering [OF 2(2)] by (rule deliver_last) (use 2 in \<open>simp_all add: end_size_def collect_more_def MIDI_MAX_SYSEX_def\<close>)
  then show ?case by (simp add: sysex_feed_simps)
next
  case (3 a b)
  let ?ev = "\<lparr>Event = 6, Data1 = a, Data2 = b, Data3 = 0\<rparr> :: MIDI_EventPacket_t"
  have "delivered k (xs @ [a, b]) g d (sysex_packet 6 ?ev (g, d))"
    using 3(1) gathering [OF 3(2)] by (rule deliver_last) (use 3 in \<open>simp_all add: end_size_def collect_more_def MIDI_MAX_SYSEX_def\<close>)
  then show ?case by (simp add: sysex_feed_simps)
next
  case (4 a b c)
  let ?ev = "\<lparr>Event = 7, Data1 = a, Data2 = b, Data3 = c\<rparr> :: MIDI_EventPacket_t"
  have "delivered k (xs @ [a, b, c]) g d (sysex_packet 7 ?ev (g, d))"
    using 4(1) gathering [OF 4(2)] by (rule deliver_last) (use 4 in \<open>simp_all add: end_size_def collect_more_def MIDI_MAX_SYSEX_def\<close>)
  then show ?case by (simp add: sysex_feed_simps)
next
  case (5 a b c e bs)
  let ?ev = "\<lparr>Event = 4, Data1 = a, Data2 = b, Data3 = c\<rparr> :: MIDI_EventPacket_t"
  obtain g' where g': "sysex_packet 4 ?ev (g, d) = Inr (g', d)" "sysex_wf g'"
      "parser_of g' = Gather k (xs @ [a, b, c])" "sysExCommandMap g' = sysExCommandMap g"
    using gather_step [OF 5(2,3), of ?ev d thesis] 5(4) by simp
  have "delivered k ((xs @ [a, b, c]) @ e # bs) g' d (sysex_feed (sysex_packets False (e # bs)) (g', d))"
    using 5(4) g' by (intro 5(1)) simp_all
  then show ?case using g'(1) by (simp add: sysex_feed_Cons delivered_cong [OF g'(4)])
qed simp_all

lemma command_delivered:
  assumes wf: "sysex_wf g" "parser_of g = Idle" and len: "length body + 2 < 64"
  shows "delivered True (cmd # body @ [0xF7]) g d
    (sysex_feed (sysex_packets True (0xF0 # MIDI_MFR_ID_0 # MIDI_MFR_ID_1 # MIDI_MFR_ID_2 # cmd # body @ [0xF7])) (g, d))"
proof -
  let ?e1 = "\<lparr>Event = 4, Data1 = 0xF0, Data2 = MIDI_MFR_ID_0, Data3 = MIDI_MFR_ID_1\<rparr> :: MIDI_EventPacket_t"
  have "parse_packet c 4 ?e1 (parser_of g) = (Check, None)" for c
    using wf by (simp add: parse_packet_def MIDI_MFR_ID_0_def)
  then obtain g1 where g1: "sysex_packet 4 ?e1 (g, d) = Inr (g1, d)" "sysex_wf g1" "parser_of g1 = Check"
      "sysExCommandMap g1 = sysExCommandMap g"
    using sysex_packet_refines [OF wf(1), of 4 ?e1 d] by (auto simp: parse_ok_def)
  then have reading: "sysex_is_reading g1" by (simp add: parser_of_def split: if_splits)
  have "delivered True (cmd # body @ [0xF7]) g1 d
     (sysex_feed (sysex_packets False (MIDI_MFR_ID_2 # cmd # body @ [0xF7])) (g1, d))"
  proof (cases body)
    case Nil
    have "delivered True [cmd, 0xF7] g1 d
        (sysex_packet 7 \<lparr>Event = 7, Data1 = MIDI_MFR_ID_2, Data2 = cmd, Data3 = 0xF7\<rparr> (g1, d))"
      using g1(2) reading by (rule deliver_last) (simp_all add: g1(3) end_size_def)
    with Nil show ?thesis by (simp add: sysex_feed_simps)
  next
    case (Cons x xs)
    let ?e2 = "\<lparr>Event = 4, Data1 = MIDI_MFR_ID_2, Data2 = cmd, Data3 = x\<rparr> :: MIDI_EventPacket_t"
    have "parse_packet c 4 ?e2 (parser_of g1) = (Gather True [cmd, x], None)" for c
      by (simp add: parse_packet_def g1(3))
    then obtain g2 where g2: "sysex_packet 4 ?e2 (g1, d) = Inr (g2, d)" "sysex_wf g2"
        "parser_of g2 = Gather True [cmd, x]" "sysExCommandMap g2 = sysExCommandMap g1"
      using sysex_packet_refines [OF g1(2), of 4 ?e2 d] by (auto simp: parse_ok_def)
    have "delivered True ([cmd, x] @ (xs @ [0xF7])) g2 d (sysex_feed (sysex_packets False (xs @ [0xF7])) (g2, d))"
      using g2 len Cons by (intro gather_rest) simp_all
    moreover have "sysex_packets False (MIDI_MFR_ID_2 # cmd # body @ [0xF7]) = ?e2 # sysex_packets False (xs @ [0xF7])"
      using Cons by (cases xs) simp_all
    ultimately show ?thesis using Cons g2(1) by (simp add: sysex_feed_Cons delivered_cong [OF g2(4)])
  qed
  then show ?thesis using g1(1) by (simp add: sysex_feed_Cons delivered_cong [OF g1(4)])
qed

text \<open>A message that is skipped, or outgrows the buffer, leaves the device as it was.\<close>

definition ignored :: "sysex_globals \<Rightarrow> dev \<Rightarrow> (sysex_globals \<times> dev) run \<Rightarrow> bool" where
  "ignored g d r \<longleftrightarrow> (\<exists>g'. r = Inr (g', d) \<and> sysex_wf g' \<and> parser_of g' = Idle
     \<and> sysExCommandMap g' = sysExCommandMap g)"

lemma quiet_step:
  assumes "sysex_wf g" "command = 7 \<Longrightarrow> sysex_ptr g \<noteq> None"
    "parse_packet (g_midi_sysex_channel (midi d)) command ev (parser_of g) = (q, None)"
  obtains g' where "sysex_packet command ev (g, d) = Inr (g', d)" "sysex_wf g'" "parser_of g' = q"
    "sysExCommandMap g' = sysExCommandMap g"
  using sysex_packet_refines [OF assms(1,2), of command ev d] assms(3) by (auto simp: parse_ok_def)

lemma reading_ptr: "sysex_wf g \<Longrightarrow> parser_of g \<noteq> Idle \<Longrightarrow> sysex_ptr g \<noteq> None"
  by (cases "sysex_ptr g") (auto simp: sysex_wf_def parser_of_def)

lemma skip_rest:
  assumes "sysex_wf g" "parser_of g = Skip" "bs \<noteq> []"
  shows "ignored g d (sysex_feed (sysex_packets False bs) (g, d))"
  using assms
proof (induction "False" bs arbitrary: g rule: sysex_packets.induct)
  case (5 a b c e bs)
  let ?ev = "\<lparr>Event = 4, Data1 = a, Data2 = b, Data3 = c\<rparr> :: MIDI_EventPacket_t"
  obtain g' where g': "sysex_packet 4 ?ev (g, d) = Inr (g', d)" "sysex_wf g'" "parser_of g' = Skip"
      "sysExCommandMap g' = sysExCommandMap g"
    using quiet_step [OF 5(2), of 4 d ?ev Skip thesis] 5(3) by (simp add: parse_packet_def)
  then have "ignored g' d (sysex_feed (sysex_packets False (e # bs)) (g', d))" by (intro 5(1)) simp_all
  then show ?case using g'(1) by (simp add: sysex_feed_Cons ignored_def g'(4))
next
  case (2 a)
  show ?case
    using quiet_step [OF 2(1), of 5 d "\<lparr>Event = 5, Data1 = a, Data2 = 0, Data3 = 0\<rparr>" Idle ?thesis] 2(2)
    by (auto simp: parse_packet_def sysex_feed_simps ignored_def)
next
  case (3 a b)
  show ?case
    using quiet_step [OF 3(1), of 6 d "\<lparr>Event = 6, Data1 = a, Data2 = b, Data3 = 0\<rparr>" Idle ?thesis] 3(2)
    by (auto simp: parse_packet_def sysex_feed_simps ignored_def)
next
  case (4 a b c)
  show ?case
    using quiet_step [OF 4(1), of 7 d "\<lparr>Event = 7, Data1 = a, Data2 = b, Data3 = c\<rparr>" Idle ?thesis] 4(2)
      reading_ptr [OF 4(1)]
    by (auto simp: parse_packet_def sysex_feed_simps ignored_def)
qed simp_all

lemma overflow_rest:
  assumes "sysex_wf g" "parser_of g = Gather k xs" "64 \<le> length xs + length bs" "bs \<noteq> []"
  shows "ignored g d (sysex_feed (sysex_packets False bs) (g, d))"
  using assms
proof (induction "False" bs arbitrary: g xs rule: sysex_packets.induct)
  case (5 a b c e bs)
  let ?ev = "\<lparr>Event = 4, Data1 = a, Data2 = b, Data3 = c\<rparr> :: MIDI_EventPacket_t"
  let ?q = "if length xs + 3 < 64 then Gather k (xs @ [a, b, c]) else Skip"
  obtain g' where g': "sysex_packet 4 ?ev (g, d) = Inr (g', d)" "sysex_wf g'" "parser_of g' = ?q"
      "sysExCommandMap g' = sysExCommandMap g"
    using quiet_step [OF 5(2), of 4 d ?ev ?q thesis] 5(3)
    by (simp add: parse_packet_def collect_more_def MIDI_MAX_SYSEX_def)
  have "ignored g' d (sysex_feed (sysex_packets False (e # bs)) (g', d))"
  proof (cases "length xs + 3 < 64")
    case True
    with g' 5(4) show ?thesis by (intro 5(1) [of g' "xs @ [a, b, c]"]) simp_all
  next
    case False
    with g' show ?thesis by (intro skip_rest) simp_all
  qed
  then show ?case using g'(1) by (simp add: sysex_feed_Cons ignored_def g'(4))
next
  case (2 a)
  show ?case
    using quiet_step [OF 2(1), of 5 d "\<lparr>Event = 5, Data1 = a, Data2 = 0, Data3 = 0\<rparr>" Idle ?thesis] 2(2,3)
    by (auto simp: parse_packet_def sysex_feed_simps ignored_def end_size_def collect_more_def MIDI_MAX_SYSEX_def)
next
  case (3 a b)
  show ?case
    using quiet_step [OF 3(1), of 6 d "\<lparr>Event = 6, Data1 = a, Data2 = b, Data3 = 0\<rparr>" Idle ?thesis] 3(2,3)
    by (auto simp: parse_packet_def sysex_feed_simps ignored_def end_size_def collect_more_def MIDI_MAX_SYSEX_def)
next
  case (4 a b c)
  show ?case
    using quiet_step [OF 4(1), of 7 d "\<lparr>Event = 7, Data1 = a, Data2 = b, Data3 = c\<rparr>" Idle ?thesis] 4(2,3)
      reading_ptr [OF 4(1)]
    by (auto simp: parse_packet_def sysex_feed_simps ignored_def end_size_def collect_more_def MIDI_MAX_SYSEX_def)
qed simp_all

lemma sysex_handle_command:
  assumes "holds_message True (cmd # args) h" "0 < cmd" "cmd \<le> MAX_COMMAND" "length (sysExCommandMap h) = 8"
  shows "sysex_handle (of_nat (length (cmd # args))) h d
    = (case sysExCommandMap h ! unat (cmd - 1) of None \<Rightarrow> Inr d
       | Some f \<Rightarrow> f (of_nat (length args)) (drop 1 (sysex_buffer h)) d)"
    "length (drop 1 (sysex_buffer h)) = 63" "take (length args) (drop 1 (sysex_buffer h)) = args"
proof -
  obtain b bs where buf: "sysex_buffer h = b # bs"
    using assms(1) by (cases "sysex_buffer h") (auto simp: holds_message_def)
  then show "length (drop 1 (sysex_buffer h)) = 63" "take (length args) (drop 1 (sysex_buffer h)) = args"
    using assms(1) by (auto simp: holds_message_def MIDI_MAX_SYSEX_def)
  have cmd: "b = cmd" using assms(1) buf by (auto simp: holds_message_def)
  have n: "unat (cmd - 1) < 8"
  proof -
    have "unat cmd \<le> 8" using assms(3) by (simp add: MAX_COMMAND_def word_le_nat_alt)
    then show ?thesis using assms(2) by (simp add: unat_minus_one word_neq_0_conv)
  qed
  have "(of_nat (length (cmd # args)) :: u8) > 0"
    using assms(1) by (auto simp: holds_message_def MIDI_MAX_SYSEX_def word_less_nat_alt unat_of_nat simp del: of_nat_Suc)
  then show "sysex_handle (of_nat (length (cmd # args))) h d
    = (case sysExCommandMap h ! unat (cmd - 1) of None \<Rightarrow> Inr d
       | Some f \<Rightarrow> f (of_nat (length args)) (drop 1 (sysex_buffer h)) d)"
    using assms n buf cmd by (simp add: sysex_handle_def holds_message_def split: option.split)
qed

lemma command_reaches_handler:
  assumes "sysex_wf g" "parser_of g = Idle" "length body + 2 < 64" "0 < cmd" "cmd \<le> MAX_COMMAND"
    and "sysExCommandMap g ! unat (cmd - 1) = Some f"
  shows "\<exists>buf g'. sysex_feed (sysex_packets True (0xF0 # MIDI_MFR_ID_0 # MIDI_MFR_ID_1 # MIDI_MFR_ID_2 # cmd # body @ [0xF7])) (g, d)
       = andthen (f (of_nat (length body + 1)) buf d) (\<lambda>d. Inr (g', d))
     \<and> length buf = 63 \<and> take (length body + 1) buf = body @ [0xF7]
     \<and> sysex_wf g' \<and> parser_of g' = Idle \<and> sysExCommandMap g' = sysExCommandMap g"
proof -
  obtain h g' where r: "sysex_feed (sysex_packets True (0xF0 # MIDI_MFR_ID_0 # MIDI_MFR_ID_1 # MIDI_MFR_ID_2 # cmd # body @ [0xF7])) (g, d)
       = andthen (sysex_handle (of_nat (length (cmd # body @ [0xF7]))) h d) (\<lambda>d. Inr (g', d))"
      "holds_message True (cmd # body @ [0xF7]) h" "sysExCommandMap h = sysExCommandMap g"
      "sysex_wf g'" "parser_of g' = Idle" "sysExCommandMap g' = sysExCommandMap g"
    using command_delivered [OF assms(1-3), of cmd d] unfolding delivered_def by blast
  have "length (sysExCommandMap h) = 8" using assms(1) r(3) by (simp add: sysex_wf_def MAX_COMMAND_def)
  note call = sysex_handle_command(1) [OF r(2) assms(4,5) this, of d]
    sysex_handle_command(2,3) [OF r(2) assms(4,5) this]
  show ?thesis
    using r call assms(6) by (intro exI [of _ "drop 1 (sysex_buffer h)"] exI [of _ g']) simp
qed

lemma foreign_message_ignored:
  assumes "sysex_wf g" "parser_of g = Idle" "bs \<noteq> []"
    and "parse_more (g_midi_sysex_channel (midi d)) \<lparr>Event = 4, Data1 = a, Data2 = b, Data3 = c\<rparr> Idle = Skip"
  shows "ignored g d (sysex_feed (sysex_packets True (a # b # c # bs)) (g, d))"
proof -
  let ?ev = "\<lparr>Event = 4, Data1 = a, Data2 = b, Data3 = c\<rparr> :: MIDI_EventPacket_t"
  obtain g' where g': "sysex_packet 4 ?ev (g, d) = Inr (g', d)" "sysex_wf g'" "parser_of g' = Skip"
      "sysExCommandMap g' = sysExCommandMap g"
    using quiet_step [OF assms(1), of 4 d ?ev Skip thesis] assms(2,4) by (simp add: parse_packet_def)
  have "sysex_packets True (a # b # c # bs) = ?ev # sysex_packets False bs" using assms(3) by (cases bs) simp_all
  then show ?thesis using g'(1) skip_rest [OF g'(2,3) assms(3), of d] by (simp add: sysex_feed_Cons ignored_def g'(4))
qed

lemma parse_message_nonempty: "snd (parse_packet c command ev p) = Some (k, bs) \<Longrightarrow> bs \<noteq> []"
  by (cases p) (auto simp: parse_packet_def collect_more_def end_size_def split: if_splits)

lemma long_command_ignored:
  assumes "sysex_wf g" "parser_of g = Idle" "62 \<le> length body"
  shows "ignored g d (sysex_feed (sysex_packets True
      (0xF0 # MIDI_MFR_ID_0 # MIDI_MFR_ID_1 # MIDI_MFR_ID_2 # cmd # body @ [0xF7])) (g, d))"
proof -
  obtain x xs where body: "body = x # xs" using assms(3) by (cases body) auto
  let ?e1 = "\<lparr>Event = 4, Data1 = 0xF0, Data2 = MIDI_MFR_ID_0, Data3 = MIDI_MFR_ID_1\<rparr> :: MIDI_EventPacket_t"
  let ?e2 = "\<lparr>Event = 4, Data1 = MIDI_MFR_ID_2, Data2 = cmd, Data3 = x\<rparr> :: MIDI_EventPacket_t"
  obtain g1 where g1: "sysex_packet 4 ?e1 (g, d) = Inr (g1, d)" "sysex_wf g1" "parser_of g1 = Check"
      "sysExCommandMap g1 = sysExCommandMap g"
    using quiet_step [OF assms(1), of 4 d ?e1 Check thesis] assms(2) by (simp add: parse_packet_def MIDI_MFR_ID_0_def)
  obtain g2 where g2: "sysex_packet 4 ?e2 (g1, d) = Inr (g2, d)" "sysex_wf g2" "parser_of g2 = Gather True [cmd, x]"
      "sysExCommandMap g2 = sysExCommandMap g1"
    using quiet_step [OF g1(2), of 4 d ?e2 "Gather True [cmd, x]" thesis] g1(3) by (simp add: parse_packet_def)
  have "ignored g2 d (sysex_feed (sysex_packets False (xs @ [0xF7])) (g2, d))"
    using g2 body assms(3) by (intro overflow_rest [of g2 True "[cmd, x]"]) simp_all
  moreover have "sysex_packets False (MIDI_MFR_ID_2 # cmd # body @ [0xF7]) = ?e2 # sysex_packets False (xs @ [0xF7])"
    using body by (cases xs) simp_all
  ultimately show ?thesis using g1(1,4) g2(1,4) by (simp add: sysex_feed_Cons ignored_def)
qed

section \<open>The interface to the command handlers\<close>

text \<open>
  What the parser relies on: on a permitted command message every installed handler keeps the
  invariant of the device, and so does sending the identity reply.  The message is the command
  byte and the bytes after it; the buffer a handler gets starts with those bytes.
\<close>

locale sysex_commands =
  fixes commands :: "SysExFn option list"
    and inv :: "dev \<Rightarrow> bool"
    and permitted :: "u8 list \<Rightarrow> bool"
  assumes command_safe: "\<lbrakk>k < 8; commands ! k = Some f; inv d; permitted (of_nat (k + 1) # args);
      length args < 63; length buf = 63; take (length args) buf = args\<rbrakk> \<Longrightarrow> returns inv (f (of_nat (length args)) buf d)"
    and identify_safe: "inv d \<Longrightarrow> returns inv (send_sysex identify_reply d)"
begin

lemma handle_safe:
  assumes "holds_message k bs h" "bs \<noteq> []" "sysExCommandMap h = commands" "length commands = 8" "inv d" "k \<Longrightarrow> permitted bs"
  shows "returns inv (sysex_handle (of_nat (length bs)) h d)"
proof (cases k)
  case False
  then have "sysex_state h = State_NonRealtime" "0 < length (sysex_buffer h)" "1 < length (sysex_buffer h)"
    using assms(1) by (simp_all add: holds_message_def MIDI_MAX_SYSEX_def)
  then show ?thesis using assms(5) identify_safe by (simp add: sysex_handle_def)
next
  case True
  obtain cmd args where bs: "bs = cmd # args" using assms(2) by (cases bs) auto
  show ?thesis
  proof (cases "0 < cmd \<and> cmd \<le> MAX_COMMAND")
    case in_range: True
    have h: "holds_message True (cmd # args) h" using assms(1) True bs by simp
    note call = sysex_handle_command(1) [OF h, of d] sysex_handle_command(2,3) [OF h]
    have "unat cmd \<le> 8" using in_range by (simp add: MAX_COMMAND_def word_le_nat_alt)
    then have n: "unat (cmd - 1) < 8" using in_range by (simp add: unat_minus_one word_neq_0_conv)
    have n1: "of_nat (unat (cmd - 1) + 1) = cmd" by simp
    have args: "length args < 63" using h by (simp add: holds_message_def MIDI_MAX_SYSEX_def)
    have "returns inv (f (of_nat (length args)) (drop 1 (sysex_buffer h)) d)"
      if "commands ! unat (cmd - 1) = Some f" for f
    proof (rule command_safe [OF n that assms(5) _ args])
      show "permitted (of_nat (unat (cmd - 1) + 1) # args)" unfolding n1 using assms(6) True bs by simp
      show "length (drop 1 (sysex_buffer h)) = 63" "take (length args) (drop 1 (sysex_buffer h)) = args"
        using call(2,3) in_range assms(3,4) by simp_all
    qed
    then show ?thesis using call(1) in_range assms(3,4,5) bs by (simp split: option.split)
  next
    case False
    then have "sysex_handle (of_nat (length bs)) h d = Inr d"
      using assms(1) bs True by (cases "sysex_buffer h") (auto simp: sysex_handle_def holds_message_def MIDI_MAX_SYSEX_def)
    then show ?thesis using assms(5) by simp
  qed
qed

lemma packet_safe:
  assumes g: "sysex_wf g" "sysExCommandMap g = commands" "inv d" "command = 7 \<Longrightarrow> sysex_ptr g \<noteq> None"
    and ok: "\<And>bs. snd (parse_packet (g_midi_sysex_channel (midi d)) command ev (parser_of g)) = Some (True, bs) \<Longrightarrow> permitted bs"
  shows "returns (\<lambda>(g', d'). sysex_wf g' \<and> sysExCommandMap g' = commands \<and> inv d'
      \<and> parser_of g' = fst (parse_packet (g_midi_sysex_channel (midi d)) command ev (parser_of g)))
    (sysex_packet command ev (g, d))"
proof -
  let ?msg = "snd (parse_packet (g_midi_sysex_channel (midi d)) command ev (parser_of g))"
  obtain h g' where r: "sysex_packet command ev (g, d) = andthen (deliver ?msg h d) (\<lambda>d. Inr (g', d))"
      "sysex_wf g'" "sysExCommandMap g' = commands" "sysExCommandMap h = commands"
      "\<forall>k bs. ?msg = Some (k, bs) \<longrightarrow> holds_message k bs h"
      "parser_of g' = fst (parse_packet (g_midi_sysex_channel (midi d)) command ev (parser_of g))"
    using sysex_packet_refines [OF g(1,4), of command ev d] g(2) unfolding parse_ok_def by auto
  have len: "length commands = 8" using g(1,2) by (simp add: sysex_wf_def MAX_COMMAND_def)
  have "returns inv (deliver ?msg h d)"
  proof (cases ?msg)
    case None
    then show ?thesis using g(3) by simp
  next
    case (Some kb)
    obtain k bs where kb: "kb = (k, bs)" by (cases kb)
    have "bs \<noteq> []" using parse_message_nonempty Some kb by blast
    then have "returns inv (sysex_handle (of_nat (length bs)) h d)"
      using r(4,5) Some kb len g(3) ok by (intro handle_safe [of k]) auto
    then show ?thesis using Some kb by (simp add: deliver_def)
  qed
  then show ?thesis unfolding r(1) using r by (auto intro!: returns_andthen)
qed

end

section \<open>Properties\<close>

text \<open>C3: the parser with its buffer, write pointer and flags implements the abstract machine on
  messages.  From every state the parser can be in, a SysEx packet moves it as the machine
  moves, hands \<^verbatim>\<open>sysex_handle\<close> exactly the messages the machine completes, each of them once and
  whole, and keeps the write pointer inside the buffer; the one packet excluded is an end
  packet of three bytes before any message has begun.\<close>

theorem sysex_parser_refines:
  assumes "sysex_wf g" "command = 7 \<longrightarrow> sysex_ptr g \<noteq> None"
  shows "parse_ok command ev g d (sysex_packet command ev (g, d))"
  using sysex_packet_refines assms by blast

definition sysex_reading_example :: sysex_globals where
  "sysex_reading_example = sysex_init\<lparr>sysex_is_reading := True, sysex_ptr := Some 0, sysex_state := State_CheckMID\<rparr>"

theorem sysex_parser_refines_witness:
  "sysex_wf sysex_reading_example \<and> sysex_ptr sysex_reading_example \<noteq> None
   \<and> parse_ok 7 (packet_example\<lparr>Data1 := 0x79\<rparr>) sysex_reading_example dev_example
       (sysex_packet 7 (packet_example\<lparr>Data1 := 0x79\<rparr>) (sysex_reading_example, dev_example))"
proof -
  have "sysex_wf sysex_reading_example" "sysex_ptr sysex_reading_example \<noteq> None"
    by (simp_all add: sysex_reading_example_def sysex_init_def sysex_wf_def MIDI_MAX_SYSEX_def)
  then show ?thesis using sysex_parser_refines by blast
qed

text \<open>C17: a command reaches its handler.  A manufacturer command of up to 61 argument bytes, cut into
  USB-MIDI packets, makes the idle parser call the handler installed under its command number
  once, with the number of bytes after the command byte and a buffer that starts with them,
  and the parser is idle again.\<close>

theorem sysex_command_delivery:
  assumes "sysex_wf g" "parser_of g = Idle" "length body + 2 < 64" "0 < cmd" "cmd \<le> MAX_COMMAND"
    and "sysExCommandMap g ! unat (cmd - 1) = Some f"
  shows "\<exists>buf g'. sysex_feed (sysex_packets True (0xF0 # MIDI_MFR_ID_0 # MIDI_MFR_ID_1 # MIDI_MFR_ID_2 # cmd # body @ [0xF7])) (g, d)
       = andthen (f (of_nat (length body + 1)) buf d) (\<lambda>d. Inr (g', d))
     \<and> length buf = 63 \<and> take (length body + 1) buf = body @ [0xF7]
     \<and> sysex_wf g' \<and> parser_of g' = Idle \<and> sysExCommandMap g' = sysExCommandMap g"
  using command_reaches_handler [OF assms] .

definition echo_handler :: SysExFn where
  "echo_handler n buf d = Inr (d\<lparr>watchdog_flag := (n = 3)\<rparr>)"

definition sysex_echo_example :: sysex_globals where
  "sysex_echo_example = sysex_init\<lparr>sysExCommandMap := Some echo_handler # replicate 7 None\<rparr>"

theorem sysex_command_delivery_witness:
  "\<exists>buf g'. sysex_feed (sysex_packets True [0xF0, MIDI_MFR_ID_0, MIDI_MFR_ID_1, MIDI_MFR_ID_2, 1, 5, 6, 0xF7]) (sysex_echo_example, dev_example)
       = andthen (echo_handler 3 buf dev_example) (\<lambda>d. Inr (g', d)) \<and> take 3 buf = [5, 6, 0xF7]"
proof -
  have wf: "sysex_wf sysex_echo_example" "parser_of sysex_echo_example = Idle"
    by (simp_all add: sysex_echo_example_def sysex_init_def sysex_wf_def MIDI_MAX_SYSEX_def MAX_COMMAND_def parser_of_def)
  show ?thesis
    using sysex_command_delivery [OF wf, of "[5, 6]" 1 echo_handler dev_example]
    by (simp add: sysex_echo_example_def MAX_COMMAND_def numeral_3_eq_3) blast
qed

text \<open>What is not for this device, or too long, has no effect.  A message of any length whose
  first three bytes open neither a universal message on this device's channel nor a message of
  its manufacturer leaves the device untouched and the parser idle, and so does a manufacturer
  command that does not fit in the buffer.\<close>

theorem sysex_foreign_ignored:
  assumes "sysex_wf g" "parser_of g = Idle"
  shows "(bs \<noteq> [] \<and> parse_more (g_midi_sysex_channel (midi d)) \<lparr>Event = 4, Data1 = a, Data2 = b, Data3 = c\<rparr> Idle = Skip \<longrightarrow>
      (\<exists>g'. sysex_feed (sysex_packets True (a # b # c # bs)) (g, d) = Inr (g', d) \<and> sysex_wf g' \<and> parser_of g' = Idle))
    \<and> (62 \<le> length body \<longrightarrow>
      (\<exists>g'. sysex_feed (sysex_packets True (0xF0 # MIDI_MFR_ID_0 # MIDI_MFR_ID_1 # MIDI_MFR_ID_2 # cmd # body @ [0xF7])) (g, d)
         = Inr (g', d) \<and> sysex_wf g' \<and> parser_of g' = Idle))"
  using foreign_message_ignored [OF assms, of bs d a b c] long_command_ignored [OF assms, of body d cmd]
  unfolding ignored_def by blast

theorem sysex_foreign_ignored_witness:
  "sysex_wf sysex_init \<and> (\<exists>g'. sysex_feed (sysex_packets True [0xF0, 0x41, 0x10, 0x42, 0xF7]) (sysex_init, dev_example)
     = Inr (g', dev_example))"
proof -
  have "sysex_wf sysex_init" "parser_of sysex_init = Idle"
    by (simp_all add: sysex_init_def sysex_wf_def MIDI_MAX_SYSEX_def parser_of_def)
  then show ?thesis
    using sysex_foreign_ignored [where g = sysex_init and bs = "[0x42, 0xF7]" and d = dev_example
        and a = "0xF0" and b = "0x41" and c = "0x10"]
    by (auto simp: MIDI_MFR_ID_0_def)
qed

text \<open>Before the first SysEx message has begun, a three byte end packet makes the parser write
  through the null pointer: unlike the other end packets it does not check that a message is
  being read, and the pointer passes the bounds check.\<close>

theorem sysex_stray_end_null_write:
  "sysex_handle_3e packet (sysex_init, d) = Inl Null_Pointer"
  by (simp add: sysex_handle_3e_def sysex_init_def sysex_room_def sysex_put_def Let_def)

end
