(* ===== verification/Mf_Bank.thy ===== *)
theory Mf_Bank
  imports Mf_Display
begin

unbundle bit_operations_syntax

text \<open>
  The bank and hold functions of \<^verbatim>\<open>midifighter64.c\<close>: changing the bank, the two bank select
  keys with their hold times, and the delayed note off of the LED feedback.  All of them compare
  times of the millisecond counter, which is 16 bits wide and wraps.
\<close>

section \<open>Operations\<close>

definition NOTE_OFF_FEEDBACK_DELAY_LIMIT :: u16 where "NOTE_OFF_FEEDBACK_DELAY_LIMIT = 2"
definition G_BANK_SELECT_COUNTER_LIMIT :: u16 where "G_BANK_SELECT_COUNTER_LIMIT = 1000"
definition MF64_BANK_CC :: u8 where "MF64_BANK_CC = 3"

definition bank_select_key_ids :: "u8 list" where
  "bank_select_key_ids = [28, 63]"

definition note_off_step :: "u16 \<Rightarrow> nat \<Rightarrow> midi_globals \<Rightarrow> midi_globals run" where
  "note_off_step sys_time_7 this_key m =
     andthen (load (g_midi_note_off_counter m) this_key) (\<lambda>note_off_time.
     if note_off_time AND 0x80 \<noteq> 0
     then (let note_off_time = note_off_time AND 0x7F
           in if sys_time_7 - ucast note_off_time \<ge> NOTE_OFF_FEEDBACK_DELAY_LIMIT
              then andthen (store (g_midi_note_state m) (note_state_index 0 this_key) 0) (\<lambda>ns.
                   andthen (store (g_midi_note_off_counter m) this_key 0) (\<lambda>cs.
                   Inr (m\<lparr>g_midi_note_state := ns, g_midi_note_off_counter := cs\<rparr>)))
              else Inr m)
     else Inr m)"

definition update_note_off_feedback_delay :: "dev \<Rightarrow> dev run" where
  "update_note_off_feedback_delay d =
     (let sys_time_7 = system_time_ms (key_g d) AND 0x7F
      in andthen (for_run (note_off_step sys_time_7) [0..<NUM_BANKS * NUM_BUTTONS] (midi d)) (\<lambda>m.
         Inr (d\<lparr>midi := m\<rparr>)))"

definition key_pressed :: "u8 \<Rightarrow> dev \<Rightarrow> dev run" where
  "key_pressed this_key d = for_run (\<lambda>this_bank d.
     andthen (load bank_select_key_ids this_bank) (\<lambda>key.
     if this_key = key
     then (let sys_time_16 = system_time_ms (key_g d);
               sys_time_16 = (if sys_time_16 > 0 then sys_time_16 else 0xFFFF);
               counters = replicate (length (g_bank_select_counter (midi d))) 0
           in andthen (store counters this_bank sys_time_16) (\<lambda>cs.
              Inr (d\<lparr>midi := (midi d)\<lparr>g_bank_select_counter := cs\<rparr>\<rparr>)))
     else Inr d)) [0..<NUM_BANKS] d"

definition key_released :: "u8 \<Rightarrow> dev \<Rightarrow> dev run" where
  "key_released this_key d = for_run (\<lambda>this_bank d.
     andthen (load bank_select_key_ids this_bank) (\<lambda>key.
     if this_key = key
     then andthen (store (g_bank_select_counter (midi d)) this_bank 0) (\<lambda>cs.
          Inr (d\<lparr>midi := (midi d)\<lparr>g_bank_select_counter := cs\<rparr>\<rparr>))
     else Inr d)) [0..<NUM_BANKS] d"

definition change_bank :: "u8 \<Rightarrow> dev \<Rightarrow> dev run" where
  "change_bank this_bank d =
     andthen (load bank_select_key_ids (if this_bank \<noteq> 0 then 1 else 0)) (\<lambda>this_key.
     let this_animation = (if G_EE_ANIMATIONS (ee d) < GEOMETRIC_ANIMATION_TYPES then G_EE_ANIMATIONS (ee d)
                           else GEOMETRIC_ANIMATION_TYPE_SQUARE);
         d = d\<lparr>midi := (midi d)\<lparr>g_bank_selected := this_bank\<rparr>\<rparr>
     in andthen (start_geometric_animation this_key this_animation d) (\<lambda>d.
        Inr (d\<lparr>midi := (midi d)\<lparr>g_bank_select_counter := replicate (length (g_bank_select_counter (midi d))) 0\<rparr>\<rparr>)))"

definition send_change_bank_notification :: "u8 \<Rightarrow> dev \<Rightarrow> dev" where
  "send_change_bank_notification this_bank d =
     d\<lparr>midi := midi_stream_raw_cc (G_EE_MIDI_CHANNEL (midi d)) MF64_BANK_CC this_bank (midi d)\<rparr>"

text \<open>The loop over the banks stops at the first bank whose key has been held long enough.\<close>

fun service_bank_loop :: "nat list \<Rightarrow> u16 \<Rightarrow> u16 \<Rightarrow> dev \<Rightarrow> dev run" where
  "service_bank_loop [] counter_limit sys_time_16 d = Inr d"
| "service_bank_loop (this_bank # banks) counter_limit sys_time_16 d =
     andthen (load (g_bank_select_counter (midi d)) this_bank) (\<lambda>this_time.
     if this_time > 0 \<and> sys_time_16 - this_time \<ge> counter_limit
     then andthen (change_bank (of_nat this_bank) d) (\<lambda>d.
          Inr (send_change_bank_notification (of_nat this_bank) d))
     else service_bank_loop banks counter_limit sys_time_16 d)"

definition service_bank_select_buttons :: "dev \<Rightarrow> dev run" where
  "service_bank_select_buttons d =
     (if G_EE_SIDE_BANK (ee d) = 0 then Inr d
      else (let counter_limit = (if G_EE_SIDE_BANK (ee d) > 1 then 1 else G_BANK_SELECT_COUNTER_LIMIT)
            in service_bank_loop [0..<NUM_BANKS] counter_limit (system_time_ms (key_g d)) d))"

section \<open>Invariant\<close>

text \<open>The whole device: what the display relies on, the sizes of the MIDI counters, and the
  invariants of the key scanner, of the combo recogniser and of the USB stream.\<close>

definition midi_wf :: "midi_globals \<Rightarrow> bool" where
  "midi_wf m \<longleftrightarrow> length (g_midi_note_state m) = 256 \<and> list_all (\<lambda>v. v < 0x80) (g_midi_note_state m)
     \<and> g_bank_selected m < 2 \<and> length (g_midi_note_off_counter m) = 128
     \<and> length (g_bank_select_counter m) = 2 \<and> usb_wf (usb m)"

definition dev_wf :: "dev \<Rightarrow> bool" where
  "dev_wf d \<longleftrightarrow> display_wf d \<and> midi_wf (midi d) \<and> key_wf (key_g d) \<and> combo_wf (combo_g d)"

text \<open>What the functions below leave alone.\<close>

definition bank_frame where
  "bank_frame d = (key_g d, combo_g d, ee d, colors d, balls d, rng d, watchdog_flag d)"

lemma dev_wf_midi: "dev_wf d \<Longrightarrow> midi_wf m \<Longrightarrow> dev_wf (d\<lparr>midi := m\<rparr>)"
  by (simp add: dev_wf_def display_wf_def show_wf_def disp_wf_def notes7_def midi_wf_def)

lemma dev_wf_midi_wf: "dev_wf d \<Longrightarrow> midi_wf (midi d)"
  by (simp add: dev_wf_def)

lemma dev_wf_display_wf: "dev_wf d \<Longrightarrow> display_wf d"
  by (simp add: dev_wf_def)

lemma bank_frame_midi [simp]: "bank_frame (d\<lparr>midi := m\<rparr>) = bank_frame d"
  by (simp add: bank_frame_def)

lemma midi_wf_bank: "midi_wf m \<Longrightarrow> b < 2 \<Longrightarrow> midi_wf (m\<lparr>g_bank_selected := b\<rparr>)"
  "midi_wf m \<Longrightarrow> length cs = 2 \<Longrightarrow> midi_wf (m\<lparr>g_bank_select_counter := cs\<rparr>)"
  by (simp_all add: midi_wf_def)

lemma midi_wf_send: "midi_wf m \<Longrightarrow> midi_wf (midi_send p m)"
  by (simp add: midi_wf_def midi_send_def send_packet_wf)

lemma dev_wf_dev_example: "dev_wf dev_example"
proof -
  have "key_wf (key_g dev_example)" "combo_wf (combo_g dev_example)" "usb_wf (usb (midi dev_example))"
    by (simp_all add: dev_example_def dev_init_def key_init_def key_wf_def DEBOUNCE_BUFFER_SIZE_def combo_wf_init
        usb_example_def usb_wf_def midi_init_def MIDI_STREAM_EPSIZE_def)
  moreover have "length (g_midi_note_off_counter (midi dev_example)) = 128"
    "length (g_bank_select_counter (midi dev_example)) = 2"
    by (simp_all add: dev_example_def dev_init_def midi_init_def MIDI_MAX_NOTES_def NUM_BANKS_def)
  ultimately show ?thesis using display_wf_dev_example
    by (simp add: dev_wf_def midi_wf_def display_wf_def show_wf_def disp_wf_def notes7_def)
qed

text \<open>What the host side sees, the key scanner and the combo recogniser, which no command may disturb.\<close>

definition device_frame where
  "device_frame d = (key_g d, combo_g d, g_midi_sysex_channel (midi d), out_queue (usb (midi d)),
     USB_DeviceState (usb (midi d)))"

definition dev_ok :: "dev \<Rightarrow> dev \<Rightarrow> bool" where
  "dev_ok d d' \<longleftrightarrow> dev_wf d' \<and> device_frame d' = device_frame d"

lemma dev_ok_refl: "dev_wf d \<Longrightarrow> dev_ok d d"
  by (simp add: dev_ok_def)

lemma dev_ok_trans: "dev_ok d e \<Longrightarrow> dev_ok e f \<Longrightarrow> dev_ok d f"
  by (simp add: dev_ok_def)

lemma dev_ok_wf: "dev_ok d d' \<Longrightarrow> dev_wf d'"
  by (simp add: dev_ok_def)

lemma ok_dev_trans: "dev_ok d e \<Longrightarrow> ok (dev_ok e) r \<Longrightarrow> ok (dev_ok d) r"
  by (erule ok_mono) (rule dev_ok_trans)

lemma returns_dev_trans: "dev_ok d e \<Longrightarrow> returns (dev_ok e) r \<Longrightarrow> returns (dev_ok d) r"
  by (erule returns_mono) (rule dev_ok_trans)

lemma ok_dev_andthen:
  "ok (dev_ok d) r \<Longrightarrow> (\<And>e. dev_wf e \<Longrightarrow> ok (dev_ok e) (f e)) \<Longrightarrow> ok (dev_ok d) (andthen r f)"
  by (erule ok_andthen) (blast intro: ok_dev_trans dev_ok_wf)

lemma returns_dev_andthen:
  "returns (dev_ok d) r \<Longrightarrow> (\<And>e. dev_wf e \<Longrightarrow> returns (dev_ok e) (f e)) \<Longrightarrow> returns (dev_ok d) (andthen r f)"
  by (erule returns_andthen) (blast intro: returns_dev_trans dev_ok_wf)

lemma dev_ok_midi:
  assumes "dev_wf d" "midi_wf m" "g_midi_sysex_channel m = g_midi_sysex_channel (midi d)"
    "out_queue (usb m) = out_queue (usb (midi d))" "USB_DeviceState (usb m) = USB_DeviceState (usb (midi d))"
  shows "dev_ok d (d\<lparr>midi := m\<rparr>)"
  using assms by (simp add: dev_ok_def dev_wf_midi device_frame_def)

lemma dev_ok_send:
  assumes "dev_wf d"
  shows "dev_ok d (d\<lparr>midi := midi_send p (midi d)\<rparr>)"
proof (rule dev_ok_midi [OF assms midi_wf_send [OF dev_wf_midi_wf [OF assms]]])
  have "usb_wf (usb (midi d))" using dev_wf_midi_wf [OF assms] by (simp add: midi_wf_def)
  from send_packet_out [OF this, of p]
  show "g_midi_sysex_channel (midi_send p (midi d)) = g_midi_sysex_channel (midi d)"
    "out_queue (usb (midi_send p (midi d))) = out_queue (usb (midi d))"
    "USB_DeviceState (usb (midi_send p (midi d))) = USB_DeviceState (usb (midi d))"
    by (simp_all add: midi_send_def)
qed

lemma dev_ok_sends:
  assumes "dev_wf d"
  shows "dev_ok d (d\<lparr>midi := fold midi_send ps (midi d)\<rparr>)"
  using assms
proof (induction ps arbitrary: d)
  case (Cons p ps)
  have ok: "dev_ok d (d\<lparr>midi := midi_send p (midi d)\<rparr>)" using Cons.prems by (rule dev_ok_send)
  from Cons.IH [OF dev_ok_wf [OF this]] show ?case using dev_ok_trans [OF ok] by simp
qed (simp add: dev_ok_refl)

lemma dev_ok_channel_messages:
  assumes "dev_wf d"
  shows "dev_ok d (d\<lparr>midi := midi_stream_note pitch on (midi d)\<rparr>)"
    "dev_ok d (d\<lparr>midi := midi_stream_note_ch ch pitch on (midi d)\<rparr>)"
    "dev_ok d (d\<lparr>midi := midi_stream_raw_cc ch cc val (midi d)\<rparr>)"
  using dev_ok_send [OF assms] channel_messages_conform by metis+

section \<open>Changing the bank\<close>

lemma banks_upt: "[0..<NUM_BANKS] = [0, Suc 0]"
  by (simp add: NUM_BANKS_def upt_rec)

lemma replicate_2: "replicate 2 x = [x, x]"
  by (simp add: numeral_2_eq_2)

lemma two_counters: "midi_wf m \<Longrightarrow> replicate (length (g_bank_select_counter m)) (0 :: u16) = [0, 0]"
  by (simp add: midi_wf_def replicate_2)

lemma start_animation_dev:
  assumes "dev_wf d" "b < 64"
  shows "ok (\<lambda>d'. dev_wf d' \<and> bank_frame d' = bank_frame d \<and> midi d' = midi d) (start_geometric_animation b a d)"
proof -
  obtain d' where d': "start_geometric_animation b a d = Inr d'" "disp_wf d'" "display_frame d' = display_frame d"
    using start_geometric_animation_total [OF _ assms(2), of d a] assms(1)
    by (auto simp: dev_wf_def display_wf_def show_wf_def)
  then show ?thesis using assms(1)
    by (simp add: dev_wf_def display_wf_def show_wf_def notes7_def display_frame_def bank_frame_def)
qed

lemma change_bank_ok:
  assumes "dev_wf d" "b < 2"
  shows "ok (\<lambda>d'. dev_wf d' \<and> bank_frame d' = bank_frame d
     \<and> midi d' = (midi d)\<lparr>g_bank_selected := b, g_bank_select_counter := [0, 0]\<rparr>) (change_bank b d)"
proof -
  let ?key = "bank_select_key_ids ! (if b \<noteq> 0 then 1 else 0)"
  let ?a = "if G_EE_ANIMATIONS (ee d) < GEOMETRIC_ANIMATION_TYPES then G_EE_ANIMATIONS (ee d) else GEOMETRIC_ANIMATION_TYPE_SQUARE"
  define e where "e = d\<lparr>midi := (midi d)\<lparr>g_bank_selected := b\<rparr>\<rparr>"
  have wf: "dev_wf e" unfolding e_def using assms by (intro dev_wf_midi midi_wf_bank dev_wf_midi_wf)
  have "?key < 64" by (simp add: bank_select_key_ids_def)
  from start_animation_dev [OF wf this, of ?a] obtain f where
    f: "start_geometric_animation ?key ?a e = Inr f" "dev_wf f" "bank_frame f = bank_frame e" "midi f = midi e"
    by (auto simp: ok_def)
  have cs: "replicate (length (g_bank_select_counter (midi f))) (0 :: u16) = [0, 0]"
    using dev_wf_midi_wf [OF f(2)] by (rule two_counters)
  have "dev_wf (f\<lparr>midi := (midi f)\<lparr>g_bank_select_counter := [0, 0]\<rparr>\<rparr>)"
    using f(2) by (intro dev_wf_midi midi_wf_bank dev_wf_midi_wf) simp_all
  moreover have "load bank_select_key_ids (if b \<noteq> 0 then 1 else 0) = Inr ?key"
    by (simp add: bank_select_key_ids_def)
  ultimately have "change_bank b d = Inr (f\<lparr>midi := (midi f)\<lparr>g_bank_select_counter := [0, 0]\<rparr>\<rparr>)"
    using f(1) cs by (simp add: change_bank_def Let_def flip: e_def)
  then show ?thesis using f(2-4) \<open>dev_wf (f\<lparr>midi := (midi f)\<lparr>g_bank_select_counter := [0, 0]\<rparr>\<rparr>)\<close>
    by (simp add: e_def)
qed

lemma send_change_bank_notification_ok: "dev_wf d \<Longrightarrow> dev_ok d (send_change_bank_notification b d)"
  unfolding send_change_bank_notification_def by (rule dev_ok_channel_messages)

lemma change_bank_dev_ok: "dev_wf d \<Longrightarrow> b < 2 \<Longrightarrow> ok (dev_ok d) (change_bank b d)"
  by (rule ok_mono, erule (1) change_bank_ok) (simp add: dev_ok_def device_frame_def bank_frame_def)

lemma start_animation_dev_ok: "dev_wf d \<Longrightarrow> b < 64 \<Longrightarrow> ok (dev_ok d) (start_geometric_animation b a d)"
  by (rule ok_mono, erule (1) start_animation_dev) (simp add: dev_ok_def device_frame_def bank_frame_def)

lemma service_bank_select_buttons_ok:
  assumes "dev_wf d"
  shows "ok (dev_ok d) (service_bank_select_buttons d)"
proof -
  have step: "ok (dev_ok d) (service_bank_loop bs lim now d)" if "set bs \<subseteq> {0, 1}" for bs lim now
    using that
  proof (induction bs)
    case (Cons b bs)
    have b: "(of_nat b :: u8) < 2" "b < length (g_bank_select_counter (midi d))"
      using Cons.prems dev_wf_midi_wf [OF assms] by (auto simp: midi_wf_def)
    have "ok (dev_ok d) (andthen (change_bank (of_nat b) d) (\<lambda>d. Inr (send_change_bank_notification (of_nat b) d)))"
      using change_bank_dev_ok [OF assms b(1)]
      by (rule ok_dev_andthen) (simp add: send_change_bank_notification_ok)
    then show ?case using Cons b by simp
  qed (use assms in \<open>simp add: dev_ok_refl\<close>)
  have "set [0..<NUM_BANKS] \<subseteq> {0, 1}" by (auto simp: NUM_BANKS_def)
  from step [OF this] show ?thesis using assms by (simp add: service_bank_select_buttons_def Let_def dev_ok_refl)
qed

definition pressed_counters :: "u8 \<Rightarrow> u16 \<Rightarrow> u16 list \<Rightarrow> u16 list" where
  "pressed_counters k now cs = (let t = (if now > 0 then now else 0xFFFF)
     in if k = 28 then [t, 0] else if k = 63 then [0, t] else cs)"

definition released_counters :: "u8 \<Rightarrow> u16 list \<Rightarrow> u16 list" where
  "released_counters k cs = (if k = 28 then cs[0 := 0] else if k = 63 then cs[1 := 0] else cs)"

lemma key_pressed_spec:
  assumes "midi_wf (midi d)"
  shows "key_pressed k d = Inr (d\<lparr>midi := (midi d)\<lparr>g_bank_select_counter :=
    pressed_counters k (system_time_ms (key_g d)) (g_bank_select_counter (midi d))\<rparr>\<rparr>)"
  using two_counters [OF assms]
  by (auto simp: key_pressed_def banks_upt bank_select_key_ids_def Let_def pressed_counters_def)

lemma key_released_spec:
  assumes "midi_wf (midi d)"
  shows "key_released k d = Inr (d\<lparr>midi := (midi d)\<lparr>g_bank_select_counter :=
    released_counters k (g_bank_select_counter (midi d))\<rparr>\<rparr>)"
  using assms by (auto simp: key_released_def banks_upt bank_select_key_ids_def midi_wf_def released_counters_def)

lemma length_counters:
  "length cs = 2 \<Longrightarrow> length (pressed_counters k now cs) = 2" "length cs = 2 \<Longrightarrow> length (released_counters k cs) = 2"
  by (simp_all add: pressed_counters_def released_counters_def Let_def)

lemma hold_functions_ok:
  assumes "dev_wf d"
  shows "ok (dev_ok d) (key_pressed k d)" "ok (dev_ok d) (key_released k d)"
  using assms dev_wf_midi_wf [OF assms]
  by (simp_all add: key_pressed_spec key_released_spec length_counters dev_ok_midi midi_wf_bank midi_wf_def)

section \<open>Delayed note off\<close>

text \<open>When a note off received at the time recorded in \<open>t\<close> is due at the time \<open>now\<close>: both are known
  modulo 128 only, and \<open>now\<close> being behind counts as late.\<close>

definition note_off_due :: "u8 \<Rightarrow> u16 \<Rightarrow> bool" where
  "note_off_due t now \<longleftrightarrow> 128 \<le> unat t \<and>
     (unat now mod 128 < unat t - 128 \<or> unat t - 128 + 2 \<le> unat now mod 128)"

lemma u8_low_high:
  fixes t :: u8
  shows "unat (t AND 0x7F) = unat t mod 128" "t AND 0x80 \<noteq> 0 \<longleftrightarrow> 128 \<le> unat t"
proof -
  have "list_all (\<lambda>i. (\<lambda>t :: u8. unat (t AND 0x7F) = unat t mod 128 \<and> (t AND 0x80 \<noteq> 0 \<longleftrightarrow> 128 \<le> unat t)) (of_nat i)) [0..<256]"
    by code_simp
  from u8_all_below [OF this unat_u8_less, of t]
  show "unat (t AND 0x7F) = unat t mod 128" "t AND 0x80 \<noteq> 0 \<longleftrightarrow> 128 \<le> unat t" by auto
qed

lemma due_iff: "note_off_due t now \<longleftrightarrow> t AND 0x80 \<noteq> 0
    \<and> (now AND 0x7F) - ucast (t AND 0x7F) \<ge> NOTE_OFF_FEEDBACK_DELAY_LIMIT"
proof -
  have "now AND 0x7F = take_bit 7 now" by (simp add: take_bit_eq_mask mask_eq_exp_minus_1)
  then have now: "unat (now AND 0x7F) = unat now mod 128" by (simp add: take_bit_eq_mod unat_mod)
  have "unat (t AND 0x7F) < 128" by (simp add: u8_low_high)
  then have t: "unat (ucast (t AND 0x7F) :: u16) = unat t mod 128"
    by (simp add: unsigned_ucast_eq take_bit_nat_eq_self u8_low_high)
  have t128: "unat t mod 128 = unat t - 128" if "128 \<le> unat t"
  proof -
    have "unat t - 128 < 128" using that unat_u8_less [of t] by linarith
    then show ?thesis using that by (simp add: le_mod_geq)
  qed
  define x y where "x = unat now mod 128" and "y = unat t mod 128"
  have "unat ((now AND 0x7F) - ucast (t AND 0x7F)) = (if y \<le> x then x - y else x + 65536 - y)"
    by (simp add: unat_sub_if' now t x_def y_def)
  moreover have "x < 128" "y < 128" by (simp_all add: x_def y_def)
  ultimately have "(now AND 0x7F) - ucast (t AND 0x7F) \<ge> NOTE_OFF_FEEDBACK_DELAY_LIMIT \<longleftrightarrow> x < y \<or> y + 2 \<le> x"
    unfolding word_le_nat_alt NOTE_OFF_FEEDBACK_DELAY_LIMIT_def by auto
  then show ?thesis using t128 by (auto simp: note_off_due_def u8_low_high(2) x_def y_def)
qed

lemma note_off_step_spec:
  assumes "k < 128" "length (g_midi_note_state m) = 256" "length (g_midi_note_off_counter m) = 128"
  shows "note_off_step (now AND 0x7F) k m = Inr (if note_off_due (g_midi_note_off_counter m ! k) now
     then m\<lparr>g_midi_note_state := (g_midi_note_state m)[k := 0],
            g_midi_note_off_counter := (g_midi_note_off_counter m)[k := 0]\<rparr> else m)"
  using assms by (auto simp: note_off_step_def Let_def due_iff note_state_index_def)

lemma update_note_off_spec:
  assumes "dev_wf d"
  shows "\<exists>d'. update_note_off_feedback_delay d = Inr d' \<and> dev_wf d'
     \<and> (\<forall>k<128. let due = note_off_due (g_midi_note_off_counter (midi d) ! k) (system_time_ms (key_g d)) in
          g_midi_note_state (midi d') ! k = (if due then 0 else g_midi_note_state (midi d) ! k)
        \<and> g_midi_note_off_counter (midi d') ! k = (if due then 0 else g_midi_note_off_counter (midi d) ! k))
     \<and> drop 128 (g_midi_note_state (midi d')) = drop 128 (g_midi_note_state (midi d))
     \<and> (\<exists>ns cs. d' = d\<lparr>midi := (midi d)\<lparr>g_midi_note_state := ns, g_midi_note_off_counter := cs\<rparr>\<rparr>)"
proof -
  let ?now = "system_time_ms (key_g d)" and ?m = "midi d"
  let ?due = "\<lambda>k. note_off_due (g_midi_note_off_counter ?m ! k) ?now"
  let ?Q = "\<lambda>n m. midi_wf m \<and> (\<forall>k<128.
        g_midi_note_state m ! k = (if k < n \<and> ?due k then 0 else g_midi_note_state ?m ! k)
      \<and> g_midi_note_off_counter m ! k = (if k < n \<and> ?due k then 0 else g_midi_note_off_counter ?m ! k))
      \<and> drop 128 (g_midi_note_state m) = drop 128 (g_midi_note_state ?m)
      \<and> (\<exists>ns cs. m = ?m\<lparr>g_midi_note_state := ns, g_midi_note_off_counter := cs\<rparr>)"
  have "\<exists>m. for_run (note_off_step (?now AND 0x7F)) [0..<128] ?m = Inr m \<and> ?Q 128 m"
  proof (rule for_run_upt [where Q = ?Q])
    have "\<exists>ns cs. ?m = ?m\<lparr>g_midi_note_state := ns, g_midi_note_off_counter := cs\<rparr>"
      by (intro exI [of _ "g_midi_note_state ?m"] exI [of _ "g_midi_note_off_counter ?m"]) simp
    then show "?Q 0 ?m" using dev_wf_midi_wf [OF assms] by simp
    fix k m assume k: "k < 128" and Q: "?Q k m"
    let ?m' = "if ?due k then m\<lparr>g_midi_note_state := (g_midi_note_state m)[k := 0],
            g_midi_note_off_counter := (g_midi_note_off_counter m)[k := 0]\<rparr> else m"
    have "note_off_step (?now AND 0x7F) k m = Inr ?m'"
      using note_off_step_spec [OF k, of m ?now] Q k by (simp add: midi_wf_def)
    moreover have "\<exists>ns cs. ?m' = ?m\<lparr>g_midi_note_state := ns, g_midi_note_off_counter := cs\<rparr>"
    proof -
      obtain ns cs where m: "m = ?m\<lparr>g_midi_note_state := ns, g_midi_note_off_counter := cs\<rparr>" using Q by blast
      show ?thesis
        by (intro exI [of _ "if ?due k then ns[k := 0] else ns"] exI [of _ "if ?due k then cs[k := 0] else cs"]) (simp add: m)
    qed
    moreover have "midi_wf ?m'" using Q by (simp add: midi_wf_def list_all_update)
    moreover have "drop 128 (g_midi_note_state ?m') = drop 128 (g_midi_note_state ?m)" using Q k by simp
    moreover have "g_midi_note_state ?m' ! j = (if j < Suc k \<and> ?due j then 0 else g_midi_note_state ?m ! j)
        \<and> g_midi_note_off_counter ?m' ! j = (if j < Suc k \<and> ?due j then 0 else g_midi_note_off_counter ?m ! j)"
      if "j < 128" for j
    proof -
      have len: "length (g_midi_note_state m) = 256" "length (g_midi_note_off_counter m) = 128"
        using Q by (simp_all add: midi_wf_def)
      have eq: "g_midi_note_state m ! j = (if j < k \<and> ?due j then 0 else g_midi_note_state ?m ! j)"
        "g_midi_note_off_counter m ! j = (if j < k \<and> ?due j then 0 else g_midi_note_off_counter ?m ! j)"
        using Q that by blast+
      show ?thesis using len that k eq by (cases "j = k") (simp_all add: less_Suc_eq)
    qed
    ultimately have "note_off_step (?now AND 0x7F) k m = Inr ?m'" "?Q (Suc k) ?m'" by blast+
    then show "\<exists>m'. note_off_step (?now AND 0x7F) k m = Inr m' \<and> ?Q (Suc k) m'" by blast
  qed
  then obtain m where m: "for_run (note_off_step (?now AND 0x7F)) [0..<128] ?m = Inr m" "?Q 128 m" by blast
  obtain ns cs where ns: "m = ?m\<lparr>g_midi_note_state := ns, g_midi_note_off_counter := cs\<rparr>" using m(2) by blast
  have "dev_wf (d\<lparr>midi := m\<rparr>)" using assms m(2) by (intro dev_wf_midi) simp_all
  moreover have "update_note_off_feedback_delay d = Inr (d\<lparr>midi := m\<rparr>)"
    using m(1) by (simp add: update_note_off_feedback_delay_def Let_def NUM_BANKS_def NUM_BUTTONS_def)
  moreover have "\<exists>ns cs. d\<lparr>midi := m\<rparr> = d\<lparr>midi := (midi d)\<lparr>g_midi_note_state := ns, g_midi_note_off_counter := cs\<rparr>\<rparr>"
    using ns by blast
  ultimately show ?thesis using m(2) by (intro exI [of _ "d\<lparr>midi := m\<rparr>"]) (simp add: Let_def)
qed

section \<open>Properties\<close>



text \<open>C22: the hold time of the bank select keys.  When a bank select key has been pressed and is held
  while the clock runs on to the time \<open>now\<close>, servicing the keys selects its bank and sends one
  notification if the press is at least the limit old, the difference taken modulo the width of
  the clock, and otherwise changes nothing.  The limit is 1000 milliseconds, or one in the mode
  that changes at once; a press at time zero counts as one millisecond earlier.\<close>

theorem bank_hold_time:
  assumes "dev_wf d" "b < 2" "G_EE_SIDE_BANK (ee d) \<noteq> 0"
    and "key_pressed (bank_select_key_ids ! b) d = Inr d1"
  shows "let t = (if system_time_ms (key_g d) > 0 then system_time_ms (key_g d) else 0xFFFF);
        limit = (if G_EE_SIDE_BANK (ee d) > 1 then 1 else 1000);
        d2 = d1\<lparr>key_g := (key_g d1)\<lparr>system_time_ms := now\<rparr>\<rparr>
    in \<exists>d3. service_bank_select_buttons d2 = Inr d3
       \<and> (if now - t \<ge> limit
          then g_bank_selected (midi d3) = of_nat b \<and> g_bank_select_counter (midi d3) = [0, 0]
             \<and> usb (midi d3) = usb (midi_stream_raw_cc (G_EE_MIDI_CHANNEL (midi d)) 3 (of_nat b) (midi d))
          else d3 = d2)"
proof -
  define t where "t = (if system_time_ms (key_g d) > 0 then system_time_ms (key_g d) else 0xFFFF)"
  define d2 where "d2 = d1\<lparr>key_g := (key_g d1)\<lparr>system_time_ms := now\<rparr>\<rparr>"
  have t0: "t > 0" by (simp add: t_def)
  have d1: "d1 = d\<lparr>midi := (midi d)\<lparr>g_bank_select_counter := [0, 0][b := t]\<rparr>\<rparr>"
    using assms(4) assms(2) key_pressed_spec [OF dev_wf_midi_wf [OF assms(1)]]
    by (auto simp: pressed_counters_def bank_select_key_ids_def t_def Let_def less_2_cases_iff)
  have len: "length ([0, 0][b := t]) = 2" by (simp only: length_list_update) simp
  have wf1: "dev_wf d1" unfolding d1 using assms(1) len by (intro dev_wf_midi midi_wf_bank(2) dev_wf_midi_wf)
  have wf2: "dev_wf d2" using wf1
    by (simp add: d2_def dev_wf_def display_wf_def show_wf_def disp_wf_def notes7_def key_wf_def)
  have c: "g_bank_select_counter (midi d2) = [0, 0][b := t]" by (simp add: d2_def d1)
  obtain d3 where d3: "change_bank (of_nat b) d2 = Inr d3"
      "midi d3 = (midi d2)\<lparr>g_bank_selected := of_nat b, g_bank_select_counter := [0, 0]\<rparr>"
    using change_bank_ok [OF wf2, of "of_nat b"] assms(2) by (auto simp: ok_def less_2_cases_iff)
  let ?d3 = "send_change_bank_notification (of_nat b) d3"
  have out: "usb (midi ?d3) = usb (midi_stream_raw_cc (G_EE_MIDI_CHANNEL (midi d)) 3 (of_nat b) (midi d))"
    "g_bank_selected (midi ?d3) = of_nat b" "g_bank_select_counter (midi ?d3) = [0, 0]"
    by (simp_all add: send_change_bank_notification_def d3(2) d2_def d1 midi_stream_raw_cc_def midi_send_def MF64_BANK_CC_def)
  have side: "G_EE_SIDE_BANK (ee d2) = G_EE_SIDE_BANK (ee d)" "system_time_ms (key_g d2) = now"
    by (simp_all add: d2_def d1)
  have "service_bank_select_buttons d2
      = Inr (if now - t \<ge> (if G_EE_SIDE_BANK (ee d) > 1 then 1 else 1000) then ?d3 else d2)"
    using assms(2,3) t0 c d3(1)
    by (auto simp: service_bank_select_buttons_def side banks_upt Let_def G_BANK_SELECT_COUNTER_LIMIT_def less_2_cases_iff)
  then show ?thesis using out unfolding Let_def t_def [symmetric] d2_def [symmetric] by auto
qed

definition side_bank_example :: dev where
  "side_bank_example = dev_example\<lparr>ee := (ee dev_example)\<lparr>G_EE_SIDE_BANK := 1\<rparr>\<rparr>"

theorem bank_hold_time_witness:
  "\<exists>d1 d3. key_pressed 63 side_bank_example = Inr d1
     \<and> service_bank_select_buttons (d1\<lparr>key_g := (key_g d1)\<lparr>system_time_ms := 999\<rparr>\<rparr>) = Inr d3
     \<and> g_bank_selected (midi d3) = 1"
proof -
  have wf: "dev_wf side_bank_example" using dev_wf_dev_example
    by (simp add: side_bank_example_def dev_wf_def display_wf_def show_wf_def disp_wf_def notes7_def)
  obtain d1 where d1: "key_pressed 63 side_bank_example = Inr d1"
    using key_pressed_spec [OF dev_wf_midi_wf [OF wf]] by blast
  have "system_time_ms (key_g side_bank_example) = 0" "G_EE_SIDE_BANK (ee side_bank_example) = 1"
    by (simp_all add: side_bank_example_def dev_example_def dev_init_def key_init_def)
  then show ?thesis
    using bank_hold_time [OF wf, of 1 d1 999] d1 by (auto simp: bank_select_key_ids_def Let_def)
qed

end
