(* ===== verification/Mf_Config.thy ===== *)
theory Mf_Config
  imports Mf_Bank Mf_Sysex Mf_Led
begin

unbundle bit_operations_syntax

text \<open>
  The SysEx commands of \<^verbatim>\<open>config.c\<close>: pushing and pulling the settings as a table of tags and
  values, the system command, and the bulk transfer of key colours.  The watchdog calls around
  the EEPROM accesses are not part of the state.
\<close>

section \<open>The tag and value table\<close>

definition SYSEX_COMMAND_PUSH_CONF :: u8 where "SYSEX_COMMAND_PUSH_CONF = 1"
definition SYSEX_COMMAND_PULL_CONF :: u8 where "SYSEX_COMMAND_PULL_CONF = 2"
definition SYSEX_COMMAND_SYSTEM :: u8 where "SYSEX_COMMAND_SYSTEM = 3"
definition SYSEX_COMMAND_BULK_XFER :: u8 where "SYSEX_COMMAND_BULK_XFER = 4"
definition TV_TABLE_SIZE :: nat where "TV_TABLE_SIZE = 24"

text \<open>The union \<^verbatim>\<open>tvtable_t\<close> as its bytes; the fields are the bytes by tag.\<close>

type_synonym tvtable_t = "u8 list"

function tv_table_loop :: "nat \<Rightarrow> nat \<Rightarrow> u8 list \<Rightarrow> tvtable_t \<Rightarrow> tvtable_t run" where
  "tv_table_loop idx siz buffer table =
     (if int idx < int siz - 1
      then andthen (load buffer idx) (\<lambda>tag.
           andthen (if unat tag < TV_TABLE_SIZE
                    then andthen (load buffer (idx + 1)) (store table (unat tag))
                    else Inr table) (\<lambda>table.
           tv_table_loop (idx + 2) siz buffer table))
      else Inr table)"
  by pat_completeness auto
termination by (relation "measure (\<lambda>(idx, siz, _). siz - idx)") auto

declare tv_table_loop.simps [simp del]

definition tv_table_decode :: "tvtable_t \<Rightarrow> u8 list \<Rightarrow> u8 \<Rightarrow> tvtable_t run" where
  "tv_table_decode table buffer siz = tv_table_loop 0 (unat siz) buffer table"

section \<open>Push and pull\<close>

text \<open>The assignments from the table to the settings.\<close>

definition apply_config :: "tvtable_t \<Rightarrow> dev \<Rightarrow> dev" where
  "apply_config config d = d\<lparr>
     midi := (midi d)\<lparr>G_EE_MIDI_CHANNEL := config ! 0 - 1, G_EE_MIDI_VELOCITY := config ! 1\<rparr>,
     ee := (ee d)\<lparr>G_EE_FOUR_BANKS_MODE := config ! 3, G_EE_MIDI_OUTPUT_MODE := config ! 7,
       G_EE_COMBOS_ENABLE := config ! 8, G_EE_ANIMATIONS := config ! 10,
       G_EE_TILT_MASK := push_bit 4 (config ! 12) OR config ! 11,
       G_EE_TILT_MODE := config ! 13 + 1, G_EE_TILT_SENSITIVITY := config ! 14,
       G_EE_TILT_RANGE := config ! 16, G_EE_PITCH_RANGE := config ! 17,
       G_EE_TILT_DEADZONE := config ! 18, G_EE_TILT_AXIS := config ! 20,
       G_EE_PICK_SENSITIVITY := config ! 21, G_EE_SLEEP_TIME := config ! 22,
       G_EE_SIDE_BANK := config ! 23\<rparr>\<rparr>"

definition config_pairs :: "dev \<Rightarrow> u8 list" where
  "config_pairs d =
     [0, G_EE_MIDI_CHANNEL (midi d) + 1, 1, G_EE_MIDI_VELOCITY (midi d), 3, G_EE_FOUR_BANKS_MODE (ee d),
      7, G_EE_MIDI_OUTPUT_MODE (ee d), 8, G_EE_COMBOS_ENABLE (ee d), 10, G_EE_ANIMATIONS (ee d),
      11, G_EE_TILT_MASK (ee d) AND 0x3, 12, drop_bit 4 (G_EE_TILT_MASK (ee d)) AND 0xF,
      13, G_EE_TILT_MODE (ee d) - 1, 14, G_EE_TILT_SENSITIVITY (ee d), 15, G_EE_PITCH_SENSITIVITY (ee d),
      16, G_EE_TILT_RANGE (ee d), 17, G_EE_PITCH_RANGE (ee d), 18, G_EE_TILT_DEADZONE (ee d),
      19, G_EE_PITCH_DEADZONE (ee d), 20, G_EE_TILT_AXIS (ee d), 21, G_EE_PICK_SENSITIVITY (ee d),
      22, G_EE_SLEEP_TIME (ee d), 23, G_EE_SIDE_BANK (ee d)]"

definition config_payload :: "dev \<Rightarrow> u8 list" where
  "config_payload d = [0xF0, 0x00, manufacturer_hi, manufacturer_lo, SYSEX_COMMAND_PULL_CONF, 0x1]
     @ config_pairs d @ [0xF7]"

definition send_config_data :: "dev \<Rightarrow> dev run" where
  "send_config_data d = send_sysex (config_payload d) d"

definition sysExCmdPushConfig :: "u8 \<Rightarrow> u8 list \<Rightarrow> dev \<Rightarrow> dev run" where
  "sysExCmdPushConfig len buffer d =
     (let side_bank_prev_state = G_EE_SIDE_BANK (ee d)
      in andthen (tv_table_decode (replicate TV_TABLE_SIZE 0) buffer len) (\<lambda>config.
         let d = apply_config config d
         in andthen (if G_EE_SIDE_BANK (ee d) \<noteq> side_bank_prev_state \<and> G_EE_SIDE_BANK (ee d) = 0
                     then change_bank 0 d else Inr d) (\<lambda>d.
            andthen (start_geometric_animation 0 GEOMETRIC_ANIMATION_TYPE_TRIANGLE d) (\<lambda>d.
            andthen (eeprom_save_edits d) (\<lambda>d.
            andthen (send_config_data d) eeprom_setup)))))"

definition sysExCmdPullConfig :: "u8 \<Rightarrow> u8 list \<Rightarrow> dev \<Rightarrow> dev run" where
  "sysExCmdPullConfig len buffer d =
     (if len > 0
      then andthen (load buffer 0) (\<lambda>b. if b = 0x0 then send_config_data d else Inr d)
      else Inr d)"

section \<open>System command\<close>

definition sysExCmdSystem :: "u8 \<Rightarrow> u8 list \<Rightarrow> dev \<Rightarrow> dev run" where
  "sysExCmdSystem len buffer d =
     (if len = 0 then Inr d
      else andthen (load buffer 0) (\<lambda>b.
        if b = 1 then andthen (Inr (led_set_state_dfu (after_display_buffer (led d)) d)) (\<lambda>d. Inl Bootloader)
        else if b = 2 then
          andthen (eeprom_factory_reset d) (\<lambda>d.
          send_config_data (led_set_state 0xFFFF 0x00FFFFFF
            (led_set_state 0x0000 0x00FFFFFF (led_set_state 0xFFFF 0x00FFFFFF d))))
        else Inr d))"

section \<open>Bulk transfer\<close>

text \<open>The copy loop of a push into one of the two colour arrays.\<close>

definition bulk_copy :: "u8 list \<Rightarrow> u8 \<Rightarrow> u8 \<Rightarrow> u8 \<Rightarrow> u8 list \<Rightarrow> u8 list run" where
  "bulk_copy buffer bank offset siz arr = for_run (\<lambda>idx arr.
     andthen (load buffer (5 + idx)) (\<lambda>v.
     store arr (bank_index (unat bank) (unat offset + idx)) (push_color v))) [0..<unat siz] arr"

definition bulk_push :: "u8 \<Rightarrow> u8 \<Rightarrow> u8 list \<Rightarrow> dev \<Rightarrow> dev run" where
  "bulk_push len tag buffer d =
     (if tag = 0 then Inr d
      else andthen (load buffer 2) (\<lambda>part.
        if part = 0 then Inr d
        else andthen (load buffer 3) (\<lambda>tot.
          andthen (load buffer 4) (\<lambda>siz.
          if uint siz > uint len - 5 then Inr d
          else if part > 16 then Inr d
          else
            (let bank = drop_bit 3 (part - 1); offset = ((part - 1) AND 0x07) * 24
             in if tag = 1 then
                  andthen (bulk_copy buffer bank offset siz (default_bank_inactive (colors d))) (\<lambda>arr.
                  andthen (adjust_inactive_bank_leds_for_power bank offset siz
                    ((colors d)\<lparr>default_bank_inactive := arr\<rparr>)) (\<lambda>c. Inr (d\<lparr>colors := c\<rparr>)))
                else if tag = 2 then
                  andthen (bulk_copy buffer bank offset siz (default_bank_active (colors d))) (\<lambda>arr.
                  andthen (adjust_active_bank_leds_for_power bank offset siz
                    ((colors d)\<lparr>default_bank_active := arr\<rparr>)) (\<lambda>c. Inr (d\<lparr>colors := c\<rparr>)))
                else Inr d)))))"

text \<open>One message of a pull: \<open>bytes_remaining\<close> and \<open>index\<close> are the loop's variables.\<close>

definition bulk_payload :: "u8 \<Rightarrow> nat \<Rightarrow> nat \<Rightarrow> nat \<Rightarrow> u8 list" where
  "bulk_payload tag part tot siz =
     [0xF0, 0x00, manufacturer_hi, manufacturer_lo, SYSEX_COMMAND_BULK_XFER, 0x0, tag,
      of_nat part, of_nat tot, of_nat siz] @ replicate 25 0xF7"

definition bulk_pull_part :: "u8 \<Rightarrow> u8 list \<Rightarrow> nat \<Rightarrow> nat \<Rightarrow> nat \<times> nat \<times> dev \<Rightarrow> (nat \<times> nat \<times> dev) run" where
  "bulk_pull_part tag source tot part s = (case s of (bytes_remaining, index, d) \<Rightarrow>
     let siz = (if bytes_remaining > 24 then 24 else bytes_remaining)
     in andthen (for_run (\<lambda>idx (index, payload).
            andthen (load source index) (\<lambda>v.
            andthen (store payload idx (pull_color v)) (\<lambda>payload. Inr (index + 1, payload))))
          [10..<siz + 10] (index, bulk_payload tag part tot siz)) (\<lambda>(index, payload).
        andthen (midi_stream_sysex (of_nat (11 + siz)) payload (midi d)) (\<lambda>m.
        Inr (bytes_remaining - 24, index,
             d\<lparr>midi := m\<lparr>usb := snd (MIDI_Device_Flush (usb m))\<rparr>\<rparr>))))"

definition bulk_pull :: "u8 \<Rightarrow> dev \<Rightarrow> dev run" where
  "bulk_pull tag d =
     (if tag = 1 \<or> tag = 2
      then (let source = (if tag = 1 then default_bank_inactive (colors d) else default_bank_active (colors d));
                bytes_remaining = NUM_BANKS * NUM_BUTTONS * 3;
                tot = bytes_remaining div 24
            in andthen (for_run (bulk_pull_part tag source tot) [1..<tot + 1] (bytes_remaining, 0, d)) (\<lambda>(_, _, d).
               Inr d))
      else Inr d)"

definition sysExCmdBulkXfer :: "u8 \<Rightarrow> u8 list \<Rightarrow> dev \<Rightarrow> dev run" where
  "sysExCmdBulkXfer len buffer d =
     (if len > 2
      then andthen (load buffer 0) (\<lambda>command. andthen (load buffer 1) (\<lambda>tag.
           if command = 0 then (if len > 5 then bulk_push len tag buffer d else Inr d)
           else if command = 1 then bulk_pull tag d
           else Inr d))
      else Inr d)"

definition config_setup :: "sysex_globals \<Rightarrow> sysex_globals run" where
  "config_setup g =
     andthen (sysex_install SYSEX_COMMAND_PUSH_CONF sysExCmdPushConfig g) (\<lambda>g.
     andthen (sysex_install SYSEX_COMMAND_PULL_CONF sysExCmdPullConfig g) (\<lambda>g.
     andthen (sysex_install SYSEX_COMMAND_SYSTEM sysExCmdSystem g)
       (sysex_install SYSEX_COMMAND_BULK_XFER sysExCmdBulkXfer)))"

section \<open>The table decoder\<close>

text \<open>The pairs in a message body, a last odd byte dropped, and what they do to a table.\<close>

fun tv_pairs :: "u8 list \<Rightarrow> (u8 \<times> u8) list" where
  "tv_pairs (t # v # bs) = (t, v) # tv_pairs bs"
| "tv_pairs bs = []"

definition tv_put :: "u8 \<times> u8 \<Rightarrow> tvtable_t \<Rightarrow> tvtable_t" where
  "tv_put p table = (if unat (fst p) < TV_TABLE_SIZE then table[unat (fst p) := snd p] else table)"

lemma length_tv_put [simp]: "length (tv_put p table) = length table"
  by (simp add: tv_put_def)

lemma length_fold_tv_put [simp]: "length (fold tv_put ps table) = length table"
  by (induction ps arbitrary: table) simp_all

lemma drop_two:
  assumes "Suc i < length xs"
  shows "drop i xs = xs ! i # xs ! Suc i # drop (i + 2) xs"
  using assms by (simp add: Cons_nth_drop_Suc)

lemma tv_table_loop_spec:
  "siz \<le> length buffer \<Longrightarrow> length table = TV_TABLE_SIZE \<Longrightarrow>
   tv_table_loop idx siz buffer table = Inr (fold tv_put (tv_pairs (drop idx (take siz buffer))) table)"
proof (induction idx siz buffer table rule: tv_table_loop.induct)
  case (1 idx siz buffer table)
  show ?case
  proof (cases "int idx < int siz - 1")
    case True
    then have i: "Suc idx < siz" by linarith
    then have b: "load buffer idx = Inr (buffer ! idx)" "load buffer (idx + 1) = Inr (buffer ! (idx + 1))"
      using 1(2) by simp_all
    have split: "drop idx (take siz buffer) = buffer ! idx # buffer ! Suc idx # drop (idx + 2) (take siz buffer)"
      using drop_two [of idx "take siz buffer"] i 1(2) by simp
    let ?t = "tv_put (buffer ! idx, buffer ! Suc idx) table"
    have "(if unat (buffer ! idx) < TV_TABLE_SIZE then andthen (load buffer (idx + 1)) (store table (unat (buffer ! idx)))
        else Inr table) = Inr ?t"
      using 1(3) b by (simp add: tv_put_def)
    moreover from 1(1) [OF True] this have "tv_table_loop (idx + 2) siz buffer ?t
        = Inr (fold tv_put (tv_pairs (drop (idx + 2) (take siz buffer))) ?t)"
      using 1(2,3) by simp
    ultimately show ?thesis using b True by (simp add: tv_table_loop.simps [of idx] split)
  next
    case False
    then have "tv_pairs (drop idx (take siz buffer)) = []"
      using 1(2) by (cases "drop idx (take siz buffer)" rule: tv_pairs.cases) (auto dest!: arg_cong [of _ _ length])
    then show ?thesis using False by (simp add: tv_table_loop.simps [of idx])
  qed
qed

definition decoded :: "u8 list \<Rightarrow> tvtable_t" where
  "decoded body = fold tv_put (tv_pairs body) (replicate TV_TABLE_SIZE 0)"

lemma length_decoded [simp]: "length (decoded body) = 24"
  by (simp add: decoded_def TV_TABLE_SIZE_def)

lemma tv_table_decode_spec:
  "unat siz \<le> length buffer \<Longrightarrow>
   tv_table_decode (replicate TV_TABLE_SIZE 0) buffer siz = Inr (decoded (take (unat siz) buffer))"
  by (simp add: tv_table_decode_def tv_table_loop_spec decoded_def)

section \<open>The handlers keep the invariant\<close>

lemma dev_wf_settings:
  "dev_wf d \<Longrightarrow> dev_ok d (d\<lparr>midi := (midi d)\<lparr>G_EE_MIDI_CHANNEL := c, G_EE_MIDI_VELOCITY := v\<rparr>, ee := e\<rparr>)"
  by (simp add: dev_ok_def device_frame_def dev_wf_def display_wf_def show_wf_def disp_wf_def notes7_def midi_wf_def)

lemma dev_wf_ee: "dev_wf d \<Longrightarrow> dev_ok d (d\<lparr>ee := e\<rparr>)"
  by (simp add: dev_ok_def device_frame_def dev_wf_def display_wf_def show_wf_def disp_wf_def notes7_def)

lemma dev_wf_colors: "dev_wf d \<Longrightarrow> colors_wf c \<Longrightarrow> dev_ok d (d\<lparr>colors := c\<rparr>)"
  by (simp add: dev_ok_def device_frame_def dev_wf_def display_wf_def show_wf_def disp_wf_def notes7_def)

lemma dev_wf_colors_wf: "dev_wf d \<Longrightarrow> colors_wf (colors d)"
  by (simp add: dev_wf_def display_wf_def show_wf_def disp_wf_def)

lemma apply_config_ok: "dev_wf d \<Longrightarrow> dev_ok d (apply_config cfg d)"
  unfolding apply_config_def by (rule dev_wf_settings)

lemma send_sysex_ok:
  assumes "dev_wf d" "length payload < 256"
  shows "ok (dev_ok d) (send_sysex payload d)"
proof -
  have "unat (of_nat (length payload) :: u8) \<le> length payload" using assms(2) by (simp add: unat_of_nat)
  then show ?thesis using dev_ok_sends [OF assms(1)] by (simp add: send_sysex_def midi_stream_sysex_packets)
qed

lemma length_config_payload [simp]: "length (config_payload d) = 45"
  by (simp add: config_payload_def config_pairs_def)

lemma send_config_data_ok: "dev_wf d \<Longrightarrow> ok (dev_ok d) (send_config_data d)"
  unfolding send_config_data_def by (rule send_sysex_ok) simp_all

lemma eeprom_save_edits_ok: "dev_wf d \<Longrightarrow> ok (dev_ok d) (eeprom_save_edits d)"
  using eeprom_save_edits_spec [OF dev_wf_colors_wf] dev_wf_ee by (simp add: set_mem_def)

lemma eeprom_factory_reset_ok:
  assumes "dev_wf d"
  shows "ok (dev_ok d) (eeprom_factory_reset d)"
proof -
  let ?d = "factory_settings (eeprom_write EE_EEPROM_VERSION EEPROM_LAYOUT d)"
  have d: "dev_ok d ?d"
    using dev_wf_settings [OF assms] unfolding factory_settings_def eeprom_write_def by simp
  obtain c where c: "load_default_colors (colors ?d) = Inr c" "colors_wf c"
    using load_default_colors_spec [OF dev_wf_colors_wf [OF dev_ok_wf [OF d]]] by blast
  have e: "dev_ok d (?d\<lparr>colors := c\<rparr>)" using dev_ok_trans [OF d dev_wf_colors [OF dev_ok_wf [OF d] c(2)]] .
  show ?thesis using ok_dev_trans [OF e eeprom_save_edits_ok [OF dev_ok_wf [OF e]]] c(1)
    by (simp add: eeprom_factory_reset_def Let_def)
qed

lemma eeprom_setup_ok:
  assumes "dev_wf d"
  shows "ok (dev_ok d) (eeprom_setup d)"
proof -
  have rest: "ok (dev_ok e) (for_run read_bank_colors [0..<NUM_BANKS] (read_settings e))" if "dev_wf e" for e
  proof -
    have e1: "dev_ok e (read_settings e)" unfolding read_settings_def using that by (rule dev_wf_settings)
    show ?thesis
    proof (rule ok_dev_trans [OF e1], rule ok_for_run [where P = "dev_ok (read_settings e)"])
      show "dev_ok (read_settings e) (read_settings e)" using dev_ok_wf [OF e1] by (rule dev_ok_refl)
      fix b f assume b: "b \<in> set [0..<NUM_BANKS]" and f: "dev_ok (read_settings e) f"
      have wf: "colors_wf (colors f)" using dev_wf_colors_wf [OF dev_ok_wf [OF f]] .
      show "ok (dev_ok (read_settings e)) (read_bank_colors b f)"
        using b wf dev_ok_trans [OF f dev_wf_colors [OF dev_ok_wf [OF f]]]
        by (auto simp: read_bank_colors_spec NUM_BANKS_def colors_wf_def BANK_BYTES_def)
    qed
  qed
  have "ok (dev_ok d) (if eeprom_read EE_EEPROM_VERSION d \<noteq> EEPROM_LAYOUT then eeprom_factory_reset d else Inr d)"
    using eeprom_factory_reset_ok [OF assms] dev_ok_refl [OF assms] by simp
  then show ?thesis unfolding eeprom_setup_def by (rule ok_dev_andthen) (rule rest)
qed

lemma push_config_ok:
  assumes "dev_wf d" "unat len \<le> length buffer"
  shows "ok (dev_ok d) (sysExCmdPushConfig len buffer d)"
proof -
  let ?e = "apply_config (decoded (take (unat len) buffer)) d"
  have e: "dev_ok d ?e" using assms(1) by (rule apply_config_ok)
  have bank: "ok (dev_ok ?e) (if c then change_bank 0 ?e else Inr ?e)" for c
    using change_bank_dev_ok [OF dev_ok_wf [OF e]] dev_ok_refl [OF dev_ok_wf [OF e]] by simp
  show ?thesis
    unfolding sysExCmdPushConfig_def tv_table_decode_spec [OF assms(2)] Let_def andthen_simps
    by (intro ok_dev_trans [OF e] ok_dev_andthen bank start_animation_dev_ok eeprom_save_edits_ok
        send_config_data_ok eeprom_setup_ok) simp_all
qed

lemma pull_config_ok: "dev_wf d \<Longrightarrow> buffer \<noteq> [] \<Longrightarrow> ok (dev_ok d) (sysExCmdPullConfig len buffer d)"
  by (simp add: sysExCmdPullConfig_def send_config_data_ok dev_ok_refl)

lemma system_ok: "dev_wf d \<Longrightarrow> buffer \<noteq> [] \<Longrightarrow> returns (dev_ok d) (sysExCmdSystem len buffer d)"
  by (auto simp: sysExCmdSystem_def dev_ok_refl led_set_state_def
      intro!: ok_returns ok_dev_andthen eeprom_factory_reset_ok send_config_data_ok)

section \<open>Bulk transfer\<close>

lemma for_run_cong: "(\<And>i s. i \<in> set is \<Longrightarrow> f i s = g i s) \<Longrightarrow> for_run f is s = for_run g is s"
proof (induction "is" arbitrary: s)
  case (Cons i "is")
  then have "for_run f is = for_run g is" by (intro ext) simp
  then show ?case using Cons.prems by simp
qed simp

text \<open>Part \<open>part\<close> of a transfer is the block of 24 bytes from \<open>24 * (part - 1)\<close> on.\<close>

lemma part_position:
  assumes "0 < part" "part \<le> (16 :: u8)"
  shows "unat (drop_bit 3 (part - 1)) < 2" "unat (((part - 1) AND 0x07) * 24) = 24 * ((unat part - 1) mod 8)"
    "bank_index (unat (drop_bit 3 (part - 1))) (unat (((part - 1) AND 0x07) * 24)) = 24 * (unat part - 1)"
    "unat (((part - 1) AND 0x07) * 24) + 24 \<le> 192"
proof -
  have "unat part < 17" using assms(2) by (simp add: word_le_nat_alt)
  moreover have "list_all (\<lambda>i. (\<lambda>part :: u8. part = 0 \<or> unat (drop_bit 3 (part - 1)) < 2
      \<and> unat (((part - 1) AND 0x07) * 24) = 24 * ((unat part - 1) mod 8)
      \<and> bank_index (unat (drop_bit 3 (part - 1))) (unat (((part - 1) AND 0x07) * 24)) = 24 * (unat part - 1)
      \<and> unat (((part - 1) AND 0x07) * 24) + 24 \<le> 192) (of_nat i)) [0..<17]" by code_simp
  ultimately have "part = 0 \<or> unat (drop_bit 3 (part - 1)) < 2
      \<and> unat (((part - 1) AND 0x07) * 24) = 24 * ((unat part - 1) mod 8)
      \<and> bank_index (unat (drop_bit 3 (part - 1))) (unat (((part - 1) AND 0x07) * 24)) = 24 * (unat part - 1)
      \<and> unat (((part - 1) AND 0x07) * 24) + 24 \<le> 192" by (rule u8_all_below [rotated])
  then show "unat (drop_bit 3 (part - 1)) < 2" "unat (((part - 1) AND 0x07) * 24) = 24 * ((unat part - 1) mod 8)"
    "bank_index (unat (drop_bit 3 (part - 1))) (unat (((part - 1) AND 0x07) * 24)) = 24 * (unat part - 1)"
    "unat (((part - 1) AND 0x07) * 24) + 24 \<le> 192" using assms(1) by auto
qed

definition set_block :: "nat \<Rightarrow> u8 list \<Rightarrow> u8 list \<Rightarrow> u8 list" where
  "set_block k bs arr = take k arr @ bs @ drop (k + length bs) arr"

lemma length_set_block [simp]: "k + length bs \<le> length arr \<Longrightarrow> length (set_block k bs arr) = length arr"
  by (simp add: set_block_def)

lemma bulk_copy_spec:
  assumes "k = bank_index (unat bank) (unat offset)" "k + unat siz \<le> length arr" "5 + unat siz \<le> length buffer"
  shows "bulk_copy buffer bank offset siz arr = Inr (set_block k (map push_color (take (unat siz) (drop 5 buffer))) arr)"
proof -
  have "bulk_copy buffer bank offset siz arr
      = for_run (\<lambda>i xs. store xs (k + i) (push_color (buffer ! (5 + i)))) [0..<unat siz] arr"
    unfolding bulk_copy_def
    by (rule for_run_cong) (use assms in \<open>simp add: bank_index_def ac_simps\<close>)
  also have "\<dots> = Inr (take k arr @ map (\<lambda>i. push_color (buffer ! (5 + i))) [0..<unat siz] @ drop (k + unat siz) arr)"
    using assms(2) by (rule for_run_store_block)
  also have "map (\<lambda>i. push_color (buffer ! (5 + i))) [0..<unat siz] = map push_color (take (unat siz) (drop 5 buffer))"
    using assms(3) by (intro nth_equalityI) simp_all
  finally show ?thesis using assms(3) by (simp add: set_block_def)
qed

text \<open>What a push of at most 24 bytes makes of a colour array.\<close>

definition pushed :: "u8 \<Rightarrow> u8 list \<Rightarrow> u8 list \<Rightarrow> u8 list" where
  "pushed part bs arr = adjust_triples ((length bs + 2) div 3) (24 * ((unat part - 1) mod 8))
     (unat (drop_bit 3 (part - 1))) (set_block (24 * (unat part - 1)) (map push_color bs) arr)"

lemma triple_count:
  assumes "(n :: nat) \<le> 24"
  shows "3 * ((n + 2) div 3) \<le> 24" "n \<le> 3 * ((n + 2) div 3)" "3 * ((n + 2) div 3) \<le> n + 2" "(n + 2) div 3 < 256"
  using assms by presburger+

lemma bulk_array:
  assumes "0 < part" "part \<le> 16" "unat siz \<le> 24" "5 + unat siz \<le> length buffer" "length arr = 384"
  defines "bank \<equiv> drop_bit 3 (part - 1)" and "offset \<equiv> ((part - 1) AND 0x07) * 24"
  shows "andthen (bulk_copy buffer bank offset siz arr) (adjust_loop 256 offset (unat offset + unat siz) (unat bank))
     = Inr (pushed part (take (unat siz) (drop 5 buffer)) arr)"
proof -
  note pos = part_position [OF assms(1,2), folded bank_def offset_def]
  have p: "unat part \<le> 16" using assms(2) by (simp add: word_le_nat_alt)
  let ?bs = "take (unat siz) (drop 5 buffer)"
  have bs: "length ?bs = unat siz" using assms(4) by simp
  let ?arr = "set_block (24 * (unat part - 1)) (map push_color ?bs) arr"
  have fits: "24 * (unat part - 1) + unat siz \<le> length arr" using p assms(3,5) by simp
  have copy: "bulk_copy buffer bank offset siz arr = Inr ?arr"
    using bulk_copy_spec [OF pos(3) [symmetric] fits assms(4)] .
  have "adjust_loop 256 offset (unat offset + unat siz) (unat bank) ?arr
      = Inr (adjust_triples ((unat siz + 2) div 3) (unat offset) (unat bank) ?arr)"
  proof (rule adjust_loop_fold)
    note n = triple_count [OF assms(3)]
    show "unat offset + 3 * ((unat siz + 2) div 3) \<le> unat offset + unat siz + 2"
      "unat offset + unat siz \<le> unat offset + 3 * ((unat siz + 2) div 3)"
      "unat offset + unat siz \<le> 250" "(unat siz + 2) div 3 < 256" using pos(4) assms(3) n by linarith+
    show "bank_index (unat bank) (unat offset + 3 * ((unat siz + 2) div 3)) \<le> length ?arr"
      using pos(1,4) n fits bs assms(5) by (simp add: bank_index_def BANK_BYTES_def)
  qed
  then show ?thesis using copy bs pos(2) by (simp add: pushed_def bank_def)
qed

lemma length_pushed: 
  assumes "part \<le> 16" "length bs \<le> 24" "length arr = 384"
  shows "length (pushed part bs arr) = 384"
proof -
  have "unat part \<le> 16" using assms(1) by (simp add: word_le_nat_alt)
  then show ?thesis using assms(2,3) by (simp add: pushed_def)
qed

lemma bulk_push_spec:
  assumes "colors_wf (colors d)" "5 < unat len" "unat len \<le> length buffer" "tag \<noteq> 0" "0 < buffer ! 2" "buffer ! 2 \<le> 16"
    and "unat (buffer ! 4) \<le> 24" "unat (buffer ! 4) + 5 \<le> unat len"
  shows "bulk_push len tag buffer d = Inr (d\<lparr>colors :=
     (let bs = take (unat (buffer ! 4)) (drop 5 buffer) in
      if tag = 1 then (colors d)\<lparr>default_bank_inactive := pushed (buffer ! 2) bs (default_bank_inactive (colors d))\<rparr>
      else if tag = 2 then (colors d)\<lparr>default_bank_active := pushed (buffer ! 2) bs (default_bank_active (colors d))\<rparr>
      else colors d)\<rparr>)"
proof -
  have len: "length (default_bank_inactive (colors d)) = 384" "length (default_bank_active (colors d)) = 384"
    using assms(1) by (simp_all add: colors_wf_def BANK_BYTES_def)
  have idx: "load buffer 2 = Inr (buffer ! 2)" "load buffer 3 = Inr (buffer ! 3)" "load buffer 4 = Inr (buffer ! 4)"
    using assms(2,3) by simp_all
  have siz: "\<not> uint (buffer ! 4) > uint len - 5"
    unfolding uint_nat using assms(8) by linarith
  have fits: "5 + unat (buffer ! 4) \<le> length buffer" using assms(3,8) by simp
  define bank where "bank = drop_bit 3 (buffer ! 2 - 1)"
  define offset where "offset = ((buffer ! 2 - 1) AND 0x07) * 24"
  note arr = bulk_array [OF assms(5,6,7) fits, folded bank_def offset_def]
  obtain a1 where a1: "bulk_copy buffer bank offset (buffer ! 4) (default_bank_inactive (colors d)) = Inr a1"
      "adjust_loop 256 offset (unat offset + unat (buffer ! 4)) (unat bank) a1
        = Inr (pushed (buffer ! 2) (take (unat (buffer ! 4)) (drop 5 buffer)) (default_bank_inactive (colors d)))"
    using arr [OF len(1)] unfolding andthen_Inr_iff by blast
  obtain a2 where a2: "bulk_copy buffer bank offset (buffer ! 4) (default_bank_active (colors d)) = Inr a2"
      "adjust_loop 256 offset (unat offset + unat (buffer ! 4)) (unat bank) a2
        = Inr (pushed (buffer ! 2) (take (unat (buffer ! 4)) (drop 5 buffer)) (default_bank_active (colors d)))"
    using arr [OF len(2)] unfolding andthen_Inr_iff by blast
  have part: "buffer ! 2 \<noteq> 0" "\<not> buffer ! 2 > 16" using assms(5,6) by auto
  have "bulk_push len tag buffer d =
      (if tag = 1 then
         andthen (bulk_copy buffer bank offset (buffer ! 4) (default_bank_inactive (colors d))) (\<lambda>arr.
         andthen (adjust_inactive_bank_leds_for_power bank offset (buffer ! 4)
           ((colors d)\<lparr>default_bank_inactive := arr\<rparr>)) (\<lambda>c. Inr (d\<lparr>colors := c\<rparr>)))
       else if tag = 2 then
         andthen (bulk_copy buffer bank offset (buffer ! 4) (default_bank_active (colors d))) (\<lambda>arr.
         andthen (adjust_active_bank_leds_for_power bank offset (buffer ! 4)
           ((colors d)\<lparr>default_bank_active := arr\<rparr>)) (\<lambda>c. Inr (d\<lparr>colors := c\<rparr>)))
       else Inr d)"
    unfolding bulk_push_def idx andthen_simps Let_def bank_def offset_def
    using assms(4) siz part by (simp only: if_False if_True simp_thms)
  then show ?thesis
    by (simp add: a1 a2 adjust_inactive_bank_leds_for_power_def adjust_active_bank_leds_for_power_def Let_def)
qed

text \<open>The protocol limits the payload of a push to 24 bytes.\<close>

definition config_permitted :: "u8 list \<Rightarrow> bool" where
  "config_permitted msg \<longleftrightarrow>
     (5 < length msg \<and> msg ! 0 = SYSEX_COMMAND_BULK_XFER \<and> msg ! 1 = 0 \<longrightarrow> msg ! 5 \<le> 24)"

lemma bulk_push_noop:
  assumes "tag = 0 \<or> buffer ! 2 = 0 \<or> 16 < buffer ! 2 \<or> unat len < unat (buffer ! 4) + 5" "4 < length buffer"
  shows "bulk_push len tag buffer d = Inr d"
proof -
  have idx: "load buffer 2 = Inr (buffer ! 2)" "load buffer 3 = Inr (buffer ! 3)" "load buffer 4 = Inr (buffer ! 4)"
    using assms(2) by simp_all
  have siz: "uint (buffer ! 4) > uint len - 5 \<longleftrightarrow> unat len < unat (buffer ! 4) + 5"
    unfolding uint_nat by linarith
  from assms(1) show ?thesis
    unfolding bulk_push_def idx andthen_simps Let_def siz
    by (elim disjE) (simp_all only: if_True simp_thms if_cancel cong: if_cong)
qed

lemma bulk_push_ok:
  assumes "dev_wf d" "5 < unat len" "unat len \<le> length buffer" "buffer ! 4 \<le> 24"
  shows "ok (dev_ok d) (bulk_push len tag buffer d)"
proof (cases "tag = 0 \<or> buffer ! 2 = 0 \<or> 16 < buffer ! 2 \<or> unat len < unat (buffer ! 4) + 5")
  case True
  then show ?thesis using assms bulk_push_noop [OF True, of d] dev_ok_refl by simp
next
  case False
  then have f: "tag \<noteq> 0" "0 < buffer ! 2" "buffer ! 2 \<le> 16" "unat (buffer ! 4) + 5 \<le> unat len"
    by (simp_all add: word_gt_0 not_less)
  have c: "colors_wf (colors d)" using assms(1) by (rule dev_wf_colors_wf)
  have siz: "unat (buffer ! 4) \<le> 24" using assms(4) by (simp add: word_le_nat_alt)
  let ?bs = "take (unat (buffer ! 4)) (drop 5 buffer)"
  have bs: "length ?bs \<le> 24" using siz by simp
  have "length (pushed (buffer ! 2) ?bs arr) = 384" if "length arr = 384" for arr
    using f(3) bs that by (rule length_pushed)
  then have "colors_wf (let bs = ?bs in
      if tag = 1 then (colors d)\<lparr>default_bank_inactive := pushed (buffer ! 2) bs (default_bank_inactive (colors d))\<rparr>
      else if tag = 2 then (colors d)\<lparr>default_bank_active := pushed (buffer ! 2) bs (default_bank_active (colors d))\<rparr>
      else colors d)"
    using c by (simp add: Let_def colors_wf_def BANK_BYTES_def)
  then show ?thesis
    unfolding bulk_push_spec [OF c assms(2,3) f(1-3) siz f(4)] ok_simps by (rule dev_wf_colors [OF assms(1)])
qed

section \<open>The messages of a pull\<close>

lemma set_block_snoc:
  assumes "k + length bs < length arr"
  shows "(set_block k bs arr)[k + length bs := v] = set_block k (bs @ [v]) arr"
proof -
  have "drop (k + length bs) arr = arr ! (k + length bs) # drop (Suc (k + length bs)) arr"
    using assms by (simp add: Cons_nth_drop_Suc)
  then show ?thesis using assms by (simp add: set_block_def list_update_append)
qed

lemma set_block_Nil [simp]: "set_block k [] arr = arr"
  by (simp add: set_block_def)

lemma pull_loop:
  assumes "k + n \<le> length source" "10 + n \<le> length payload"
  shows "for_run (\<lambda>idx (index, payload).
            andthen (load source index) (\<lambda>v.
            andthen (store payload idx (pull_color v)) (\<lambda>payload. Inr (index + 1, payload))))
          [10..<n + 10] (k, payload) = Inr (k + n, set_block 10 (map pull_color (take n (drop k source))) payload)"
  using assms
proof (induction n)
  case (Suc n)
  let ?bs = "map pull_color (take n (drop k source))"
  have len: "length ?bs = n" using Suc.prems by simp
  have upt: "[10..<Suc n + 10] = [10..<n + 10] @ [n + 10]"
    unfolding add_Suc by (rule upt_Suc_append) simp
  have "(set_block 10 ?bs payload)[n + 10 := pull_color (source ! (k + n))]
      = set_block 10 (?bs @ [pull_color (source ! (k + n))]) payload"
    using set_block_snoc [of 10 ?bs payload] len Suc.prems by (simp add: add.commute)
  moreover have "map pull_color (take (Suc n) (drop k source)) = ?bs @ [pull_color (source ! (k + n))]"
    using Suc.prems by (simp add: take_Suc_conv_app_nth)
  moreover have "length (set_block 10 ?bs payload) = length payload" using len Suc.prems by simp
  ultimately show ?case
    unfolding upt for_run_append using Suc by simp
qed simp

definition bulk_message :: "u8 \<Rightarrow> nat \<Rightarrow> u8 list \<Rightarrow> u8 list" where
  "bulk_message tag part bs = [0xF0, MIDI_MFR_ID_0, MIDI_MFR_ID_1, MIDI_MFR_ID_2, SYSEX_COMMAND_BULK_XFER,
     0x0, tag, of_nat part, 16, of_nat (length bs)] @ bs @ [0xF7]"

definition pull_block :: "nat \<Rightarrow> u8 list \<Rightarrow> u8 list" where
  "pull_block part source = map pull_color (take 24 (drop (24 * (part - 1)) source))"

definition flushed :: "midi_globals \<Rightarrow> midi_globals" where
  "flushed m = m\<lparr>usb := snd (MIDI_Device_Flush (usb m))\<rparr>"

lemma bulk_pull_part_spec:
  assumes "length source = 384" "1 \<le> part" "part \<le> 16"
  shows "bulk_pull_part tag source 16 part (384 - 24 * (part - 1), 24 * (part - 1), d)
    = Inr (384 - 24 * part, 24 * part, d\<lparr>midi := flushed (fold midi_send
        (sysex_packets True (bulk_message tag part (pull_block part source))) (midi d))\<rparr>)"
proof -
  let ?k = "24 * (part - 1)" and ?P = "bulk_payload tag part 16 24"
  have k: "?k + 24 \<le> length source" and next_k: "?k + 24 = 24 * part" "384 - ?k - 24 = 384 - 24 * part"
    using assms by simp_all
  have siz: "(if 384 - ?k > 24 then 24 else 384 - ?k) = 24" using assms by auto
  have "10 + 24 \<le> length ?P" by (simp add: bulk_payload_def)
  note loop = pull_loop [OF k this]
  have blk: "length (pull_block part source) = 24" using k by (simp add: pull_block_def)
  have man: "manufacturer_hi = MIDI_MFR_ID_1" "manufacturer_lo = MIDI_MFR_ID_2"
    by (simp_all add: manufacturer_hi_def manufacturer_lo_def MANUFACTURER_ID_def MIDI_MFR_ID_1_def MIDI_MFR_ID_2_def)
  have rep: "replicate 25 (0xF7 :: u8) = replicate 24 0xF7 @ [0xF7]"
    by (simp add: numeral_eq_Suc replicate_append_same)
  have P: "set_block 10 (pull_block part source) ?P = bulk_message tag part (pull_block part source)"
    using blk by (simp add: set_block_def bulk_payload_def bulk_message_def man MIDI_MFR_ID_0_def rep)
  have len: "length (bulk_message tag part (pull_block part source)) = 35" using blk by (simp add: bulk_message_def)
  have "midi_stream_sysex (of_nat (11 + 24)) (bulk_message tag part (pull_block part source)) (midi d)
      = Inr (fold midi_send (sysex_packets True (bulk_message tag part (pull_block part source))) (midi d))"
    using midi_stream_sysex_packets [of 35 "bulk_message tag part (pull_block part source)"] len by simp
  then show ?thesis
    unfolding bulk_pull_part_def prod.case Let_def siz
    using loop P next_k by (simp add: pull_block_def flushed_def)
qed

definition pull_packets :: "u8 \<Rightarrow> u8 list \<Rightarrow> nat \<Rightarrow> MIDI_EventPacket_t list" where
  "pull_packets tag source part = sysex_packets True (bulk_message tag part (pull_block part source))"

lemma bulk_pull_spec:
  assumes "colors_wf (colors d)" "tag = 1 \<or> tag = 2"
  defines "source \<equiv> (if tag = 1 then default_bank_inactive (colors d) else default_bank_active (colors d))"
  shows "bulk_pull tag d = Inr (d\<lparr>midi := fold (\<lambda>part m. flushed (fold midi_send (pull_packets tag source part) m)) [1..<17] (midi d)\<rparr>)"
proof -
  let ?step = "\<lambda>part m. flushed (fold midi_send (pull_packets tag source part) m)"
  have len: "length source = 384" using assms(1) by (simp add: source_def colors_wf_def BANK_BYTES_def)
  have "for_run (bulk_pull_part tag source 16) [1..<n + 1] (384, 0, d)
      = Inr (384 - 24 * n, 24 * n, d\<lparr>midi := fold ?step [1..<n + 1] (midi d)\<rparr>)" if "n \<le> 16" for n
    using that
  proof (induction n)
    case (Suc n)
    have upt: "[1..<Suc n + 1] = [1..<n + 1] @ [Suc n]" by simp
    show ?case
      unfolding upt for_run_append using Suc bulk_pull_part_spec [OF len, of "Suc n" tag]
      by (simp add: pull_packets_def)
  qed simp
  from this [of 16] have run: "for_run (bulk_pull_part tag source 16) [1..<17] (384, 0, d)
      = Inr (0, 384, d\<lparr>midi := fold ?step [1..<17] (midi d)\<rparr>)" by simp
  have tot: "NUM_BANKS * NUM_BUTTONS * 3 = 384" "(384 :: nat) div 24 = 16" "(16 :: nat) + 1 = 17"
    by (simp_all add: NUM_BANKS_def NUM_BUTTONS_def)
  show ?thesis
    unfolding bulk_pull_def Let_def tot source_def [symmetric] run andthen_simps prod.case using assms(2) by simp
qed

lemma dev_ok_flushed: "dev_wf d \<Longrightarrow> dev_ok d (d\<lparr>midi := flushed (midi d)\<rparr>)"
  by (rule dev_ok_midi) (simp_all add: dev_wf_midi_wf flushed_def flush_out midi_wf_def flush_wf dev_wf_def)

lemma bulk_pull_ok:
  assumes "dev_wf d"
  shows "ok (dev_ok d) (bulk_pull tag d)"
proof (cases "tag = 1 \<or> tag = 2")
  case True
  have "dev_ok d (d\<lparr>midi := fold (\<lambda>part m. flushed (fold midi_send (pull_packets tag src part) m)) ps (midi d)\<rparr>)" for src ps
  proof (induction ps rule: rev_induct)
    case (snoc p ps)
    let ?e = "d\<lparr>midi := fold (\<lambda>part m. flushed (fold midi_send (pull_packets tag src part) m)) ps (midi d)\<rparr>"
    have e: "dev_ok ?e (?e\<lparr>midi := fold midi_send (pull_packets tag src p) (midi ?e)\<rparr>)"
      using dev_ok_wf [OF snoc] by (rule dev_ok_sends)
    from dev_ok_trans [OF snoc dev_ok_trans [OF e dev_ok_flushed [OF dev_ok_wf [OF e]]]] show ?case by simp
  qed (simp add: assms dev_ok_refl)
  then show ?thesis using bulk_pull_spec [OF dev_wf_colors_wf [OF assms] True] by simp
next
  case False
  then show ?thesis using assms by (simp add: bulk_pull_def dev_ok_refl)
qed

lemma bulk_xfer_ok:
  assumes "dev_wf d" "unat len \<le> length buffer" "5 < unat len \<Longrightarrow> buffer ! 0 = 0 \<Longrightarrow> buffer ! 4 \<le> 24"
  shows "ok (dev_ok d) (sysExCmdBulkXfer len buffer d)"
proof (cases "len > 2")
  case True
  then have "2 < length buffer" using assms(2) by (simp add: word_less_nat_alt)
  then have "0 < length buffer" "1 < length buffer" by linarith+
  then have idx: "load buffer 0 = Inr (buffer ! 0)" "load buffer (Suc 0) = Inr (buffer ! 1)" by simp_all
  have "len > 5 \<longleftrightarrow> 5 < unat len" by (simp add: word_less_nat_alt)
  then show ?thesis using True assms bulk_push_ok [OF assms(1) _ assms(2)] bulk_pull_ok [OF assms(1)] dev_ok_refl [OF assms(1)]
    by (simp add: sysExCmdBulkXfer_def idx)
qed (use assms in \<open>simp add: sysExCmdBulkXfer_def dev_ok_refl\<close>)

section \<open>The command table\<close>

definition config_commands :: "SysExFn option list" where
  "config_commands = [Some sysExCmdPushConfig, Some sysExCmdPullConfig, Some sysExCmdSystem, Some sysExCmdBulkXfer,
     None, None, None, None]"

definition config_inv :: "dev \<Rightarrow> dev \<Rightarrow> bool" where
  "config_inv d0 d \<longleftrightarrow> dev_wf d \<and> device_frame d = device_frame d0"

lemma config_inv_ok: "config_inv d0 d \<Longrightarrow> dev_ok d d' \<Longrightarrow> config_inv d0 d'"
  by (simp add: config_inv_def dev_ok_def)

lemma config_setup_installs:
  assumes "sysExCommandMap g = replicate 8 None"
  shows "config_setup g = Inr (g\<lparr>sysExCommandMap := config_commands\<rparr>)"
proof -
  have map: "sysExCommandMap g = [None, None, None, None, None, None, None, None]"
    using assms by (simp add: numeral_eq_Suc)
  have upd: "(a # b # c # xs)[2 := v] = a # b # v # xs" "(a # b # c # e # xs)[3 := v] = a # b # c # v # xs"
    for a b c e v :: "SysExFn option" and xs
    by (simp_all add: numeral_2_eq_2 numeral_3_eq_3)
  show ?thesis
    by (simp add: config_setup_def sysex_install_def SYSEX_COMMAND_PUSH_CONF_def SYSEX_COMMAND_PULL_CONF_def
        SYSEX_COMMAND_SYSTEM_def SYSEX_COMMAND_BULK_XFER_def MAX_COMMAND_def config_commands_def map upd)
qed

lemma config_command_safe:
  assumes "k < 8" "config_commands ! k = Some f" "dev_wf d" "config_permitted (of_nat (k + 1) # args)"
    and "length args < 63" "length buf = 63" "take (length args) buf = args"
  shows "returns (dev_ok d) (f (of_nat (length args)) buf d)"
proof -
  have len: "unat (of_nat (length args) :: u8) = length args" using assms(5) by (simp add: unat_of_nat)
  have "k = 0 \<or> k = 1 \<or> k = 2 \<or> k = 3 \<or> k = 4 \<or> k = 5 \<or> k = 6 \<or> k = 7" using assms(1) by linarith
  then consider "k = 0" "f = sysExCmdPushConfig" | "k = 1" "f = sysExCmdPullConfig" | "k = 2" "f = sysExCmdSystem"
    | "k = 3" "f = sysExCmdBulkXfer"
    using assms(2) by (elim disjE) (simp_all add: config_commands_def numeral_eq_Suc)
  then show ?thesis
  proof cases
    case 4
    have "buf ! 4 \<le> 24" if "5 < length args" "buf ! 0 = 0"
    proof -
      have "i < length args \<Longrightarrow> buf ! i = args ! i" for i
        using nth_take [of i "length args" buf] assms(7) by simp
      moreover have "0 < length args" "4 < length args" using that(1) by linarith+
      ultimately have "buf ! 0 = args ! 0" "buf ! 4 = args ! 4" by blast+
      with that assms(4) 4 show ?thesis by (simp add: config_permitted_def SYSEX_COMMAND_BULK_XFER_def)
    qed
    then show ?thesis using 4 assms(3,5,6) len by (auto intro!: ok_returns bulk_xfer_ok)
  next
    case 3
    moreover have "buf \<noteq> []" using assms(6) by auto
    ultimately show ?thesis using system_ok [OF assms(3)] by simp
  qed (use assms len in \<open>auto intro!: ok_returns push_config_ok pull_config_ok\<close>)
qed

interpretation config: sysex_commands config_commands "config_inv d0" config_permitted for d0
proof
  fix k f d args and buf :: "u8 list"
  assume "k < 8" "config_commands ! k = Some f" "config_inv d0 d" "config_permitted (of_nat (k + 1) # args)"
    "length args < 63" "length buf = 63" "take (length args) buf = args"
  then show "returns (config_inv d0) (f (of_nat (length args)) buf d)"
    by (intro returns_mono [OF config_command_safe]) (auto simp: config_inv_def dev_ok_def)
next
  fix d assume "config_inv d0 d"
  then show "returns (config_inv d0) (send_sysex identify_reply d)"
    using ok_returns [OF send_sysex_ok [of d identify_reply]] returns_mono
    by (fastforce simp: config_inv_def dev_ok_def identify_reply_def)
qed

section \<open>Settings over SysEx\<close>

lemma tilt_mask_split: "m AND 0x0C = (0 :: u8) \<Longrightarrow> push_bit 4 (drop_bit 4 m AND 0x0F) OR (m AND 0x03) = m"
proof -
  have "list_all (\<lambda>i. (\<lambda>m :: u8. m AND 0x0C = 0 \<longrightarrow> push_bit 4 (drop_bit 4 m AND 0x0F) OR (m AND 0x03) = m) (of_nat i)) [0..<256]"
    by code_simp
  from u8_all_below [OF this unat_u8_less, of m] show "m AND 0x0C = (0 :: u8) \<Longrightarrow> ?thesis" by simp
qed

lemma table24: "replicate TV_TABLE_SIZE x = [x, x, x, x, x, x, x, x, x, x, x, x, x, x, x, x, x, x, x, x, x, x, x, x]"
  by (simp add: TV_TABLE_SIZE_def numeral_eq_Suc)

lemma decoded_pairs:
  "decoded (config_pairs d @ [b]) =
     [G_EE_MIDI_CHANNEL (midi d) + 1, G_EE_MIDI_VELOCITY (midi d), 0, G_EE_FOUR_BANKS_MODE (ee d), 0, 0, 0,
      G_EE_MIDI_OUTPUT_MODE (ee d), G_EE_COMBOS_ENABLE (ee d), 0, G_EE_ANIMATIONS (ee d),
      G_EE_TILT_MASK (ee d) AND 0x3, drop_bit 4 (G_EE_TILT_MASK (ee d)) AND 0xF, G_EE_TILT_MODE (ee d) - 1,
      G_EE_TILT_SENSITIVITY (ee d), G_EE_PITCH_SENSITIVITY (ee d), G_EE_TILT_RANGE (ee d), G_EE_PITCH_RANGE (ee d),
      G_EE_TILT_DEADZONE (ee d), G_EE_PITCH_DEADZONE (ee d), G_EE_TILT_AXIS (ee d), G_EE_PICK_SENSITIVITY (ee d),
      G_EE_SLEEP_TIME (ee d), G_EE_SIDE_BANK (ee d)]"
proof -
  have size: "TV_TABLE_SIZE = 24" by (simp add: TV_TABLE_SIZE_def)
  show ?thesis
    unfolding decoded_def config_pairs_def table24
    by (simp add: tv_put_def size list_update_code)
qed

lemma apply_own_config:
  assumes "G_EE_TILT_MASK (ee d) AND 0x0C = 0"
  shows "apply_config (decoded (config_pairs d @ [b])) d = d"
proof -
  show ?thesis
    using tilt_mask_split [OF assms] unfolding apply_config_def decoded_pairs by (simp add: nth_Cons')
qed

lemma config_payload_settings:
  "G_EE_MIDI_CHANNEL (midi d) = G_EE_MIDI_CHANNEL (midi e) \<Longrightarrow> G_EE_MIDI_VELOCITY (midi d) = G_EE_MIDI_VELOCITY (midi e) \<Longrightarrow>
   ee d = ee e \<Longrightarrow> config_payload d = config_payload e"
  by (simp add: config_payload_def config_pairs_def)

lemma config_payload_set_mem [simp]: "config_payload (set_mem m d) = config_payload d"
  by (simp add: config_payload_def config_pairs_def set_mem_def)

lemma setting_cells_midi:
  "G_EE_MIDI_CHANNEL (midi d) = G_EE_MIDI_CHANNEL (midi e) \<Longrightarrow> G_EE_MIDI_VELOCITY (midi d) = G_EE_MIDI_VELOCITY (midi e) \<Longrightarrow>
   ee d = ee e \<Longrightarrow> setting_cells d = setting_cells e"
  by (simp add: setting_cells_def)

text \<open>The part of a push after the settings have been changed: animation, save, reply, reload.\<close>

lemma push_tail:
  assumes wf: "dev_wf d" and layout: "eeprom_mem (ee d) 0 = EEPROM_LAYOUT"
  shows "ok (\<lambda>d'. dev_wf d' \<and> setting_cells d' = setting_cells d \<and> colors d' = colors d
       \<and> g_bank_selected (midi d') = g_bank_selected (midi d) \<and> eeprom_mem (ee d') = saved_mem d
       \<and> usb (midi d') = usb (fold midi_send (sysex_packets True (config_payload d)) (midi d)))
     (andthen (start_geometric_animation 0 GEOMETRIC_ANIMATION_TYPE_TRIANGLE d) (\<lambda>d.
      andthen (eeprom_save_edits d) (\<lambda>d. andthen (send_config_data d) eeprom_setup)))"
proof -
  obtain d1 where d1: "start_geometric_animation 0 GEOMETRIC_ANIMATION_TYPE_TRIANGLE d = Inr d1" "dev_wf d1"
      "bank_frame d1 = bank_frame d" "midi d1 = midi d"
    using start_animation_dev [OF wf, of 0] by (auto simp: ok_def)
  have same: "ee d1 = ee d" "colors d1 = colors d" using d1(3) by (simp_all add: bank_frame_def)
  have saved: "saved_mem d1 = saved_mem d"
    using same d1(4) by (simp add: saved_mem_def setting_mem_def setting_cells_def Let_def)
  define d2 where "d2 = set_mem (saved_mem d) d1"
  have save: "eeprom_save_edits d1 = Inr d2"
    using eeprom_save_edits_spec [OF dev_wf_colors_wf [OF d1(2)]] by (simp add: d2_def saved)
  have wf2: "dev_wf d2" using dev_ok_wf [OF dev_wf_ee [OF d1(2)]] by (simp add: d2_def set_mem_def)
  define d3 where "d3 = d2\<lparr>midi := fold midi_send (sysex_packets True (config_payload d)) (midi d)\<rparr>"
  have payload: "config_payload d2 = config_payload d"
    using config_payload_settings [of d1 d] d1(4) same by (simp add: d2_def)
  have m2: "midi d2 = midi d" using d1(4) by (simp add: d2_def set_mem_def)
  have send: "send_config_data d2 = Inr d3"
    using midi_stream_sysex_packets [of 45 "config_payload d" "midi d"]
    by (simp add: send_config_data_def send_sysex_def payload m2 d3_def)
  have wf3: "dev_wf d3" using dev_ok_wf [OF dev_ok_sends [OF wf2]] by (simp add: d3_def m2)
  have mem3: "eeprom_mem (ee d3) = saved_mem d" by (simp add: d3_def d2_def set_mem_def)
  have ver: "eeprom_read EE_EEPROM_VERSION d3 = EEPROM_LAYOUT"
    using layout by (simp add: eeprom_read_def EE_EEPROM_VERSION_def mem3 saved_mem_low setting_mem_other)
  let ?d4 = "(read_settings d3)\<lparr>colors := (colors d3)\<lparr>default_bank_inactive := stored (eeprom_mem (ee d3)) 0x6F 384,
      default_bank_active := stored (eeprom_mem (ee d3)) 0x1EF 384\<rparr>\<rparr>"
  have load: "eeprom_setup d3 = Inr ?d4" using eeprom_setup_loads [OF dev_wf_colors_wf [OF wf3] ver] .
  have wf4: "dev_wf ?d4" using eeprom_setup_ok [OF wf3] load by (simp add: dev_ok_def)
  have cells: "setting_cells ?d4 = setting_cells d"
    using read_settings_cells [OF mem3] by (simp add: setting_cells_def)
  have cols: "colors ?d4 = colors d"
    using saved_mem_colors [OF dev_wf_colors_wf [OF wf]] same by (simp add: mem3 d3_def d2_def set_mem_def)
  have rest: "g_bank_selected (midi ?d4) = g_bank_selected (midi d)" "eeprom_mem (ee ?d4) = saved_mem d"
    "usb (midi ?d4) = usb (fold midi_send (sysex_packets True (config_payload d)) (midi d))"
    using mem3 fold_midi_send_frame [of "sysex_packets True (config_payload d)" "midi d"]
    by (simp_all add: read_settings_def d3_def) (metis midi_globals.select_convs midi_globals.surjective midi_globals.update_convs)
  show ?thesis using d1(1) save send load wf4 cells cols rest by simp
qed

text \<open>Leaving the second bank when its keys are switched off touches the bank number only.\<close>

lemma bank_off_step:
  assumes "dev_wf d"
  shows "ok (\<lambda>d'. dev_wf d' \<and> ee d' = ee d \<and> colors d' = colors d \<and> usb (midi d') = usb (midi d)
      \<and> G_EE_MIDI_CHANNEL (midi d') = G_EE_MIDI_CHANNEL (midi d) \<and> G_EE_MIDI_VELOCITY (midi d') = G_EE_MIDI_VELOCITY (midi d)
      \<and> g_bank_selected (midi d') = (if off then 0 else g_bank_selected (midi d)))
    (if off then change_bank 0 d else Inr d)"
proof (cases off)
  case True
  then show ?thesis by (auto intro!: ok_mono [OF change_bank_ok [OF assms, of 0]] simp: bank_frame_def)
qed (use assms in auto)

lemma push_config_run:
  assumes "dev_wf d" "eeprom_mem (ee d) 0 = EEPROM_LAYOUT" "unat len \<le> length buffer"
  defines "cfg \<equiv> decoded (take (unat len) buffer)"
  defines "d1 \<equiv> apply_config cfg d"
  shows "ok (\<lambda>d'. dev_wf d' \<and> setting_cells d' = setting_cells d1 \<and> colors d' = colors d
      \<and> (\<forall>(a, v) \<in> set (setting_cells d1). eeprom_mem (ee d') (unat a) = v)
      \<and> g_bank_selected (midi d') = (if G_EE_SIDE_BANK (ee d) \<noteq> 0 \<and> cfg ! 23 = 0 then 0 else g_bank_selected (midi d))
      \<and> usb (midi d') = usb (fold midi_send (sysex_packets True (config_payload d1)) (midi d)))
    (sysExCmdPushConfig len buffer d)"
proof -
  have d1: "dev_wf d1" "usb (midi d1) = usb (midi d)" "colors d1 = colors d" "g_bank_selected (midi d1) = g_bank_selected (midi d)"
    "G_EE_SIDE_BANK (ee d1) = cfg ! 23" "eeprom_mem (ee d1) = eeprom_mem (ee d)"
    using dev_ok_wf [OF apply_config_ok [OF assms(1)]] by (simp_all add: d1_def apply_config_def)
  let ?off = "G_EE_SIDE_BANK (ee d1) \<noteq> G_EE_SIDE_BANK (ee d) \<and> G_EE_SIDE_BANK (ee d1) = 0"
  obtain d2 where d2: "(if ?off then change_bank 0 d1 else Inr d1) = Inr d2" "dev_wf d2" "ee d2 = ee d1" "colors d2 = colors d1"
      "usb (midi d2) = usb (midi d1)" "G_EE_MIDI_CHANNEL (midi d2) = G_EE_MIDI_CHANNEL (midi d1)"
      "G_EE_MIDI_VELOCITY (midi d2) = G_EE_MIDI_VELOCITY (midi d1)"
      "g_bank_selected (midi d2) = (if ?off then 0 else g_bank_selected (midi d1))"
    using bank_off_step [OF d1(1), of ?off] by (auto simp: ok_def)
  have layout: "eeprom_mem (ee d2) 0 = EEPROM_LAYOUT" using assms(2) d1(6) d2(3) by simp
  have cells: "setting_cells d2 = setting_cells d1" "config_payload d2 = config_payload d1"
    using d2(3,6,7) setting_cells_midi config_payload_settings by blast+
  obtain d' where d': "andthen (start_geometric_animation 0 GEOMETRIC_ANIMATION_TYPE_TRIANGLE d2) (\<lambda>d.
      andthen (eeprom_save_edits d) (\<lambda>d. andthen (send_config_data d) eeprom_setup)) = Inr d'" "dev_wf d'"
      "setting_cells d' = setting_cells d2" "colors d' = colors d2" "g_bank_selected (midi d') = g_bank_selected (midi d2)"
      "eeprom_mem (ee d') = saved_mem d2"
      "usb (midi d') = usb (fold midi_send (sysex_packets True (config_payload d2)) (midi d2))"
    using push_tail [OF d2(2) layout] by (auto simp: ok_def)
  have run: "sysExCmdPushConfig len buffer d = Inr d'"
    unfolding sysExCmdPushConfig_def tv_table_decode_spec [OF assms(3)] Let_def andthen_simps
      cfg_def [symmetric] d1_def [symmetric] d2(1) using d'(1) .
  have mem: "\<forall>(a, v) \<in> set (setting_cells d1). eeprom_mem (ee d') (unat a) = v"
    unfolding cells(1) [symmetric] d'(6)
    by (simp add: setting_cells_def saved_mem_low setting_mem_def ee_addresses)
  have out: "usb (midi d') = usb (fold midi_send (sysex_packets True (config_payload d1)) (midi d))"
    using d'(7) cells(2) d2(5) d1(2) by (simp add: usb_fold_midi_send)
  have bank: "g_bank_selected (midi d') = (if G_EE_SIDE_BANK (ee d) \<noteq> 0 \<and> cfg ! 23 = 0 then 0 else g_bank_selected (midi d))"
    using d'(5) d2(8) d1(4,5) by auto
  show ?thesis using run d'(2-4) cells(1) d2(4) d1(3) mem out bank by auto
qed

text \<open>A configuration command over the wire: the packets of the message run its handler once.\<close>

definition config_message :: "u8 \<Rightarrow> u8 list \<Rightarrow> MIDI_EventPacket_t list" where
  "config_message cmd body =
     sysex_packets True (0xF0 # MIDI_MFR_ID_0 # MIDI_MFR_ID_1 # MIDI_MFR_ID_2 # cmd # body @ [0xF7])"

definition awaits_command :: "sysex_globals \<Rightarrow> bool" where
  "awaits_command g \<longleftrightarrow> sysex_wf g \<and> parser_of g = Idle \<and> sysExCommandMap g = config_commands"

lemma config_message_run:
  assumes "awaits_command g" "length body < 62" "k < 4" "cmd = of_nat (k + 1)" "config_commands ! k = Some f"
    and run: "\<And>buf. length buf = 63 \<Longrightarrow> take (length body + 1) buf = body @ [0xF7] \<Longrightarrow>
      ok P (f (of_nat (length body + 1)) buf d)"
  shows "\<exists>g' d'. sysex_feed (config_message cmd body) (g, d) = Inr (g', d') \<and> awaits_command g' \<and> P d'"
proof -
  have "k = 0 \<or> k = 1 \<or> k = 2 \<or> k = 3" using assms(3) by linarith
  then have cmd: "0 < cmd" "cmd \<le> MAX_COMMAND" "unat (cmd - 1) = k"
    unfolding assms(4) MAX_COMMAND_def by (elim disjE; simp)+
  have g: "sysex_wf g" "parser_of g = Idle" "sysExCommandMap g ! unat (cmd - 1) = Some f"
    using assms(1,5) cmd(3) by (simp_all add: awaits_command_def)
  have len: "length body + 2 < 64" using assms(2) by simp
  obtain buf g' where b: "sysex_feed (config_message cmd body) (g, d) = andthen (f (of_nat (length body + 1)) buf d) (\<lambda>d. Inr (g', d))"
      "length buf = 63" "take (length body + 1) buf = body @ [0xF7]" "sysex_wf g'" "parser_of g' = Idle"
      "sysExCommandMap g' = sysExCommandMap g"
    using command_reaches_handler [OF g(1,2) len cmd(1,2) g(3), of d] unfolding config_message_def by auto
  with run [OF b(2,3)] assms(1) show ?thesis by (auto simp: ok_def awaits_command_def)
qed

text \<open>Pushing back what was pulled.\<close>

definition palette_bank :: "u8 list \<Rightarrow> bool" where
  "palette_bank arr \<longleftrightarrow> length arr = 384 \<and> list_all (\<lambda>k. list_ex (\<lambda>ci. triple_at arr (3 * k) = palette ci) [0..<20]) [0..<128]"

lemma palette_bank_pull_push:
  assumes "palette_bank arr" "k < 128"
  shows "adjust_rgb (pull_push (triple_at arr (3 * k))) = triple_at arr (3 * k)"
proof -
  obtain ci where "ci < 20" "triple_at arr (3 * k) = palette ci"
    using assms unfolding palette_bank_def list_all_iff list_ex_iff set_upt by fastforce
  then show ?thesis using pull_push_all by (simp add: list_all_iff)
qed

lemma set_block_nth:
  assumes "k + length bs \<le> length arr" "j < length arr"
  shows "set_block k bs arr ! j = (if k \<le> j \<and> j < k + length bs then bs ! (j - k) else arr ! j)"
  using assms by (auto simp: set_block_def nth_append)

text \<open>The pushed block at position \<open>p\<close> of 24 bytes, as the array sees it.\<close>

lemma block_pull_push:
  assumes "palette_bank arr" "p < 16"
  shows "adjust_triples 8 (24 * (p mod 8)) (p div 8)
    (set_block (24 * p) (map push_color (map pull_color (take 24 (drop (24 * p) arr)))) arr) = arr" (is "?new = arr")
proof -
  let ?bs = "map push_color (map pull_color (take 24 (drop (24 * p) arr)))"
  let ?blk = "set_block (24 * p) ?bs arr"
  have len: "length arr = 384" using assms(1) by (simp add: palette_bank_def)
  have fits: "24 * p + 24 \<le> 384" using assms(2) by simp
  have bs: "length ?bs = 24" using fits len by simp
  have blk: "?blk ! j = (if 24 * p \<le> j \<and> j < 24 * p + 24 then ?bs ! (j - 24 * p) else arr ! j)" if "j < 384" for j
    using set_block_nth [of "24 * p" ?bs arr j] bs fits len that by simp
  have inside: "?blk ! (24 * p + i) = push_color (pull_color (arr ! (24 * p + i)))" if "i < 24" for i
  proof -
    have "24 * p + i < 384" "24 * p + i - 24 * p = i" using that fits by linarith+
    moreover have "?bs ! i = push_color (pull_color (arr ! (24 * p + i)))" using that fits len by simp
    ultimately show ?thesis using blk [of "24 * p + i"] that by (simp only: le_add1 add_less_cancel_left simp_thms if_True)
  qed
  have base: "bank_index (p div 8) (24 * (p mod 8) + i) = 24 * p + i" for i
    unfolding bank_index_def BANK_BYTES_def using div_mult_mod_eq [of p 8] by linarith
  have lens: "length ?blk = 384" using bs fits len by simp
  have "?new ! j = arr ! j" if j: "j < 384" for j
  proof (cases "24 * p \<le> j \<and> j < 24 * p + 24")
    case False
    then have "?new ! j = ?blk ! j" using base [of 0] base [of 24] by (intro adjust_triples_outside) auto
    then show ?thesis using blk [OF j] False by presburger
  next
    case True
    define k where "k = (j - 24 * p) div 3"
    have k: "k < 8" "24 * p + 3 * k \<le> j" "j < 24 * p + 3 * k + 3" using True unfolding k_def by presburger+
    let ?i = "24 * p + 3 * k"
    have fits': "bank_index (p div 8) (24 * (p mod 8) + 3 * 8) \<le> length ?blk" using base fits lens by simp
    have "triple_at ?new ?i = adjust_rgb (triple_at ?blk ?i)"
      using adjust_triples_inside [OF fits' k(1)] unfolding base .
    also have "triple_at ?blk ?i = pull_push (triple_at arr ?i)"
      using inside [of "3 * k"] inside [of "3 * k + 1"] inside [of "3 * k + 2"] k(1)
      unfolding triple_at_def pull_push_def prod.case add.assoc by simp
    also have "adjust_rgb (pull_push (triple_at arr ?i)) = triple_at arr ?i"
      using palette_bank_pull_push [OF assms(1), of "8 * p + k"] k(1) assms(2) by (simp add: add_mult_distrib2)
    finally have "triple_at ?new ?i = triple_at arr ?i" .
    moreover have "j = ?i \<or> j = ?i + 1 \<or> j = ?i + 2" using k by linarith
    ultimately show ?thesis unfolding triple_at_def by auto
  qed
  then show ?thesis using lens len by (intro nth_equalityI) simp_all
qed

lemma pushed_pulled:
  assumes "palette_bank arr" "0 < part" "part \<le> 16"
  shows "pushed part (pull_block (unat part) arr) arr = arr"
proof -
  define p where "p = unat part - 1"
  have part: "unat (part - 1) = p" using assms(2) unat_minus_one [of part] by (simp add: p_def word_gt_0)
  have p: "p < 16" using assms(2,3) unat_gt_0 [of part] by (auto simp: p_def word_le_nat_alt word_gt_0)
  have "unat (drop_bit 3 (part - 1)) = p div 8"
    unfolding unat_drop_bit_eq part by (simp add: drop_bit_eq_div)
  moreover have "length (pull_block (unat part) arr) = 24"
    using p assms(1) by (simp add: pull_block_def palette_bank_def p_def)
  ultimately show ?thesis
    using block_pull_push [OF assms(1) p] unfolding pushed_def p_def [symmetric]
    by (simp add: pull_block_def p_def)
qed

lemma pulled_blocks:
  assumes "length source = 384"
  shows "concat (map (\<lambda>part. pull_block part source) [1..<17]) = map pull_color source"
proof -
  have "concat (map (\<lambda>part. pull_block part source) [1..<n + 1]) = map pull_color (take (24 * n) source)" for n
  proof (induction n)
    case (Suc n)
    have "take (24 * Suc n) source = take (24 * n) source @ take 24 (drop (24 * n) source)"
      unfolding mult_Suc_right using take_add [of "24 * n" 24 source] by (simp add: add.commute)
    moreover have "[1..<Suc n + 1] = [1..<n + 1] @ [Suc n]" by simp
    ultimately show ?case using Suc by (simp add: pull_block_def del: upt_Suc)
  qed simp
  from this [of 16] show ?thesis using assms by simp
qed

lemma pulled_out:
  "midi_ready m \<Longrightarrow> midi_ready (fold (\<lambda>part m. flushed (fold midi_send (pull_packets tag source part) m)) parts m)
    \<and> midi_out (fold (\<lambda>part m. flushed (fold midi_send (pull_packets tag source part) m)) parts m)
      = midi_out m @ concat (map (\<lambda>part. concat (map packet_bytes (pull_packets tag source part))) parts)"
proof (induction parts rule: rev_induct)
  case (snoc part parts)
  have "midi_ready (flushed x) \<and> midi_out (flushed x) = midi_out x" if "midi_ready x" for x
    using that by (simp add: midi_ready_def midi_out_def flushed_def flush_stream flush_ready flush_wf)
  then show ?case using snoc fold_midi_send_out by simp
qed simp

text \<open>The device after a push of the settings \<open>d1\<close>, whose reply went through the USB state.\<close>

definition pushed_config :: "dev \<Rightarrow> tvtable_t \<Rightarrow> dev \<Rightarrow> bool" where
  "pushed_config d cfg d' \<longleftrightarrow> (let d1 = apply_config cfg d in
      dev_wf d' \<and> setting_cells d' = setting_cells d1 \<and> colors d' = colors d
      \<and> (\<forall>(a, v) \<in> set (setting_cells d1). eeprom_mem (ee d') (unat a) = v)
      \<and> g_bank_selected (midi d') = (if G_EE_SIDE_BANK (ee d) \<noteq> 0 \<and> cfg ! 23 = 0 then 0 else g_bank_selected (midi d))
      \<and> usb (midi d') = usb (fold midi_send (sysex_packets True (config_payload d1)) (midi d)))"

lemma config_push_wire:
  assumes "dev_wf d" "eeprom_mem (ee d) 0 = EEPROM_LAYOUT" "awaits_command g" "length body < 62"
  shows "\<exists>g' d'. sysex_feed (config_message SYSEX_COMMAND_PUSH_CONF body) (g, d) = Inr (g', d') \<and> awaits_command g'
    \<and> pushed_config d (decoded (body @ [0xF7])) d'"
proof (rule config_message_run [OF assms(3,4), of 0])
  have n: "unat (of_nat (length body + 1) :: u8) = length body + 1"
    by (subst unat_of_nat) (use assms(4) in simp)
  fix buf :: "u8 list"
  assume "length buf = 63" "take (length body + 1) buf = body @ [0xF7]"
  then show "ok (pushed_config d (decoded (body @ [0xF7]))) (sysExCmdPushConfig (of_nat (length body + 1)) buf d)"
    using push_config_run [OF assms(1,2), of "of_nat (length body + 1)" buf, unfolded n] assms(4)
    unfolding pushed_config_def Let_def by simp
qed (simp_all add: SYSEX_COMMAND_PUSH_CONF_def config_commands_def)

lemma fold_midi_send_fields:
  "G_EE_MIDI_CHANNEL (fold midi_send ps m) = G_EE_MIDI_CHANNEL m" "G_EE_MIDI_VELOCITY (fold midi_send ps m) = G_EE_MIDI_VELOCITY m"
  "g_bank_selected (fold midi_send ps m) = g_bank_selected m"
  by (induction ps arbitrary: m) (simp_all add: midi_send_def)

lemma concat_packets: "concat (map g (concat (map f xs))) = concat (map (\<lambda>x. concat (map g (f x))) xs)"
  by (induction xs) simp_all

section \<open>Properties\<close>


definition config_example :: sysex_globals where
  "config_example = sysex_init\<lparr>sysExCommandMap := config_commands\<rparr>"

lemma awaits_config_example: "awaits_command config_example"
  by (simp add: awaits_command_def config_example_def sysex_init_def sysex_wf_def MIDI_MAX_SYSEX_def MAX_COMMAND_def
      parser_of_def config_commands_def)

lemma dev_example_ready: "eeprom_mem (ee dev_example) 0 = EEPROM_LAYOUT" "midi_ready (midi dev_example)"
  by (simp add: dev_example_def dev_init_def ee_init_def EEPROM_LAYOUT_def, code_simp)


text \<open>C19: the settings survive a round trip through the host.  A pull request is answered with the
  tag-value pairs of all settings, and pushing the same pairs back changes no setting, no key
  colour and not the bank, provided the motion mask has none of the two bits that the protocol
  does not carry.\<close>

theorem config_pull_push_identity:
  assumes "dev_wf d" "eeprom_mem (ee d) 0 = EEPROM_LAYOUT" "awaits_command g" "midi_ready (midi d)"
    and "G_EE_TILT_MASK (ee d) AND 0x0C = 0"
  shows "\<exists>g1 d1 g2 d2. sysex_feed (config_message SYSEX_COMMAND_PULL_CONF [0]) (g, d) = Inr (g1, d1)
      \<and> midi_out (midi d1) = midi_out (midi d) @ concat (map packet_bytes
          (config_message SYSEX_COMMAND_PULL_CONF (1 # config_pairs d)))
      \<and> sysex_feed (config_message SYSEX_COMMAND_PUSH_CONF (config_pairs d)) (g1, d1) = Inr (g2, d2)
      \<and> setting_cells d2 = setting_cells d \<and> colors d2 = colors d
      \<and> g_bank_selected (midi d2) = g_bank_selected (midi d)"
proof -
  let ?m = "fold midi_send (sysex_packets True (config_payload d)) (midi d)"
  let ?d1 = "d\<lparr>midi := ?m\<rparr>"
  have send: "send_config_data d = Inr ?d1"
    using midi_stream_sysex_packets [of 45 "config_payload d" "midi d"]
    by (simp add: send_config_data_def send_sysex_def)
  have pull: "\<exists>g1 d1. sysex_feed (config_message SYSEX_COMMAND_PULL_CONF [0]) (g, d) = Inr (g1, d1) \<and> awaits_command g1 \<and> d1 = ?d1"
  proof (rule config_message_run [OF assms(3), of _ 1])
    fix buf :: "u8 list"
    assume "length buf = 63" "take (length [0 :: u8] + 1) buf = [0] @ [0xF7]"
    then have "load buf 0 = Inr 0" by (cases buf) simp_all
    then show "ok (\<lambda>d1. d1 = ?d1) (sysExCmdPullConfig (of_nat (length [0 :: u8] + 1)) buf d)"
      using send by (simp add: sysExCmdPullConfig_def)
  qed (simp_all add: SYSEX_COMMAND_PULL_CONF_def config_commands_def)
  then obtain g1 where g1: "sysex_feed (config_message SYSEX_COMMAND_PULL_CONF [0]) (g, d) = Inr (g1, ?d1)" "awaits_command g1"
    by auto
  have wf1: "dev_wf ?d1" using dev_ok_wf [OF dev_ok_sends [OF assms(1)]] .
  have same: "config_pairs ?d1 = config_pairs d" "setting_cells ?d1 = setting_cells d"
    by (simp_all add: config_pairs_def setting_cells_def fold_midi_send_fields)
  have own: "apply_config (decoded (config_pairs d @ [0xF7])) ?d1 = ?d1"
    using apply_own_config [of ?d1 "0xF7"] assms(5) same(1) by simp
  have side: "decoded (config_pairs d @ [0xF7]) ! 23 = G_EE_SIDE_BANK (ee d)" by (simp add: decoded_pairs)
  have "length (config_pairs d) < 62" by (simp add: config_pairs_def)
  then obtain g2 d2 where d2: "sysex_feed (config_message SYSEX_COMMAND_PUSH_CONF (config_pairs d)) (g1, ?d1) = Inr (g2, d2)"
      "pushed_config ?d1 (decoded (config_pairs d @ [0xF7])) d2"
    using config_push_wire [OF wf1 _ g1(2), of "config_pairs d"] assms(2) by auto
  have "sysex_packets True (config_payload d) = config_message SYSEX_COMMAND_PULL_CONF (1 # config_pairs d)"
    by (simp add: config_payload_def config_message_def manufacturer_hi_def manufacturer_lo_def MANUFACTURER_ID_def
        MIDI_MFR_ID_0_def MIDI_MFR_ID_1_def MIDI_MFR_ID_2_def)
  then have out: "midi_out (midi ?d1) = midi_out (midi d) @ concat (map packet_bytes (config_message SYSEX_COMMAND_PULL_CONF (1 # config_pairs d)))"
    using fold_midi_send_out [OF assms(4), of "sysex_packets True (config_payload d)"] by simp
  have cells: "setting_cells d2 = setting_cells d" "colors d2 = colors d"
    using d2(2) unfolding pushed_config_def Let_def own same(2) by simp_all
  have bank: "g_bank_selected (midi d2) = g_bank_selected (midi d)"
    using d2(2) unfolding pushed_config_def Let_def side by (simp add: fold_midi_send_fields split: if_splits)
  show ?thesis
    by (intro exI [of _ g1] exI [of _ ?d1] exI [of _ g2] exI [of _ d2] conjI g1(1) d2(1) out cells bank)
qed

theorem config_pull_push_identity_witness:
  "\<exists>g1 d1 g2 d2. sysex_feed (config_message SYSEX_COMMAND_PULL_CONF [0]) (config_example, dev_example) = Inr (g1, d1)
      \<and> sysex_feed (config_message SYSEX_COMMAND_PUSH_CONF (config_pairs dev_example)) (g1, d1) = Inr (g2, d2)
      \<and> setting_cells d2 = setting_cells dev_example"
proof -
  have "G_EE_TILT_MASK (ee dev_example) AND 0x0C = 0" by code_simp
  then show ?thesis
    using config_pull_push_identity [OF dev_wf_dev_example dev_example_ready(1) awaits_config_example dev_example_ready(2)]
    by blast
qed



text \<open>C20: a pulled block can be pushed back.  If every key colour of a bank array is one of the
  twenty palette colours, a push message with one of the sixteen blocks of a pull leaves the
  device exactly as it was.\<close>

theorem bulk_push_pulled:
  assumes "dev_wf d" "awaits_command g" "tag = 1 \<or> tag = 2" "0 < part" "part \<le> 16"
  defines "source \<equiv> (if tag = 1 then default_bank_inactive (colors d) else default_bank_active (colors d))"
  assumes "palette_bank source"
  shows "\<exists>g'. sysex_feed (config_message SYSEX_COMMAND_BULK_XFER ([0, tag, part, 16, 24] @ pull_block (unat part) source)) (g, d)
      = Inr (g', d) \<and> awaits_command g'"
proof -
  note c = dev_wf_colors_wf [OF assms(1)]
  let ?body = "[0, tag, part, 16, 24] @ pull_block (unat part) source"
  have blk: "length (pull_block (unat part) source) = 24"
    using assms(4,5,7) unat_gt_0 [of part] by (auto simp: pull_block_def palette_bank_def word_le_nat_alt word_gt_0)
  have len: "length ?body = 29" by (simp add: blk)
  have "\<exists>g' d'. sysex_feed (config_message SYSEX_COMMAND_BULK_XFER ?body) (g, d) = Inr (g', d') \<and> awaits_command g' \<and> d' = d"
  proof (rule config_message_run [OF assms(2), of _ 3])
    fix buf :: "u8 list"
    assume buf: "length buf = 63" "take (length ?body + 1) buf = ?body @ [0xF7]"
    have nth: "buf ! i = (?body @ [0xF7]) ! i" if "i < 30" for i
    proof -
      have "take 30 buf = ?body @ [0xF7]" using buf(2) len by simp
      then show ?thesis using nth_take [OF that, of buf] by presburger
    qed
    have b: "buf ! 0 = 0" "buf ! 1 = tag" "buf ! 2 = part" "buf ! 4 = 24" using nth by simp_all
    have blk': "take 24 (drop 5 buf) = pull_block (unat part) source"
    proof -
      have "take 24 (drop 5 buf) = take 24 (drop 5 (take 30 buf))" by (simp add: drop_take)
      then show ?thesis using buf(2) len blk by simp
    qed
    have "bulk_push 30 tag buf d = Inr d"
      using bulk_push_spec [OF c, of 30 buf tag] assms(3,4,5) b buf(1) blk' pushed_pulled [OF assms(7,4,5)]
      by (auto simp: source_def Let_def)
    then show "ok (\<lambda>d'. d' = d) (sysExCmdBulkXfer (of_nat (length ?body + 1)) buf d)"
      unfolding len using b(1,2) buf(1) by (simp add: sysExCmdBulkXfer_def)
  qed (simp_all add: SYSEX_COMMAND_BULK_XFER_def config_commands_def blk)
  then show ?thesis by auto
qed

theorem bulk_push_pulled_witness:
  "\<exists>g'. sysex_feed (config_message SYSEX_COMMAND_BULK_XFER ([0, 1, 16, 16, 24]
      @ pull_block 16 (default_bank_inactive (colors dev_example)))) (config_example, dev_example) = Inr (g', dev_example)"
proof -
  have "palette_bank (default_bank_inactive (colors dev_example))" by code_simp
  then show ?thesis using bulk_push_pulled [OF dev_wf_dev_example awaits_config_example, of 1 16] by auto
qed

text \<open>The size of a push is checked against the message but not against the 24 bytes of a part.
  A part 16 with 30 bytes runs past the end of the colour array.\<close>

theorem bulk_push_overrun:
  "sysExCmdBulkXfer 36 ([0, 1, 16, 16, 30] @ replicate 58 0) dev_example = Inl Out_Of_Bounds"
proof -
  have "(case sysExCmdBulkXfer 36 ([0, 1, 16, 16, 30] @ replicate 58 0) dev_example of Inl e \<Rightarrow> e = Out_Of_Bounds | Inr _ \<Rightarrow> False)"
    by code_simp
  then show ?thesis by (simp split: sum.splits)
qed

end
