(* ===== verification/Mf_Midifighter.thy ===== *)
theory Mf_Midifighter
  imports Mf_Config
begin

unbundle bit_operations_syntax

text \<open>
  The main program, \<^verbatim>\<open>midifighter64.c\<close>: the switch over received USB-MIDI packets and the receive
  loop around it, the service of the 64 keys and of the combos, the task of the main loop, and
  the start-up code.  A state of the firmware is the state of the SysEx parser with the device.
  One run of the task sees the transfers that are in the OUT queue when it starts; interrupts,
  the host and changes of the USB state come between two runs.  The event buffer of the receive
  loop is not initialised; its first contents are a parameter, as is the brightness curve of the
  pulse animation, which the source computes with the floating-point sine.
\<close>

type_synonym firmware = "sysex_globals \<times> dev"

section \<open>Received packets\<close>

definition USB_RX_FAIL_LIMIT :: nat where "USB_RX_FAIL_LIMIT = 120"
definition USB_RX_PACKET_LIMIT :: nat where "USB_RX_PACKET_LIMIT = 512"

definition realtime_message :: "MIDI_EventPacket_t \<Rightarrow> midi_globals \<Rightarrow> midi_globals" where
  "realtime_message input_event m =
     (if Data1 input_event = 0xF8 then midi_clock (midi_clock_enable True m)
      else if Data1 input_event = 0xFA then midi_clock_enable True m
      else if Data1 input_event = 0xFC then midi_clock_enable False m
      else m)"

text \<open>The channels the device listens to: its own for the first bank, the one below for the
  second bank and the one above for animations.\<close>

definition second_channel :: "midi_globals \<Rightarrow> u8" where
  "second_channel m = (G_EE_MIDI_CHANNEL m - 1) AND 0x0F"

definition animation_channel :: "midi_globals \<Rightarrow> u8" where
  "animation_channel m = (G_EE_MIDI_CHANNEL m + 1) AND 0x0F"

definition note_on_message :: "MIDI_EventPacket_t \<Rightarrow> midi_globals \<Rightarrow> midi_globals run" where
  "note_on_message input_event m =
     (let channel = Data1 input_event AND 0x0F;
          note = Data2 input_event;
          velocity = Data3 input_event;
          key_id = note - MIDI_BASENOTE;
          set_key = (\<lambda>key_id :: u8.
            andthen (store (g_midi_note_state m) (note_state_index MIDI_CHANNEL_INDEX_CONTROL_BANKS (unat key_id)) velocity) (\<lambda>ns.
            andthen (store (g_midi_note_off_counter m) (unat key_id) 0) (\<lambda>cs.
            Inr (m\<lparr>g_midi_note_state := ns, g_midi_note_off_counter := cs\<rparr>))))
      in if channel = G_EE_MIDI_CHANNEL m
         then (if unat key_id < NUM_BUTTONS then set_key key_id else Inr m)
         else if channel = second_channel m
         then (if unat key_id < NUM_BUTTONS then set_key (key_id + of_nat NUM_BUTTONS) else Inr m)
         else if channel = animation_channel m
         then andthen (store (g_midi_note_state m) (note_state_index MIDI_CHANNEL_INDEX_ANIMATIONS (unat note)) velocity) (\<lambda>ns.
              Inr (m\<lparr>g_midi_note_state := ns\<rparr>))
         else Inr m)"

definition note_off_message :: "u16 \<Rightarrow> MIDI_EventPacket_t \<Rightarrow> midi_globals \<Rightarrow> midi_globals run" where
  "note_off_message now input_event m =
     (let channel = Data1 input_event AND 0x0F;
          note = Data2 input_event;
          key_id = note - MIDI_BASENOTE;
          time_8bit = (ucast ((now AND 0x7F) OR 0x80) :: u8);
          mark_key = (\<lambda>key_id :: u8.
            andthen (store (g_midi_note_off_counter m) (unat key_id) time_8bit) (\<lambda>cs.
            Inr (m\<lparr>g_midi_note_off_counter := cs\<rparr>)))
      in if channel = G_EE_MIDI_CHANNEL m
         then (if unat key_id < NUM_BUTTONS then mark_key key_id else Inr m)
         else if channel = second_channel m
         then (if unat key_id < NUM_BUTTONS then mark_key (key_id + of_nat NUM_BUTTONS) else Inr m)
         else if channel = animation_channel m
         then andthen (store (g_midi_note_state m) (note_state_index MIDI_CHANNEL_INDEX_ANIMATIONS (unat note)) 0) (\<lambda>ns.
              Inr (m\<lparr>g_midi_note_state := ns\<rparr>))
         else Inr m)"

definition cc_message :: "MIDI_EventPacket_t \<Rightarrow> dev \<Rightarrow> dev run" where
  "cc_message input_event d =
     (if Data1 input_event AND 0x0F = G_EE_MIDI_CHANNEL (midi d) \<and> Data2 input_event = MF64_BANK_CC
      then change_bank (if Data3 input_event > 0 then 1 else 0) d
      else Inr d)"

definition with_midi :: "(midi_globals \<Rightarrow> midi_globals run) \<Rightarrow> dev \<Rightarrow> dev run" where
  "with_midi f d = andthen (f (midi d)) (\<lambda>m. Inr (d\<lparr>midi := m\<rparr>))"

definition with_dev :: "(dev \<Rightarrow> dev run) \<Rightarrow> firmware \<Rightarrow> firmware run" where
  "with_dev f s = (case s of (g, d) \<Rightarrow> andthen (f d) (\<lambda>d. Inr (g, d)))"

text \<open>The switch over the kind of packet.\<close>

definition usb_midi_message :: "MIDI_EventPacket_t \<Rightarrow> firmware \<Rightarrow> firmware run" where
  "usb_midi_message input_event s =
     (let command = Event input_event AND 0x0F
      in if command = 0xF then with_dev (with_midi (\<lambda>m. Inr (realtime_message input_event m))) s
         else if command = 0x9 then with_dev (with_midi (note_on_message input_event)) s
         else if command = 0x8
         then with_dev (\<lambda>d. with_midi (note_off_message (system_time_ms (key_g d)) input_event) d) s
         else if command = 0xB then with_dev (cc_message input_event) s
         else sysex_packet command input_event s)"

text \<open>
  The version of the switch kept in a function of its own, which the active receive loop does not
  call.  The case of control changes has no \<^verbatim>\<open>break\<close> and runs on into the real time messages.
\<close>

definition InterpretUsbMidiMessage :: "MIDI_EventPacket_t \<Rightarrow> firmware \<Rightarrow> (bool \<times> firmware) run" where
  "InterpretUsbMidiMessage input_event s =
     (let command = Event input_event AND 0x0F
      in if command = 0 then Inr (False, s)
         else andthen
           (if command = 0xB
            then andthen (with_dev (cc_message input_event) s)
                   (with_dev (with_midi (\<lambda>m. Inr (realtime_message input_event m))))
            else if command = 0xF then with_dev (with_midi (\<lambda>m. Inr (realtime_message input_event m))) s
            else if command = 0x9 then with_dev (with_midi (note_on_message input_event)) s
            else if command = 0x8
            then with_dev (\<lambda>d. with_midi (note_off_message (system_time_ms (key_g d)) input_event) d) s
            else sysex_packet command input_event s)
           (\<lambda>s. Inr (True, s)))"

section \<open>The receive loop\<close>

text \<open>Both counters stay below their limits, so their width plays no role.\<close>

function receive_loop :: "nat \<Rightarrow> nat \<Rightarrow> MIDI_EventPacket_t \<Rightarrow> firmware \<Rightarrow> firmware run" where
  "receive_loop usb_rx_packets usb_rx_fail_count input_event s =
     (if usb_rx_packets \<ge> USB_RX_PACKET_LIMIT then Inr s
      else (case s of (g, d) \<Rightarrow>
        case MIDI_Device_ReceiveEventPacket input_event (usb (midi d)) of (received, input_event, u) \<Rightarrow>
          (let s = (g, d\<lparr>midi := (midi d)\<lparr>usb := u\<rparr>\<rparr>)
           in if \<not> received
              then (if usb_rx_fail_count + 1 \<ge> USB_RX_FAIL_LIMIT then Inr s
                    else receive_loop usb_rx_packets (usb_rx_fail_count + 1) input_event s)
              else andthen (usb_midi_message input_event s) (receive_loop (usb_rx_packets + 1) 0 input_event))))"
  by pat_completeness auto
termination
  by (relation "measures [\<lambda>(packets, _). USB_RX_PACKET_LIMIT - packets, \<lambda>(_, fails, _). USB_RX_FAIL_LIMIT - fails]") auto

declare receive_loop.simps [simp del]

definition Midifighter_GetIncomingUsbMidiMessages :: "MIDI_EventPacket_t \<Rightarrow> firmware \<Rightarrow> firmware run" where
  "Midifighter_GetIncomingUsbMidiMessages stale s = receive_loop 0 0 stale s"

section \<open>The keys\<close>

definition record_bank :: "nat \<Rightarrow> dev \<Rightarrow> dev" where
  "record_bank i d = d\<lparr>key_g := (key_g d)\<lparr>g_key_bank_last_up :=
     (if g_bank_selected (midi d) \<le> 0 then g_key_bank_last_up (key_g d) AND NOT (key_bit i)
      else g_key_bank_last_up (key_g d) OR key_bit i)\<rparr>\<rparr>"

definition send_notes :: "dev \<Rightarrow> bool" where
  "send_notes d \<longleftrightarrow> G_EE_MIDI_OUTPUT_MODE (ee d) < MIDI_OUTPUT_MODE_CCS_ONLY"

definition send_ccs :: "dev \<Rightarrow> bool" where
  "send_ccs d \<longleftrightarrow> G_EE_MIDI_OUTPUT_MODE (ee d) > MIDI_OUTPUT_MODE_NOTES_ONLY"

definition key_down_event :: "nat \<Rightarrow> dev \<Rightarrow> dev run" where
  "key_down_event i d =
     (let note = midi_64_key_to_note (of_nat i);
          d = (if send_notes d then d\<lparr>midi := midi_stream_note note True (midi d)\<rparr> else d);
          d = (if send_ccs d then d\<lparr>midi := midi_stream_raw_cc (G_EE_MIDI_CHANNEL (midi d)) note 127 (midi d)\<rparr> else d);
          d = record_bank i d
      in andthen (if G_EE_ANIMATIONS (ee d) < GEOMETRIC_ANIMATION_TYPES
                  then start_geometric_animation (of_nat i) (G_EE_ANIMATIONS (ee d)) d else Inr d)
           (key_pressed (of_nat i)))"

definition key_up_event :: "nat \<Rightarrow> dev \<Rightarrow> dev run" where
  "key_up_event i d =
     (let note = midi_64_key_to_note (of_nat i);
          channel = (if g_key_bank_last_up (key_g d) AND key_bit i \<noteq> 0 then second_channel (midi d)
                     else G_EE_MIDI_CHANNEL (midi d));
          d = (if send_notes d then d\<lparr>midi := midi_stream_note_ch channel note False (midi d)\<rparr> else d);
          d = (if send_ccs d then d\<lparr>midi := midi_stream_raw_cc (G_EE_MIDI_CHANNEL (midi d)) note 0 (midi d)\<rparr> else d)
      in key_released (of_nat i) d)"

definition service_key :: "nat \<Rightarrow> dev \<Rightarrow> dev run" where
  "service_key i d =
     andthen (if g_key_down (key_g d) AND key_bit i \<noteq> 0 then key_down_event i d else Inr d) (\<lambda>d.
     if g_key_up (key_g d) AND key_bit i \<noteq> 0 then key_up_event i d else Inr d)"

definition service_keys :: "dev \<Rightarrow> dev run" where
  "service_keys d =
     (let d = d\<lparr>key_g := key_poll (key_g d)\<rparr>;
          d = (if g_key_down (key_g d) \<noteq> 0 then d\<lparr>led := (led d)\<lparr>sleep_minute_counter := 0\<rparr>\<rparr> else d)
      in for_run service_key [0..<64] d)"

section \<open>Combos\<close>

definition combo_note :: "combo_action_t \<Rightarrow> (u8 \<times> bool) option" where
  "combo_note action = (case action of
      COMBO_A_DOWN \<Rightarrow> Some (8, True) | COMBO_A_RELEASE \<Rightarrow> Some (8, False)
    | COMBO_B_DOWN \<Rightarrow> Some (9, True) | COMBO_B_RELEASE \<Rightarrow> Some (9, False)
    | COMBO_C_DOWN \<Rightarrow> Some (10, True) | COMBO_C_RELEASE \<Rightarrow> Some (10, False)
    | COMBO_D_DOWN \<Rightarrow> Some (11, True) | COMBO_D_RELEASE \<Rightarrow> Some (11, False)
    | COMBO_E_DOWN \<Rightarrow> Some (12, True) | COMBO_E_RELEASE \<Rightarrow> Some (12, False)
    | _ \<Rightarrow> None)"

definition service_combos :: "dev \<Rightarrow> dev run" where
  "service_combos d =
     (if G_EE_COMBOS_ENABLE (ee d) = 0 then Inr d
      else andthen (combo_recognize (g_key_down (key_g d)) (g_key_up (key_g d)) (g_key_state (key_g d)) (combo_g d))
        (\<lambda>(action, c).
          let d = d\<lparr>combo_g := c\<rparr>;
              channel = (if g_bank_selected (midi d) \<le> 0 then G_EE_MIDI_CHANNEL (midi d) else second_channel (midi d))
          in Inr (case combo_note action of
                    None \<Rightarrow> d
                  | Some (note, onoff) \<Rightarrow> d\<lparr>midi := midi_stream_note_ch channel note onoff (midi d)\<rparr>)))"

section \<open>The task of the main loop\<close>

definition refresh_display :: "(u8 \<Rightarrow> u8) \<Rightarrow> dev \<Rightarrow> dev run" where
  "refresh_display level d =
     (if system_time_ms (key_g d) - last_led_refresh_time_ms (key_g d) \<ge> LED_REFRESH_LIMIT
      then (let d = d\<lparr>key_g := (key_g d)\<lparr>last_led_refresh_time_ms := system_time_ms (key_g d)\<rparr>\<rparr>
            in andthen (service_bank_select_buttons d) (\<lambda>d.
               andthen (update_note_off_feedback_delay d) (\<lambda>d.
               andthen (default_display_run level d) (\<lambda>d.
               Inr (led_update_pixels d)))))
      else Inr d)"

definition Midifighter_Task :: "MIDI_EventPacket_t \<Rightarrow> (u8 \<Rightarrow> u8) \<Rightarrow> firmware \<Rightarrow> firmware run" where
  "Midifighter_Task stale level s =
     (if USB_DeviceState (usb (midi (snd s))) \<noteq> DEVICE_STATE_Configured then Inr s
      else andthen (Midifighter_GetIncomingUsbMidiMessages stale s) (with_dev (\<lambda>d.
        andthen (service_keys d) (\<lambda>d.
        andthen (service_combos d) (\<lambda>d.
        andthen (refresh_display level (d\<lparr>midi := flushed (midi d)\<rparr>)) (\<lambda>d.
        Inr (d\<lparr>watchdog_flag := True\<rparr>)))))))"

section \<open>USB events and start-up\<close>

definition EVENT_USB_Device_Connect :: "dev \<Rightarrow> dev" where
  "EVENT_USB_Device_Connect d = led_enable d"

definition EVENT_USB_Device_Disconnect :: "dev \<Rightarrow> dev" where
  "EVENT_USB_Device_Disconnect d = d"

text \<open>\<open>configured\<close> is the result of LUFA's \<^verbatim>\<open>MIDI_Device_ConfigureEndpoints\<close>.\<close>

definition EVENT_USB_Device_ConfigurationChanged :: "bool \<Rightarrow> dev \<Rightarrow> dev" where
  "EVENT_USB_Device_ConfigurationChanged configured d = (if \<not> configured then d else led_enable d)"

text \<open>
  The start-up part of \<^verbatim>\<open>main\<close>: \<open>pins\<close> are the key samples the interrupt takes during the delay
  of 20 ms before the keys are read for the first time.
\<close>

definition main_setup :: "(nat \<Rightarrow> bool) list \<Rightarrow> firmware \<Rightarrow> firmware run" where
  "main_setup pins s = (case s of (g, d) \<Rightarrow>
     andthen (eeprom_setup d) (\<lambda>d.
     let d = led_disable (led_setup d);
         d = d\<lparr>key_g := key_setup (key_g d)\<rparr>;
         d = d\<lparr>midi := midi_setup (midi d)\<rparr>
     in andthen (config_setup g) (\<lambda>g.
        let d = d\<lparr>combo_g := combo_setup (combo_g d)\<rparr>;
            d = d\<lparr>key_g := key_poll (fold TIMER0_OVF_vect pins (key_g d))\<rparr>
        in if g_key_state (key_g d) AND 0x01 \<noteq> 0
           then andthen (Inr (led_set_state_dfu (after_display_buffer (led d)) d)) (\<lambda>d. Inl Bootloader)
           else Inr (g, d\<lparr>key_g := (key_g d)\<lparr>interrupts_enabled := True\<rparr>,
                          led := (led d)\<lparr>sleep_minute_counter := G_EE_SLEEP_TIME (ee d)\<rparr>\<rparr>))))"

section \<open>Channel messages from the host\<close>

definition seven_bit :: "MIDI_EventPacket_t \<Rightarrow> bool" where
  "seven_bit ev \<longleftrightarrow> Data2 ev < 0x80 \<and> Data3 ev < 0x80"

text \<open>A message changes the feedback state only.\<close>

definition feedback_ok :: "midi_globals \<Rightarrow> midi_globals \<Rightarrow> bool" where
  "feedback_ok m m' \<longleftrightarrow> midi_wf m' \<and> usb m' = usb m \<and> g_midi_sysex_channel m' = g_midi_sysex_channel m"

lemma u8_plus_64: "unat (k :: u8) < 64 \<Longrightarrow> unat (k + 64) = unat k + 64"
  by (simp add: unat_word_ariths)

lemma note_on_ok:
  assumes "midi_wf m" "seven_bit ev"
  shows "ok (feedback_ok m) (note_on_message ev m)"
proof -
  have pitch: "unat (Data2 ev) < 128" using assms(2) by (simp add: seven_bit_def word_less_nat_alt)
  have "ok (feedback_ok m)
      (andthen (store (g_midi_note_state m) (note_state_index 0 (unat k)) (Data3 ev)) (\<lambda>ns.
       andthen (store (g_midi_note_off_counter m) (unat k) 0) (\<lambda>cs.
       Inr (m\<lparr>g_midi_note_state := ns, g_midi_note_off_counter := cs\<rparr>))))" if "unat k < 128" for k :: u8
    using that assms by (simp add: note_state_index_def midi_wf_def feedback_ok_def seven_bit_def list_all_update)
  then show ?thesis
    using assms pitch u8_plus_64 [of "Data2 ev - MIDI_BASENOTE"]
    by (simp add: note_on_message_def Let_def NUM_BUTTONS_def MIDI_CHANNEL_INDEX_CONTROL_BANKS_def
        MIDI_CHANNEL_INDEX_ANIMATIONS_def note_state_index_def MIDI_MAX_NOTES_def feedback_ok_def midi_wf_def
        seven_bit_def list_all_update)
qed

lemma note_off_ok:
  assumes "midi_wf m" "seven_bit ev"
  shows "ok (feedback_ok m) (note_off_message now ev m)"
proof -
  have pitch: "unat (Data2 ev) < 128" using assms(2) by (simp add: seven_bit_def word_less_nat_alt)
  have "ok (feedback_ok m)
      (andthen (store (g_midi_note_off_counter m) (unat k) t) (\<lambda>cs. Inr (m\<lparr>g_midi_note_off_counter := cs\<rparr>)))"
    if "unat k < 128" for k :: u8 and t
    using that assms by (simp add: midi_wf_def feedback_ok_def)
  then show ?thesis
    using assms pitch u8_plus_64 [of "Data2 ev - MIDI_BASENOTE"]
    by (simp add: note_off_message_def Let_def NUM_BUTTONS_def
        MIDI_CHANNEL_INDEX_ANIMATIONS_def note_state_index_def MIDI_MAX_NOTES_def feedback_ok_def midi_wf_def list_all_update)
qed

lemma realtime_ok: "midi_wf m \<Longrightarrow> feedback_ok m (realtime_message ev m)"
  by (simp add: realtime_message_def midi_clock_def midi_clock_enable_def Let_def feedback_ok_def midi_wf_def)

lemma with_midi_ok:
  assumes "dev_wf d" "ok (feedback_ok (midi d)) (f (midi d))"
  shows "ok (dev_ok d) (with_midi f d)"
  unfolding with_midi_def using assms
  by (intro ok_andthen [OF assms(2)]) (simp add: feedback_ok_def dev_ok_midi)

lemma cc_message_ok: "dev_wf d \<Longrightarrow> ok (dev_ok d) (cc_message ev d)"
  by (simp add: cc_message_def change_bank_dev_ok dev_ok_refl)

section \<open>The key loop\<close>

text \<open>What the task keeps while it serves keys, combos and the display.\<close>

definition task_frame where
  "task_frame d = (combo_g d, g_midi_sysex_channel (midi d), out_queue (usb (midi d)), USB_DeviceState (usb (midi d)))"

definition task_ok :: "dev \<Rightarrow> dev \<Rightarrow> bool" where
  "task_ok d d' \<longleftrightarrow> dev_wf d' \<and> task_frame d' = task_frame d"

lemma task_ok_refl: "dev_wf d \<Longrightarrow> task_ok d d"
  by (simp add: task_ok_def)

lemma task_ok_trans: "task_ok d e \<Longrightarrow> task_ok e f \<Longrightarrow> task_ok d f"
  by (simp add: task_ok_def)

lemma task_ok_wf: "task_ok d d' \<Longrightarrow> dev_wf d'"
  by (simp add: task_ok_def)

lemma dev_ok_task: "dev_ok d d' \<Longrightarrow> task_ok d d'"
  by (auto simp: dev_ok_def task_ok_def device_frame_def task_frame_def)

lemma ok_dev_task: "ok (dev_ok d) r \<Longrightarrow> ok (task_ok d) r"
  by (erule ok_mono) (rule dev_ok_task)

lemma ok_task_trans: "task_ok d e \<Longrightarrow> ok (task_ok e) r \<Longrightarrow> ok (task_ok d) r"
  by (erule ok_mono) (rule task_ok_trans)

lemma ok_task_andthen:
  "ok (task_ok d) r \<Longrightarrow> (\<And>e. dev_wf e \<Longrightarrow> ok (task_ok e) (f e)) \<Longrightarrow> ok (task_ok d) (andthen r f)"
  by (erule ok_andthen) (blast intro: ok_task_trans task_ok_wf)

lemma task_ok_key: "dev_wf d \<Longrightarrow> key_wf k \<Longrightarrow> task_ok d (d\<lparr>key_g := k\<rparr>)"
  by (simp add: task_ok_def task_frame_def dev_wf_def display_wf_def show_wf_def disp_wf_def notes7_def)

lemma task_ok_led: "dev_wf d \<Longrightarrow> length (g_led_counter l) = 4 \<Longrightarrow> task_ok d (d\<lparr>led := l\<rparr>)"
  by (simp add: task_ok_def task_frame_def dev_wf_def display_wf_def show_wf_def disp_wf_def notes7_def)

lemma dev_wf_key_wf: "dev_wf d \<Longrightarrow> key_wf (key_g d)"
  by (simp add: dev_wf_def)

lemma record_bank_ok: "dev_wf d \<Longrightarrow> task_ok d (record_bank i d)"
  unfolding record_bank_def by (rule task_ok_key) (use dev_wf_key_wf [of d] in \<open>simp_all add: key_wf_def\<close>)

lemma task_ok_if: "dev_wf d \<Longrightarrow> task_ok d e \<Longrightarrow> task_ok d (if b then e else d)"
  by (simp add: task_ok_refl)

lemma of_nat_key: "i < 64 \<Longrightarrow> (of_nat i :: u8) < 64"
  by (simp add: word_less_nat_alt unat_of_nat)

lemma key_down_event_ok:
  assumes "dev_wf d" "i < 64"
  shows "ok (task_ok d) (key_down_event i d)"
proof -
  let ?note = "midi_64_key_to_note (of_nat i)"
  define d1 where "d1 = (if send_notes d then d\<lparr>midi := midi_stream_note ?note True (midi d)\<rparr> else d)"
  define d2 where "d2 = (if send_ccs d1 then d1\<lparr>midi := midi_stream_raw_cc (G_EE_MIDI_CHANNEL (midi d1)) ?note 127 (midi d1)\<rparr> else d1)"
  have d1: "task_ok d d1" unfolding d1_def
    by (intro task_ok_if assms(1) dev_ok_task dev_ok_channel_messages)
  have d2: "task_ok d1 d2" unfolding d2_def
    by (intro task_ok_if task_ok_wf [OF d1] dev_ok_task dev_ok_channel_messages)
  have d3: "task_ok d (record_bank i d2)"
    by (rule task_ok_trans [OF task_ok_trans [OF d1 d2] record_bank_ok [OF task_ok_wf [OF d2]]])
  show ?thesis
    unfolding key_down_event_def Let_def d1_def [symmetric] d2_def [symmetric]
    by (intro ok_task_trans [OF d3] ok_task_andthen)
       (simp_all add: ok_dev_task start_animation_dev_ok hold_functions_ok of_nat_key assms(2) task_ok_wf [OF d3] task_ok_refl)
qed

lemma key_up_event_ok:
  assumes "dev_wf d"
  shows "ok (task_ok d) (key_up_event i d)"
proof -
  have pitch: "task_ok d (if send_notes d then d\<lparr>midi := midi_stream_note_ch ch n False (midi d)\<rparr> else d)" for ch n
    by (intro task_ok_if assms dev_ok_task dev_ok_channel_messages)
  have cc: "task_ok e (if send_ccs e then e\<lparr>midi := midi_stream_raw_cc (G_EE_MIDI_CHANNEL (midi e)) n 0 (midi e)\<rparr> else e)"
    if "dev_wf e" for e n
    by (intro task_ok_if that dev_ok_task dev_ok_channel_messages)
  show ?thesis
    unfolding key_up_event_def Let_def
    by (rule ok_task_trans [OF task_ok_trans [OF pitch cc [OF task_ok_wf [OF pitch]]]])
       (rule ok_dev_task [OF hold_functions_ok(2) [OF task_ok_wf [OF cc [OF task_ok_wf [OF pitch]]]]])
qed

lemma service_key_ok:
  assumes "dev_wf d" "i < 64"
  shows "ok (task_ok d) (service_key i d)"
  unfolding service_key_def
  by (intro ok_task_andthen) (simp_all add: key_down_event_ok key_up_event_ok assms task_ok_refl)

lemma service_keys_ok:
  assumes "dev_wf d"
  shows "ok (task_ok d) (service_keys d)"
proof -
  define d1 where "d1 = d\<lparr>key_g := key_poll (key_g d)\<rparr>"
  define d2 where "d2 = (if g_key_down (key_g d1) \<noteq> 0 then d1\<lparr>led := (led d1)\<lparr>sleep_minute_counter := 0\<rparr>\<rparr> else d1)"
  have d1: "task_ok d d1" unfolding d1_def using assms by (intro task_ok_key key_wf_key_poll dev_wf_key_wf)
  have "length (g_led_counter (led d1)) = 4" using task_ok_wf [OF d1] by (simp add: dev_wf_def display_wf_def show_wf_def disp_wf_def)
  then have d2: "task_ok d1 d2" unfolding d2_def using task_ok_wf [OF d1] by (intro task_ok_if task_ok_led) simp_all
  have "ok (task_ok d2) (for_run service_key [0..<64] d2)"
    by (rule ok_for_run) (use task_ok_wf [OF d2] in \<open>auto intro: task_ok_refl ok_task_trans service_key_ok task_ok_wf\<close>)
  then show ?thesis
    unfolding service_keys_def Let_def d1_def [symmetric] d2_def [symmetric]
    by (rule ok_task_trans [OF task_ok_trans [OF d1 d2]])
qed

section \<open>Combos and display refresh\<close>

text \<open>The one state of the recogniser from which it leaves its table.\<close>

definition combo_stuck :: "combo_globals \<Rightarrow> bool" where
  "combo_stuck c \<longleftrightarrow> combo_state c = 36 \<and> \<not> combo_held c"

lemma dev_wf_combo: "dev_wf d \<Longrightarrow> combo_wf c \<Longrightarrow> dev_wf (d\<lparr>combo_g := c\<rparr>)"
  by (simp add: dev_wf_def display_wf_def show_wf_def disp_wf_def notes7_def)

lemma display_ok_task:
  assumes "dev_wf d" "display_ok d d'"
  shows "task_ok d d'"
proof -
  have wf: "display_wf d'" and frame: "key_g d' = key_g d" "combo_g d' = combo_g d"
    "(midi d')\<lparr>g_midi_note_state := []\<rparr> = (midi d)\<lparr>g_midi_note_state := []\<rparr>"
    using assms(2) by (simp_all add: display_ok_def run_frame_def)
  have m: "usb (midi d') = usb (midi d)" "g_midi_sysex_channel (midi d') = g_midi_sysex_channel (midi d)"
    "g_midi_note_off_counter (midi d') = g_midi_note_off_counter (midi d)"
    "g_bank_select_counter (midi d') = g_bank_select_counter (midi d)"
    using frame(3) by (metis midi_globals.select_convs midi_globals.surjective midi_globals.update_convs)+
  from wf show ?thesis
    using assms(1) frame(1,2) m unfolding task_ok_def task_frame_def dev_wf_def midi_wf_def
    by (simp add: display_wf_def show_wf_def disp_wf_def notes7_def)
qed

lemma led_update_pixels_ok: "dev_wf d \<Longrightarrow> task_ok d (led_update_pixels d)"
  by (simp add: task_ok_def task_frame_def dev_wf_def display_wf_def show_wf_def disp_wf_def notes7_def
      led_update_pixels_def Let_def key_wf_def)

lemma refresh_display_ok:
  assumes "dev_wf d"
  shows "ok (task_ok d) (refresh_display level d)"
proof -
  let ?d = "d\<lparr>key_g := (key_g d)\<lparr>last_led_refresh_time_ms := system_time_ms (key_g d)\<rparr>\<rparr>"
  have d1: "task_ok d ?d" using assms dev_wf_key_wf [OF assms] by (intro task_ok_key) (simp_all add: key_wf_def)
  have off: "ok (task_ok e) (update_note_off_feedback_delay e)" if "dev_wf e" for e
    using update_note_off_spec [OF that] by (auto simp: ok_def task_ok_def task_frame_def)
  have disp: "ok (task_ok e) (default_display_run level e)" if "dev_wf e" for e
    using default_display_run_total [OF dev_wf_display_wf [OF that], of level] display_ok_task [OF that] by (auto simp: ok_def)
  have "ok (task_ok ?d) (andthen (service_bank_select_buttons ?d) (\<lambda>d.
      andthen (update_note_off_feedback_delay d) (\<lambda>d.
      andthen (default_display_run level d) (\<lambda>d. Inr (led_update_pixels d)))))"
    by (intro ok_task_andthen ok_dev_task [OF service_bank_select_buttons_ok] task_ok_wf [OF d1] off disp)
       (simp_all add: led_update_pixels_ok)
  then show ?thesis using ok_task_trans [OF d1] task_ok_refl [OF assms] by (simp add: refresh_display_def Let_def)
qed

lemma flushed_ok: "dev_wf d \<Longrightarrow> task_ok d (d\<lparr>midi := flushed (midi d)\<rparr>)"
  by (rule dev_ok_task [OF dev_ok_flushed])

lemma watchdog_ok: "dev_wf d \<Longrightarrow> task_ok d (d\<lparr>watchdog_flag := b\<rparr>)"
  by (simp add: task_ok_def task_frame_def dev_wf_def display_wf_def show_wf_def disp_wf_def notes7_def)

section \<open>The two packet switches\<close>



section \<open>Presses and releases\<close>

lemma record_bank_bit:
  assumes "i < 64" "j < 64"
  shows "bit (g_key_bank_last_up (key_g (record_bank j d))) i =
    (if i = j then g_bank_selected (midi d) \<noteq> 0 else bit (g_key_bank_last_up (key_g d)) i)"
  using assms by (auto simp: record_bank_def bit_and_iff bit_or_iff bit_not_iff bit_key_bit)

text \<open>The note message of key \<open>i\<close> on a channel.\<close>

definition key_note :: "u8 \<Rightarrow> nat \<Rightarrow> bool \<Rightarrow> midi_globals \<Rightarrow> MIDI_EventPacket_t" where
  "key_note channel i onoff m = \<lparr>Event = drop_bit 4 (note_command onoff), Data1 = note_command onoff OR (channel AND 0x0F),
     Data2 = midi_64_key_to_note (of_nat i) AND 0x7F, Data3 = G_EE_MIDI_VELOCITY m AND 0x7F\<rparr>"

lemma stream_note_key:
  "midi_stream_note (midi_64_key_to_note (of_nat i)) onoff m = midi_send (key_note (G_EE_MIDI_CHANNEL m - g_bank_selected m) i onoff m) m"
  "midi_stream_note_ch channel (midi_64_key_to_note (of_nat i)) onoff m = midi_send (key_note channel i onoff m) m"
  by (simp_all add: midi_stream_note_def midi_stream_note_ch_def key_note_def Let_def)

text \<open>With the host listening, what a message sends is followed at most by a control change.\<close>

lemma cc_after_note:
  assumes "midi_ready m"
  shows "\<exists>cs. midi_out (if b then midi_stream_raw_cc ch n v m else m) = midi_out m @ cs"
  using midi_send_out [OF assms] by (auto simp: midi_stream_raw_cc_def Let_def intro: exI [of _ "[]"])

text \<open>What follows the messages of a press leaves the key state and the MIDI stream alone.\<close>

lemma press_tail:
  assumes "dev_wf e" "i < 64"
  shows "ok (\<lambda>d'. key_g d' = key_g e \<and> midi_out (midi d') = midi_out (midi e))
    (andthen (if G_EE_ANIMATIONS (ee e) < GEOMETRIC_ANIMATION_TYPES
       then start_geometric_animation (of_nat i) (G_EE_ANIMATIONS (ee e)) e else Inr e) (key_pressed (of_nat i)))"
proof (rule ok_andthen [where P = "\<lambda>d. dev_wf d \<and> key_g d = key_g e \<and> midi d = midi e"])
  show "ok (\<lambda>d. dev_wf d \<and> key_g d = key_g e \<and> midi d = midi e)
      (if G_EE_ANIMATIONS (ee e) < GEOMETRIC_ANIMATION_TYPES
       then start_geometric_animation (of_nat i) (G_EE_ANIMATIONS (ee e)) e else Inr e)"
    using ok_mono [OF start_animation_dev [OF assms(1) of_nat_key [OF assms(2)]]] assms(1) by (auto simp: bank_frame_def)
next
  fix d assume "dev_wf d \<and> key_g d = key_g e \<and> midi d = midi e"
  then show "ok (\<lambda>d'. key_g d' = key_g e \<and> midi_out (midi d') = midi_out (midi e)) (key_pressed (of_nat i) d)"
    using key_pressed_spec [of d] dev_wf_midi_wf [of d] by (simp add: midi_out_def)
qed

text \<open>The state after the messages of a press.\<close>

definition press_sent :: "nat \<Rightarrow> dev \<Rightarrow> dev" where
  "press_sent i d =
     (let note = midi_64_key_to_note (of_nat i);
          d = (if send_notes d then d\<lparr>midi := midi_stream_note note True (midi d)\<rparr> else d)
      in if send_ccs d then d\<lparr>midi := midi_stream_raw_cc (G_EE_MIDI_CHANNEL (midi d)) note 127 (midi d)\<rparr> else d)"

lemma key_down_event_press_sent:
  "key_down_event i d = (let e = record_bank i (press_sent i d) in
     andthen (if G_EE_ANIMATIONS (ee e) < GEOMETRIC_ANIMATION_TYPES
       then start_geometric_animation (of_nat i) (G_EE_ANIMATIONS (ee e)) e else Inr e) (key_pressed (of_nat i)))"
  by (simp only: key_down_event_def press_sent_def Let_def)

lemma press_sent_wf:
  assumes "dev_wf d"
  shows "dev_wf (press_sent i d)"
proof -
  let ?note = "midi_64_key_to_note (of_nat i)"
  let ?d = "if send_notes d then d\<lparr>midi := midi_stream_note ?note True (midi d)\<rparr> else d"
  have d: "task_ok d ?d" by (intro task_ok_if assms dev_ok_task dev_ok_channel_messages)
  have "task_ok ?d (if send_ccs ?d then ?d\<lparr>midi := midi_stream_raw_cc (G_EE_MIDI_CHANNEL (midi ?d)) ?note 127 (midi ?d)\<rparr> else ?d)"
    by (intro task_ok_if task_ok_wf [OF d] dev_ok_task dev_ok_channel_messages)
  then show ?thesis unfolding press_sent_def Let_def by (rule task_ok_wf)
qed

lemma press_sent_key: "key_g (record_bank i (press_sent i d)) = key_g (record_bank i d)"
  by (simp add: record_bank_def press_sent_def midi_stream_note_def midi_stream_raw_cc_def Let_def midi_send_frame)

lemma key_down_event_key:
  assumes "dev_wf d" "i < 64"
  shows "ok (\<lambda>d'. key_g d' = key_g (record_bank i d)) (key_down_event i d)"
  unfolding key_down_event_press_sent Let_def
  by (rule ok_mono [OF press_tail [OF task_ok_wf [OF record_bank_ok [OF press_sent_wf [OF assms(1)]]] assms(2)]])
     (simp add: press_sent_key)

lemma key_down_event_sends:
  assumes "dev_wf d" "i < 64" "midi_ready (midi d)" "send_notes d"
  shows "ok (\<lambda>d'. \<exists>cs. midi_out (midi d') = midi_out (midi d)
      @ packet_bytes (key_note (G_EE_MIDI_CHANNEL (midi d) - g_bank_selected (midi d)) i True (midi d)) @ cs)
    (key_down_event i d)"
proof -
  let ?e = "record_bank i (press_sent i d)"
  let ?p = "key_note (G_EE_MIDI_CHANNEL (midi d) - g_bank_selected (midi d)) i True (midi d)"
  define m where "m = midi_send ?p (midi d)"
  have m: "midi_ready m" "midi_out m = midi_out (midi d) @ packet_bytes ?p"
    using assms(3) by (simp_all add: m_def midi_send_out)
  have "midi ?e = (if send_ccs (d\<lparr>midi := m\<rparr>)
      then midi_stream_raw_cc (G_EE_MIDI_CHANNEL m) (midi_64_key_to_note (of_nat i)) 127 m else m)"
    using assms(4) by (simp add: record_bank_def press_sent_def stream_note_key m_def)
  then obtain cs where "midi_out (midi ?e) = midi_out m @ cs" using cc_after_note [OF m(1)] by metis
  then have out: "midi_out (midi ?e) = midi_out (midi d) @ packet_bytes ?p @ cs" by (simp add: m(2))
  show ?thesis
    unfolding key_down_event_press_sent Let_def
    by (rule ok_mono [OF press_tail [OF task_ok_wf [OF record_bank_ok [OF press_sent_wf [OF assms(1)]]] assms(2)]])
       (unfold out, blast)
qed

lemma key_up_event_sends:
  assumes "dev_wf d" "midi_ready (midi d)" "send_notes d"
  shows "ok (\<lambda>d'. \<exists>cs. midi_out (midi d') = midi_out (midi d)
     @ packet_bytes (key_note (if g_key_bank_last_up (key_g d) AND key_bit i \<noteq> 0 then second_channel (midi d)
                               else G_EE_MIDI_CHANNEL (midi d)) i False (midi d)) @ cs) (key_up_event i d)"
proof -
  let ?ch = "if g_key_bank_last_up (key_g d) AND key_bit i \<noteq> 0 then second_channel (midi d) else G_EE_MIDI_CHANNEL (midi d)"
  let ?note = "midi_64_key_to_note (of_nat i)"
  define d1 where "d1 = d\<lparr>midi := midi_stream_note_ch ?ch ?note False (midi d)\<rparr>"
  define d2 where "d2 = (if send_ccs d1 then d1\<lparr>midi := midi_stream_raw_cc (G_EE_MIDI_CHANNEL (midi d1)) ?note 0 (midi d1)\<rparr> else d1)"
  have d1: "task_ok d d1" unfolding d1_def by (intro assms(1) dev_ok_task dev_ok_channel_messages)
  have "task_ok d1 d2" unfolding d2_def
    by (intro task_ok_if task_ok_wf [OF d1] dev_ok_task dev_ok_channel_messages)
  then have d2: "dev_wf d2" by (rule task_ok_wf)
  have ready: "midi_ready (midi d1)" and note1: "midi_out (midi d1) = midi_out (midi d) @ packet_bytes (key_note ?ch i False (midi d))"
    using assms(2) by (simp_all add: d1_def stream_note_key midi_send_out)
  have "midi d2 = (if send_ccs d1
      then midi_stream_raw_cc (G_EE_MIDI_CHANNEL (midi d1)) ?note 0 (midi d1) else midi d1)"
    by (simp add: d2_def)
  then obtain cs where "midi_out (midi d2) = midi_out (midi d1) @ cs"
    using cc_after_note [OF ready] by metis
  then have "ok (\<lambda>d'. midi_out (midi d') = midi_out (midi d) @ packet_bytes (key_note ?ch i False (midi d)) @ cs) (key_released (of_nat i) d2)"
    using key_released_spec [OF dev_wf_midi_wf [OF d2]] note1 by (simp add: midi_out_def)
  moreover have "key_up_event i d = key_released (of_nat i) d2"
    unfolding key_up_event_def Let_def d2_def d1_def using assms(3) by simp
  ultimately show ?thesis by (auto elim!: ok_mono)
qed

lemma note_channel:
  assumes "g_bank_selected m < 2"
  shows "(G_EE_MIDI_CHANNEL m - g_bank_selected m) AND 0x0F
    = (if g_bank_selected m \<noteq> 0 then second_channel m else G_EE_MIDI_CHANNEL m) AND 0x0F"
proof -
  have "g_bank_selected m = 0 \<or> g_bank_selected m = 1"
    using assms by (auto simp: word_less_nat_alt word_unat_eq_iff)
  then show ?thesis by (auto simp: second_channel_def and.assoc)
qed

lemma key_note_channel [simp]: "Data1 (key_note ch i onoff m) AND 0x0F = ch AND 0x0F"
  by (simp add: key_note_def note_command_def bit.conj_disj_distrib2 and.assoc)

text \<open>C15: no note hangs after a bank change. With the host listening and notes switched on, the press of
  a key sends a note on and its release a note off of the same note on the same channel, whatever bank is
  selected when it is released; all that is asked of the states in between is that the record of the
  key's bank and the device's channel are unchanged.
\<close>

theorem release_matches_press:
  assumes "dev_wf d" "midi_ready (midi d)" "send_notes d" "i < 64" "key_down_event i d = Inr d1"
    and "bit (g_key_bank_last_up (key_g d2)) i = bit (g_key_bank_last_up (key_g d1)) i"
    and "G_EE_MIDI_CHANNEL (midi d2) = G_EE_MIDI_CHANNEL (midi d)"
    and "dev_wf d2" "midi_ready (midi d2)" "send_notes d2" "key_up_event i d2 = Inr d3"
  shows "\<exists>p q cs cs'. midi_out (midi d1) = midi_out (midi d) @ packet_bytes p @ cs
     \<and> midi_out (midi d3) = midi_out (midi d2) @ packet_bytes q @ cs'
     \<and> Event p = 0x9 \<and> Event q = 0x8 \<and> Data1 q AND 0x0F = Data1 p AND 0x0F \<and> Data2 q = Data2 p"
proof -
  let ?c2 = "if g_key_bank_last_up (key_g d2) AND key_bit i \<noteq> 0 then second_channel (midi d2) else G_EE_MIDI_CHANNEL (midi d2)"
  let ?p = "key_note (G_EE_MIDI_CHANNEL (midi d) - g_bank_selected (midi d)) i True (midi d)"
  let ?q = "key_note ?c2 i False (midi d2)"
  have "key_g d1 = key_g (record_bank i d)" using key_down_event_key [OF assms(1,4)] assms(5) by simp
  then have "bit (g_key_bank_last_up (key_g d2)) i \<longleftrightarrow> g_bank_selected (midi d) \<noteq> 0"
    using assms(4,6) by (simp add: record_bank_bit)
  moreover have "g_bank_selected (midi d) < 2" using dev_wf_midi_wf [OF assms(1)] by (simp add: midi_wf_def)
  ultimately have "Data1 ?q AND 0x0F = Data1 ?p AND 0x0F"
    using assms(4,7) by (simp add: note_channel and_key_bit_nonzero second_channel_def)
  moreover have "Event ?p = 0x9" "Event ?q = 0x8" "Data2 ?q = Data2 ?p"
    by (simp_all add: key_note_def note_command_def)
  moreover have "\<exists>cs. midi_out (midi d1) = midi_out (midi d) @ packet_bytes ?p @ cs"
    using key_down_event_sends [OF assms(1,4,2,3)] assms(5) by simp
  moreover have "\<exists>cs. midi_out (midi d3) = midi_out (midi d2) @ packet_bytes ?q @ cs"
    using key_up_event_sends [OF assms(8-10), of i] assms(11) by simp
  ultimately show ?thesis by blast
qed

theorem release_matches_press_witness:
  "\<exists>d1 d3 p q cs cs'. key_down_event 5 dev_example = Inr d1
     \<and> key_up_event 5 ((record_bank 5 dev_example)\<lparr>midi := (midi dev_example)\<lparr>g_bank_selected := 1\<rparr>\<rparr>) = Inr d3
     \<and> midi_out (midi d1) = midi_out (midi dev_example) @ packet_bytes p @ cs
     \<and> midi_out (midi d3) = midi_out (midi dev_example) @ packet_bytes q @ cs'
     \<and> Data1 q AND 0x0F = Data1 p AND 0x0F"
proof -
  let ?d2 = "(record_bank 5 dev_example)\<lparr>midi := (midi dev_example)\<lparr>g_bank_selected := 1\<rparr>\<rparr>"
  have wf: "dev_wf dev_example" by (rule dev_wf_dev_example)
  have wf2: "dev_wf ?d2"
    by (rule dev_wf_midi [OF task_ok_wf [OF record_bank_ok [OF wf]] midi_wf_bank(1) [OF dev_wf_midi_wf [OF wf]]]) simp
  have ready: "midi_ready (midi dev_example)" by (rule dev_example_ready(2))
  then have ready2: "midi_ready (midi ?d2)" by (simp add: midi_ready_def)
  have on: "send_notes dev_example" by code_simp
  then have on2: "send_notes ?d2" by (simp add: send_notes_def record_bank_def)
  obtain d1 where d1: "key_down_event 5 dev_example = Inr d1"
    using key_down_event_ok [OF wf, of 5] by (auto simp: ok_def)
  obtain d3 where d3: "key_up_event 5 ?d2 = Inr d3"
    using key_up_event_ok [OF wf2, of 5] by (auto simp: ok_def)
  have "key_g d1 = key_g (record_bank 5 dev_example)" using key_down_event_key [OF wf, of 5] d1 by simp
  then have "bit (g_key_bank_last_up (key_g ?d2)) 5 = bit (g_key_bank_last_up (key_g d1)) 5" by simp
  from release_matches_press [OF wf ready on _ d1 this _ wf2 ready2 on2 d3] d1 d3
  show ?thesis by (auto simp: midi_out_def)
qed

text \<open>Serving a key records its bank and touches no other key's record.\<close>

definition keeps_record :: "nat \<Rightarrow> dev \<Rightarrow> dev \<Rightarrow> bool" where
  "keeps_record i d d' \<longleftrightarrow> dev_wf d' \<and> g_key_down (key_g d') = g_key_down (key_g d)
     \<and> (bit (g_key_down (key_g d)) i \<or> bit (g_key_bank_last_up (key_g d')) i = bit (g_key_bank_last_up (key_g d)) i)"

lemma keeps_record_refl: "dev_wf d \<Longrightarrow> keeps_record i d d"
  by (simp add: keeps_record_def)

lemma keeps_record_trans: "keeps_record i d e \<Longrightarrow> keeps_record i e f \<Longrightarrow> keeps_record i d f"
  by (auto simp: keeps_record_def)

lemma ok_record_key:
  assumes "ok (task_ok d) r" "ok (\<lambda>d'. key_g d' = key_g e) r" "keeps_record i d (d\<lparr>key_g := key_g e\<rparr>)"
  shows "ok (keeps_record i d) r"
  using assms by (cases r) (auto simp: keeps_record_def task_ok_def)

lemma key_up_event_key: "dev_wf d \<Longrightarrow> ok (\<lambda>d'. key_g d' = key_g d) (key_up_event i d)"
  by (auto simp: key_up_event_def Let_def key_released_spec midi_wf_send dev_wf_midi_wf midi_stream_note_ch_def
      midi_stream_raw_cc_def)

lemma service_key_record:
  assumes "dev_wf d" "i < 64" "j < 64"
  shows "ok (keeps_record i d) (service_key j d)"
  unfolding service_key_def
proof (rule ok_andthen)
  have "keeps_record i d (record_bank j d)" if "bit (g_key_down (key_g d)) j"
    using that assms record_bank_bit [OF assms(2,3), of d] record_bank_ok [OF assms(1), of j]
    by (auto simp: keeps_record_def task_ok_def) (auto simp: record_bank_def)
  then have "keeps_record i d (d\<lparr>key_g := key_g (record_bank j d)\<rparr>)" if "bit (g_key_down (key_g d)) j"
    using that by (simp add: record_bank_def)
  then show "ok (keeps_record i d) (if g_key_down (key_g d) AND key_bit j \<noteq> 0 then key_down_event j d else Inr d)"
    using ok_record_key [OF key_down_event_ok key_down_event_key] assms keeps_record_refl
    by (auto simp: and_key_bit_nonzero)
next
  fix e assume e: "keeps_record i d e"
  then have wf: "dev_wf e" by (simp add: keeps_record_def)
  have "ok (keeps_record i e) (key_up_event j e)"
    by (rule ok_record_key [OF key_up_event_ok key_up_event_key]) (simp_all add: wf keeps_record_refl)
  then show "ok (keeps_record i d) (if g_key_up (key_g e) AND key_bit j \<noteq> 0 then key_up_event j e else Inr e)"
    using e by (auto elim!: ok_mono intro: keeps_record_trans)
qed

text \<open>The rest of a run of the task leaves the record alone.\<close>

lemma service_keys_record:
  assumes "dev_wf d" "i < 64"
  shows "ok (\<lambda>d'. dev_wf d' \<and> (bit (g_key_down (key_g d')) i
      \<or> bit (g_key_bank_last_up (key_g d')) i = bit (g_key_bank_last_up (key_g d)) i)) (service_keys d)"
proof -
  define d1 where "d1 = d\<lparr>key_g := key_poll (key_g d)\<rparr>"
  define d2 where "d2 = (if g_key_down (key_g d1) \<noteq> 0 then d1\<lparr>led := (led d1)\<lparr>sleep_minute_counter := 0\<rparr>\<rparr> else d1)"
  have wf1: "dev_wf d1" unfolding d1_def
    using assms by (intro task_ok_wf [OF task_ok_key] key_wf_key_poll dev_wf_key_wf)
  then have "length (g_led_counter (led d1)) = 4" by (simp add: dev_wf_def display_wf_def show_wf_def disp_wf_def)
  then have wf2: "dev_wf d2" unfolding d2_def using wf1 by (intro task_ok_wf [OF task_ok_if] task_ok_led) simp_all
  have "ok (keeps_record i d2) (for_run service_key [0..<64] d2)"
  proof (rule ok_for_run)
    show "keeps_record i d2 d2" by (rule keeps_record_refl [OF wf2])
  next
    fix j s assume "j \<in> set [0..<64]" "keeps_record i d2 s"
    then show "ok (keeps_record i d2) (service_key j s)"
      by (intro ok_mono [OF service_key_record keeps_record_trans]) (simp_all add: assms(2) keeps_record_def [of i d2 s])
  qed
  moreover have "g_key_bank_last_up (key_g d2) = g_key_bank_last_up (key_g d)"
    by (simp add: d2_def d1_def key_poll_def key_calc_def key_read_def Let_def)
  ultimately show ?thesis unfolding service_keys_def Let_def d1_def [symmetric] d2_def [symmetric]
    by (auto simp: keeps_record_def elim!: ok_mono)
qed

definition same_record :: "dev \<Rightarrow> dev \<Rightarrow> bool" where
  "same_record d d' \<longleftrightarrow> dev_wf d' \<and> g_key_down (key_g d') = g_key_down (key_g d)
     \<and> g_key_bank_last_up (key_g d') = g_key_bank_last_up (key_g d)"

lemma dev_ok_same_record: "dev_ok d d' \<Longrightarrow> same_record d d'"
  by (simp add: dev_ok_def device_frame_def same_record_def)

lemma ok_same_andthen:
  "ok (same_record d) r \<Longrightarrow> (\<And>e. dev_wf e \<Longrightarrow> ok (same_record e) (f e)) \<Longrightarrow> ok (same_record d) (andthen r f)"
proof (erule ok_andthen)
  fix e assume f: "\<And>e. dev_wf e \<Longrightarrow> ok (same_record e) (f e)" and e: "same_record d e"
  from e have "dev_wf e" by (simp add: same_record_def)
  then show "ok (same_record d) (f e)" by (rule ok_mono [OF f]) (use e in \<open>simp add: same_record_def\<close>)
qed

lemma refresh_display_record:
  assumes "dev_wf d"
  shows "ok (same_record d) (refresh_display level d)"
proof -
  let ?d = "d\<lparr>key_g := (key_g d)\<lparr>last_led_refresh_time_ms := system_time_ms (key_g d)\<rparr>\<rparr>"
  have d1: "dev_wf ?d"
    using assms dev_wf_key_wf [OF assms] by (intro task_ok_wf [OF task_ok_key]) (simp_all add: key_wf_def)
  have bank: "ok (same_record ?d) (service_bank_select_buttons ?d)"
    by (rule ok_mono [OF service_bank_select_buttons_ok [OF d1] dev_ok_same_record])
  have off: "ok (same_record e) (update_note_off_feedback_delay e)" if "dev_wf e" for e
    using update_note_off_spec [OF that] by (auto simp: ok_def same_record_def)
  have disp: "ok (same_record e) (default_display_run level e)" if "dev_wf e" for e
  proof -
    obtain e' where e': "default_display_run level e = Inr e'" "display_ok e e'"
      using default_display_run_total [OF dev_wf_display_wf [OF \<open>dev_wf e\<close>]] by blast
    then show ?thesis using task_ok_wf [OF display_ok_task [OF \<open>dev_wf e\<close> e'(2)]]
      by (simp add: same_record_def display_ok_def run_frame_def)
  qed
  have led: "same_record e (led_update_pixels e)" if "dev_wf e" for e
    using task_ok_wf [OF led_update_pixels_ok [OF that]] by (simp add: same_record_def led_update_pixels_def Let_def)
  have "ok (same_record ?d) (andthen (service_bank_select_buttons ?d) (\<lambda>d.
      andthen (update_note_off_feedback_delay d) (\<lambda>d.
      andthen (default_display_run level d) (\<lambda>d. Inr (led_update_pixels d)))))"
    by (intro ok_same_andthen bank off disp) (simp_all add: led)
  then show ?thesis using assms by (auto simp: refresh_display_def Let_def same_record_def elim!: ok_mono)
qed

section \<open>Feedback from the host\<close>

text \<open>The channel that addresses the selected bank.\<close>

definition bank_channel :: "midi_globals \<Rightarrow> u8" where
  "bank_channel m = (if g_bank_selected m = 0 then G_EE_MIDI_CHANNEL m else second_channel m)"

lemma second_channel_differs: "second_channel m \<noteq> G_EE_MIDI_CHANNEL m"
proof (cases "G_EE_MIDI_CHANNEL m = 0")
  case False
  then have pos: "0 < unat (G_EE_MIDI_CHANNEL m)" by (simp add: unat_gt_0)
  have "second_channel m = take_bit 4 (G_EE_MIDI_CHANNEL m - 1)"
    by (simp add: second_channel_def take_bit_eq_mask mask_eq_exp_minus_1)
  then have "unat (second_channel m) \<le> unat (G_EE_MIDI_CHANNEL m - 1)"
    by (simp only: unsigned_take_bit_eq take_bit_nat_less_eq_self)
  also have "\<dots> < unat (G_EE_MIDI_CHANNEL m)" using False pos by (simp add: unat_minus_one)
  finally show ?thesis by auto
qed (simp add: second_channel_def)

lemma note_on_bank:
  assumes "midi_wf m" "i < 64" "Data1 ev AND 0x0F = bank_channel m" "Data2 ev = MIDI_BASENOTE + of_nat i"
  shows "\<exists>cs. note_on_message ev m = Inr (m\<lparr>g_midi_note_state :=
      (g_midi_note_state m)[NUM_BUTTONS * unat (g_bank_selected m) + i := Data3 ev], g_midi_note_off_counter := cs\<rparr>)"
proof -
  have key: "Data2 ev - MIDI_BASENOTE = of_nat i" "unat (of_nat i :: u8) = i" "unat (of_nat i + 64 :: u8) = i + 64"
    using assms(2,4) u8_plus_64 [of "of_nat i"] by (simp_all add: unat_of_nat)
  have "g_bank_selected m = 0 \<or> g_bank_selected m = 1"
    using assms(1) by (auto simp: midi_wf_def word_less_nat_alt word_unat_eq_iff)
  then show ?thesis
  proof
    assume b: "g_bank_selected m = 0"
    then show ?thesis using assms(1-3) key
      by (simp add: note_on_message_def Let_def bank_channel_def NUM_BUTTONS_def store_def note_state_index_def
          MIDI_CHANNEL_INDEX_CONTROL_BANKS_def midi_wf_def) blast
  next
    assume b: "g_bank_selected m = 1"
    then show ?thesis using assms(1-3) key second_channel_differs [of m]
      by (simp add: note_on_message_def Let_def bank_channel_def NUM_BUTTONS_def store_def note_state_index_def
          MIDI_CHANNEL_INDEX_CONTROL_BANKS_def midi_wf_def add.commute) blast
  qed
qed

lemma painted_note:
  assumes "midi_wf (midi d)" "i < 64" "j < 64" "plain_frame d"
    and d1_def: "d1 = d\<lparr>midi := (midi d)\<lparr>g_midi_note_state :=
      (g_midi_note_state (midi d))[NUM_BUTTONS * unat (g_bank_selected (midi d)) + i := v], g_midi_note_off_counter := cs\<rparr>\<rparr>"
  shows "note_velocity d1 j = (if j = i then v else note_velocity d j)" "key_color d1 j = key_color d j" "plain_frame d1"
proof -
  have b: "unat (g_bank_selected (midi d)) < 2" "length (g_midi_note_state (midi d)) = 256"
    using assms(1) by (simp_all add: midi_wf_def word_less_nat_alt)
  then show "note_velocity d1 j = (if j = i then v else note_velocity d j)"
    using assms(2) by (auto simp: d1_def note_velocity_def NUM_BUTTONS_def nth_list_update)
  show "key_color d1 j = key_color d j" by (simp add: d1_def key_color_def)
  let ?b = "NUM_BUTTONS * unat (g_bank_selected (midi d))"
  have "(g_midi_note_state (midi d))[?b + i := v] ! (MIDI_MAX_NOTES + ?b + k) = g_midi_note_state (midi d) ! (MIDI_MAX_NOTES + ?b + k)" for k
    using assms(2) by (intro nth_list_update_neq) (simp add: MIDI_MAX_NOTES_def)
  then show "plain_frame d1" using assms(4) by (simp add: d1_def plain_frame_def)
qed



end
