(* ===== verification/Mf_System.thy ===== *)
theory Mf_System
  imports Mf_Midifighter
begin

unbundle bit_operations_syntax

text \<open>
  The firmware as a whole.  The host's traffic is the sequence of packets that wait in the OUT
  queue; it conforms when channel messages carry seven-bit data, a SysEx message is not ended
  before it began, and bulk transfers keep to 24 bytes per part.  The steps of the system are the
  two timer interrupts, the host sending a transfer or answering the waits, changes of the USB
  state with their event handlers, and a run of the main task.
\<close>

section \<open>Conforming traffic\<close>

fun packets_of :: "u8 list \<Rightarrow> MIDI_EventPacket_t list" where
  "packets_of (a # b # c # e # bs) = \<lparr>Event = a, Data1 = b, Data2 = c, Data3 = e\<rparr> # packets_of bs"
| "packets_of bs = []"

definition pending :: "dev \<Rightarrow> MIDI_EventPacket_t list" where
  "pending d = packets_of (out_stream (usb (midi d)))"

definition packet_command :: "MIDI_EventPacket_t \<Rightarrow> u8" where
  "packet_command ev = Event ev AND 0x0F"

definition packet_conforms :: "u8 \<Rightarrow> parser \<Rightarrow> MIDI_EventPacket_t \<Rightarrow> bool" where
  "packet_conforms channel p ev \<longleftrightarrow>
     (packet_command ev = 8 \<or> packet_command ev = 9 \<longrightarrow> seven_bit ev)
     \<and> (packet_command ev = 7 \<longrightarrow> p \<noteq> Idle)
     \<and> (case snd (parse_packet channel (packet_command ev) ev p) of
          Some (k, bs) \<Rightarrow> k \<longrightarrow> config_permitted bs
        | None \<Rightarrow> True)"

fun traffic_conforms :: "u8 \<Rightarrow> parser \<Rightarrow> MIDI_EventPacket_t list \<Rightarrow> bool" where
  "traffic_conforms channel p [] = True"
| "traffic_conforms channel p (ev # evs) \<longleftrightarrow> packet_conforms channel p ev
     \<and> traffic_conforms channel (fst (parse_packet channel (packet_command ev) ev p)) evs"

lemma packets_of_bytes [simp]: "packets_of (packet_bytes p @ bs) = p # packets_of bs"
  by (simp add: packet_bytes_def)

lemma packets_of_append: "length bs mod 4 = 0 \<Longrightarrow> packets_of (bs @ cs) = packets_of bs @ packets_of cs"
proof (induction bs rule: packets_of.induct)
  case (1 a b c e bs)
  then show ?case by simp
qed auto

lemma out_stream_whole: "out_wf u \<Longrightarrow> length (out_stream u) mod 4 = 0"
proof -
  have "list_all (\<lambda>t. t \<noteq> [] \<and> length t mod 4 = 0) ts \<Longrightarrow> length (concat ts) mod 4 = 0" for ts :: "u8 list list"
    by (induction ts) (simp_all, metis add_0 mod_add_left_eq)
  then show "out_wf u \<Longrightarrow> ?thesis" by (simp add: out_wf_def out_stream_def)
qed

section \<open>The invariant of the firmware\<close>

fun fw_wf :: "firmware \<Rightarrow> bool" where
  "fw_wf (g, d) \<longleftrightarrow> dev_wf d \<and> sysex_wf g \<and> sysExCommandMap g = config_commands \<and> out_wf (usb (midi d))
     \<and> traffic_conforms (g_midi_sysex_channel (midi d)) (parser_of g) (pending d)"

lemma parser_active: "sysex_wf g \<Longrightarrow> parser_of g \<noteq> Idle \<Longrightarrow> sysex_ptr g \<noteq> None"
  by (cases "sysex_ptr g") (auto simp: sysex_wf_def parser_of_def)

lemma sysex_message_safe:
  assumes "dev_wf d" "sysex_wf g" "sysExCommandMap g = config_commands"
    and "packet_conforms (g_midi_sysex_channel (midi d)) (parser_of g) ev"
  shows "returns (\<lambda>(g', d'). sysex_wf g' \<and> sysExCommandMap g' = config_commands \<and> dev_ok d d'
      \<and> parser_of g' = fst (parse_packet (g_midi_sysex_channel (midi d)) (packet_command ev) ev (parser_of g)))
    (sysex_packet (packet_command ev) ev (g, d))"
proof -
  have inv: "config_inv d d" using assms(1) by (simp add: config_inv_def)
  have ptr: "sysex_ptr g \<noteq> None" if "packet_command ev = 7"
    using that assms(4) parser_active [OF assms(2)] by (auto simp: packet_conforms_def)
  show ?thesis
    by (rule returns_mono [OF config.packet_safe [OF assms(2,3) inv, of "packet_command ev" ev]])
       (use assms(4) ptr in \<open>auto simp: packet_conforms_def config_inv_def dev_ok_def\<close>)
qed

lemma message_safe:
  assumes "dev_wf d" "sysex_wf g" "sysExCommandMap g = config_commands"
    and "packet_conforms (g_midi_sysex_channel (midi d)) (parser_of g) ev"
  shows "returns (\<lambda>(g', d'). sysex_wf g' \<and> sysExCommandMap g' = config_commands \<and> dev_ok d d'
      \<and> parser_of g' = fst (parse_packet (g_midi_sysex_channel (midi d)) (packet_command ev) ev (parser_of g)))
    (usb_midi_message ev (g, d))"
proof (cases "packet_command ev \<in> {0xF, 9, 8, 0xB}")
  case True
  have keep: "parse_packet ch (packet_command ev) ev p = (p, None)" for ch p
    using True by (auto simp: parse_packet_def)
  have "ok (dev_ok d) r \<Longrightarrow> returns (\<lambda>(g', d'). sysex_wf g' \<and> sysExCommandMap g' = config_commands \<and> dev_ok d d'
      \<and> parser_of g' = fst (parse_packet (g_midi_sysex_channel (midi d)) (packet_command ev) ev (parser_of g)))
    (andthen r (\<lambda>d. Inr (g, d)))" for r
    using assms(2,3) keep by (cases r) simp_all
  moreover have "packet_command ev = 9 \<or> packet_command ev = 8 \<Longrightarrow> seven_bit ev"
    using assms(4) by (auto simp: packet_conforms_def)
  ultimately show ?thesis
    using True assms(1) dev_wf_midi_wf [OF assms(1)]
    by (auto simp: usb_midi_message_def Let_def with_dev_def packet_command_def with_midi_ok note_on_ok note_off_ok
        realtime_ok cc_message_ok)
next
  case False
  then show ?thesis using sysex_message_safe [OF assms] by (simp add: usb_midi_message_def Let_def packet_command_def)
qed

section \<open>The receive loop\<close>

lemma receive_shape:
  assumes "out_wf u" "USB_DeviceState u = DEVICE_STATE_Configured" "MIDI_Device_ReceiveEventPacket ev u = (got, ev', u')"
  shows "\<exists>q. u' = u\<lparr>out_queue := q\<rparr>"
proof (cases "out_queue u")
  case Nil
  then show ?thesis using assms(2,3)
    by (auto simp: MIDI_Device_ReceiveEventPacket_def Endpoint_IsOUTReceived_def intro!: exI [of _ "out_queue u"])
next
  case (Cons t q)
  then have "t \<noteq> []" "length t mod 4 = 0" using assms(1) by (simp_all add: out_wf_def)
  then obtain p rest where t: "t = packet_bytes p @ rest" by (rule mod4_split)
  show ?thesis using receive_packet [OF assms(2)] Cons t assms(3) by auto
qed

lemma dev_wf_out_queue:
  assumes "dev_wf d"
  shows "dev_wf (d\<lparr>midi := (midi d)\<lparr>usb := (usb (midi d))\<lparr>out_queue := q\<rparr>\<rparr>\<rparr>)"
  using dev_wf_midi_wf [OF assms] by (intro dev_wf_midi assms) (simp add: midi_wf_def usb_wf_def)

text \<open>What is left after a run of the loop, and what the loop does not touch.\<close>

definition received :: "nat \<Rightarrow> dev \<Rightarrow> dev \<Rightarrow> bool" where
  "received n d d' \<longleftrightarrow> pending d' = drop n (pending d) \<and> key_g d' = key_g d \<and> combo_g d' = combo_g d
     \<and> g_midi_sysex_channel (midi d') = g_midi_sysex_channel (midi d)
     \<and> USB_DeviceState (usb (midi d')) = USB_DeviceState (usb (midi d))"

text \<open>An empty queue: the loop gives up after the last allowed failure and changes nothing.\<close>

lemma receive_loop_idle:
  "out_queue (usb (midi d)) = [] \<Longrightarrow> receive_loop packets fails ev (g, d) = Inr (g, d)"
proof (induction "USB_RX_FAIL_LIMIT - fails" arbitrary: fails rule: less_induct)
  case less
  have "MIDI_Device_ReceiveEventPacket ev (usb (midi d)) = (False, ev, usb (midi d))"
    using less.prems by (simp add: MIDI_Device_ReceiveEventPacket_def Endpoint_IsOUTReceived_def)
  moreover have "receive_loop packets (fails + 1) ev (g, d) = Inr (g, d)" if "\<not> fails + 1 \<ge> USB_RX_FAIL_LIMIT"
    using that less.prems by (intro less.hyps) simp_all
  ultimately show ?case by (simp add: receive_loop.simps [of packets fails] Let_def)
qed

lemma receive_loop_next:
  assumes "out_wf (usb (midi d))" "USB_DeviceState (usb (midi d)) = DEVICE_STATE_Configured" "pending d = ev' # evs"
    and "packets < USB_RX_PACKET_LIMIT"
  obtains q where "receive_loop packets fails ev (g, d) =
      andthen (usb_midi_message ev' (g, d\<lparr>midi := (midi d)\<lparr>usb := (usb (midi d))\<lparr>out_queue := q\<rparr>\<rparr>\<rparr>))
        (receive_loop (packets + 1) 0 ev')"
    "out_wf ((usb (midi d))\<lparr>out_queue := q\<rparr>)" "packets_of (concat q) = evs"
proof -
  obtain got ev1 u' where r: "MIDI_Device_ReceiveEventPacket ev (usb (midi d)) = (got, ev1, u')" by (rule prod_cases3)
  have dec: "out_wf u'" "got = (out_stream (usb (midi d)) \<noteq> [])"
    "out_stream (usb (midi d)) = (if got then packet_bytes ev1 else []) @ out_stream u'"
    using receive_decodes [OF assms(1,2), of ev] unfolding r prod.case by blast+
  obtain q where q: "u' = (usb (midi d))\<lparr>out_queue := q\<rparr>" using receive_shape [OF assms(1,2) r] by blast
  have got: "got" using assms(3) dec(2) by (auto simp: pending_def)
  have "ev1 = ev'" "packets_of (concat q) = evs"
    using assms(3) dec(3) got q by (simp_all add: pending_def out_stream_def)
  moreover have "receive_loop packets fails ev (g, d) =
      andthen (usb_midi_message ev1 (g, d\<lparr>midi := (midi d)\<lparr>usb := u'\<rparr>\<rparr>)) (receive_loop (packets + 1) 0 ev1)"
    using assms(4) r got by (simp add: receive_loop.simps [of packets fails] Let_def)
  ultimately show thesis using that [of q] dec(1) q by simp
qed

lemma pending_empty:
  assumes "out_wf (usb (midi d))" "pending d = []"
  shows "out_queue (usb (midi d)) = []"
proof (cases "out_queue (usb (midi d))")
  case (Cons t q)
  then have "t \<noteq> []" "length t mod 4 = 0" using assms(1) by (simp_all add: out_wf_def)
  then obtain p rest where t: "t = packet_bytes p @ rest" by (rule mod4_split)
  show ?thesis using assms(2) Cons t by (simp add: pending_def out_stream_def)
qed

lemma receive_loop_safe:
  assumes "fw_wf (g, d)" "USB_DeviceState (usb (midi d)) = DEVICE_STATE_Configured" "n \<le> USB_RX_PACKET_LIMIT"
  shows "returns (\<lambda>(g', d'). fw_wf (g', d') \<and> received n d d')
    (receive_loop (USB_RX_PACKET_LIMIT - n) fails ev (g, d))"
  using assms
proof (induction n arbitrary: g d fails ev)
  case 0
  then show ?case by (simp add: receive_loop.simps [of USB_RX_PACKET_LIMIT] received_def)
next
  case (Suc n)
  show ?case
  proof (cases "pending d")
    case Nil
    then have "out_queue (usb (midi d)) = []"
      using Suc.prems(1) pending_empty by simp
    then show ?thesis using Suc.prems Nil receive_loop_idle by (simp add: received_def)
  next
    case (Cons ev' evs)
    have wf: "dev_wf d" "sysex_wf g" "sysExCommandMap g = config_commands" "out_wf (usb (midi d))"
      and conf: "packet_conforms (g_midi_sysex_channel (midi d)) (parser_of g) ev'"
        "traffic_conforms (g_midi_sysex_channel (midi d))
           (fst (parse_packet (g_midi_sysex_channel (midi d)) (packet_command ev') ev' (parser_of g))) evs"
      using Suc.prems(1) Cons by simp_all
    have "USB_RX_PACKET_LIMIT - Suc n < USB_RX_PACKET_LIMIT" using Suc.prems(3) by simp
    then obtain q where q: "receive_loop (USB_RX_PACKET_LIMIT - Suc n) fails ev (g, d) =
        andthen (usb_midi_message ev' (g, d\<lparr>midi := (midi d)\<lparr>usb := (usb (midi d))\<lparr>out_queue := q\<rparr>\<rparr>\<rparr>))
          (receive_loop (USB_RX_PACKET_LIMIT - Suc n + 1) 0 ev')"
        "out_wf ((usb (midi d))\<lparr>out_queue := q\<rparr>)" "packets_of (concat q) = evs"
      by (rule receive_loop_next [OF wf(4) Suc.prems(2) Cons])
    define d1 where "d1 = d\<lparr>midi := (midi d)\<lparr>usb := (usb (midi d))\<lparr>out_queue := q\<rparr>\<rparr>\<rparr>"
    have d1: "dev_wf d1" "g_midi_sysex_channel (midi d1) = g_midi_sysex_channel (midi d)" "key_g d1 = key_g d"
      "combo_g d1 = combo_g d" "USB_DeviceState (usb (midi d1)) = USB_DeviceState (usb (midi d))"
      "out_queue (usb (midi d1)) = q"
      using dev_wf_out_queue [OF wf(1)] by (simp_all add: d1_def)
    have k: "USB_RX_PACKET_LIMIT - Suc n + 1 = USB_RX_PACKET_LIMIT - n" using Suc.prems(3) by simp
    show ?thesis unfolding q(1) k d1_def [symmetric]
    proof (rule returns_andthen [OF message_safe [OF d1(1) wf(2,3), unfolded d1(2), OF conf(1)]], clarify)
      fix g2 d2
      assume m: "sysex_wf g2" "sysExCommandMap g2 = config_commands" "dev_ok d1 d2"
        "parser_of g2 = fst (parse_packet (g_midi_sysex_channel (midi d)) (packet_command ev') ev' (parser_of g))"
      have f: "key_g d2 = key_g d" "combo_g d2 = combo_g d" "g_midi_sysex_channel (midi d2) = g_midi_sysex_channel (midi d)"
        "out_queue (usb (midi d2)) = q" "USB_DeviceState (usb (midi d2)) = USB_DeviceState (usb (midi d))" "dev_wf d2"
        using m(3) d1 by (simp_all add: dev_ok_def device_frame_def)
      have pend: "pending d2 = evs" using f(4) q(3) by (simp add: pending_def out_stream_def)
      have "fw_wf (g2, d2)" using m(1,2,4) f q(2) conf(2) pend by (simp add: out_wf_def)
      then have "returns (\<lambda>(g', d'). fw_wf (g', d') \<and> received n d2 d') (receive_loop (USB_RX_PACKET_LIMIT - n) 0 ev' (g2, d2))"
        using Suc.prems f(5) by (intro Suc.IH) simp_all
      then show "returns (\<lambda>(g', d'). fw_wf (g', d') \<and> received (Suc n) d d') (receive_loop (USB_RX_PACKET_LIMIT - n) 0 ev' (g2, d2))"
        by (rule returns_mono) (use pend Cons f in \<open>auto simp: received_def\<close>)
    qed
  qed
qed

lemma receive_all_safe:
  assumes "fw_wf (g, d)" "USB_DeviceState (usb (midi d)) = DEVICE_STATE_Configured"
  shows "returns (\<lambda>(g', d'). fw_wf (g', d') \<and> received USB_RX_PACKET_LIMIT d d')
    (Midifighter_GetIncomingUsbMidiMessages ev (g, d))"
  using receive_loop_safe [OF assms order_refl] by (simp add: Midifighter_GetIncomingUsbMidiMessages_def)

section \<open>The task\<close>

text \<open>A run that returns, jumps to the boot loader, or stops only if \<open>c\<close> holds.\<close>

definition runs :: "bool \<Rightarrow> ('a \<Rightarrow> bool) \<Rightarrow> 'a run \<Rightarrow> bool" where
  "runs c P r \<longleftrightarrow> (case r of Inr x \<Rightarrow> P x | Inl e \<Rightarrow> e = Bootloader \<or> c)"

lemma runs_simps [simp]: "runs c P (Inr x) = P x" "runs c P (Inl e) = (e = Bootloader \<or> c)"
  by (simp_all add: runs_def)

lemma runs_andthen: "runs c P r \<Longrightarrow> (\<And>x. P x \<Longrightarrow> runs c Q (f x)) \<Longrightarrow> runs c Q (andthen r f)"
  by (cases r) simp_all

lemma runs_mono: "runs c P r \<Longrightarrow> (\<And>x. P x \<Longrightarrow> Q x) \<Longrightarrow> runs c Q r"
  by (cases r) simp_all

lemma returns_runs: "returns P r \<Longrightarrow> runs c P r"
  by (cases r) simp_all

lemma ok_runs: "ok P r \<Longrightarrow> runs c P r"
  by (cases r) simp_all

lemma service_combos_runs:
  assumes "dev_wf d"
  shows "runs (combo_stuck (combo_g d)) (\<lambda>d'. task_ok (d\<lparr>combo_g := combo_g d'\<rparr>) d') (service_combos d)"
proof (cases "G_EE_COMBOS_ENABLE (ee d) = 0")
  case False
  let ?r = "combo_recognize (g_key_down (key_g d)) (g_key_up (key_g d)) (g_key_state (key_g d)) (combo_g d)"
  have wf: "combo_wf (combo_g d)" using assms by (simp add: dev_wf_def)
  have "runs (combo_stuck (combo_g d)) (\<lambda>(a, c). combo_wf c) ?r"
  proof (cases ?r)
    case (Inl e)
    then show ?thesis using combo_recognize_returns [OF wf, of "g_key_down (key_g d)" "g_key_up (key_g d)" "g_key_state (key_g d)"]
      by (auto simp: combo_stuck_def)
  next
    case (Inr ac)
    then show ?thesis using combo_recognize_wf [OF wf] by (cases ac) simp
  qed
  then show ?thesis unfolding service_combos_def if_not_P [OF False]
  proof (rule runs_andthen, clarify)
    fix a c assume "combo_wf c"
    then have d1: "dev_wf (d\<lparr>combo_g := c\<rparr>)" using assms by (simp add: dev_wf_combo)
    have "task_ok (d\<lparr>combo_g := c\<rparr>) ((d\<lparr>combo_g := c\<rparr>)\<lparr>midi := midi_stream_note_ch ch n on (midi (d\<lparr>combo_g := c\<rparr>))\<rparr>)" for ch n on
      by (rule dev_ok_task [OF dev_ok_channel_messages(2) [OF d1]])
    then show "runs (combo_stuck (combo_g d)) (\<lambda>d'. task_ok (d\<lparr>combo_g := combo_g d'\<rparr>) d')
       (let d = d\<lparr>combo_g := c\<rparr>; channel = if g_bank_selected (midi d) \<le> 0 then G_EE_MIDI_CHANNEL (midi d) else second_channel (midi d)
        in Inr (case combo_note a of None \<Rightarrow> d | Some (note, onoff) \<Rightarrow> d\<lparr>midi := midi_stream_note_ch channel note onoff (midi d)\<rparr>))"
      using task_ok_refl [OF d1] by (simp add: Let_def split: option.split)
  qed
qed (simp add: service_combos_def task_ok_refl assms)

text \<open>The rest of the task after the receive loop.\<close>

definition task_rest :: "(u8 \<Rightarrow> u8) \<Rightarrow> dev \<Rightarrow> dev run" where
  "task_rest level d =
     andthen (service_keys d) (\<lambda>d.
     andthen (service_combos d) (\<lambda>d.
     andthen (refresh_display level (d\<lparr>midi := flushed (midi d)\<rparr>)) (\<lambda>d.
     Inr (d\<lparr>watchdog_flag := True\<rparr>))))"

lemma task_rest_runs:
  assumes "dev_wf d"
  shows "runs (combo_stuck (combo_g d)) (\<lambda>d'. task_ok (d\<lparr>combo_g := combo_g d'\<rparr>) d') (task_rest level d)"
  unfolding task_rest_def
proof (rule runs_andthen [OF ok_runs [OF service_keys_ok [OF assms]]])
  fix d1 assume d1: "task_ok d d1"
  then have c1: "combo_g d1 = combo_g d" "dev_wf d1" by (simp_all add: task_ok_def task_frame_def)
  show "runs (combo_stuck (combo_g d)) (\<lambda>d'. task_ok (d\<lparr>combo_g := combo_g d'\<rparr>) d')
     (andthen (service_combos d1) (\<lambda>d.
      andthen (refresh_display level (d\<lparr>midi := flushed (midi d)\<rparr>)) (\<lambda>d. Inr (d\<lparr>watchdog_flag := True\<rparr>))))"
  proof (rule runs_andthen [OF service_combos_runs [OF c1(2), unfolded c1(1)]])
    fix d2 assume d2: "task_ok (d1\<lparr>combo_g := combo_g d2\<rparr>) d2"
    have d3: "task_ok d2 (d2\<lparr>midi := flushed (midi d2)\<rparr>)" by (rule flushed_ok [OF task_ok_wf [OF d2]])
    have "ok (task_ok d2) (andthen (refresh_display level (d2\<lparr>midi := flushed (midi d2)\<rparr>)) (\<lambda>d. Inr (d\<lparr>watchdog_flag := True\<rparr>)))"
      by (rule ok_task_trans [OF d3 ok_task_andthen [OF refresh_display_ok [OF task_ok_wf [OF d3]]]])
         (simp add: watchdog_ok)
    then show "runs (combo_stuck (combo_g d)) (\<lambda>d'. task_ok (d\<lparr>combo_g := combo_g d'\<rparr>) d')
       (andthen (refresh_display level (d2\<lparr>midi := flushed (midi d2)\<rparr>)) (\<lambda>d. Inr (d\<lparr>watchdog_flag := True\<rparr>)))"
      by (intro ok_runs, elim ok_mono) (use d1 d2 in \<open>auto simp: task_ok_def task_frame_def\<close>)
  qed
qed

lemma task_ok_fw_wf:
  assumes "fw_wf (g, d)" "task_ok (d\<lparr>combo_g := combo_g d'\<rparr>) d'"
  shows "fw_wf (g, d')"
  using assms by (simp add: task_ok_def task_frame_def out_wf_def pending_def out_stream_def)

lemma task_runs:
  assumes "fw_wf (g, d)"
  shows "runs (combo_stuck (combo_g d)) fw_wf (Midifighter_Task ev level (g, d))"
proof (cases "USB_DeviceState (usb (midi d)) = DEVICE_STATE_Configured")
  case True
  have run: "Midifighter_Task ev level (g, d) =
      andthen (Midifighter_GetIncomingUsbMidiMessages ev (g, d)) (with_dev (task_rest level))"
    using True by (simp add: Midifighter_Task_def task_rest_def [abs_def])
  show ?thesis unfolding run
  proof (rule runs_andthen [OF returns_runs [OF receive_all_safe [OF assms True]]], clarify)
    fix g1 d1 assume s1: "fw_wf (g1, d1)" "received USB_RX_PACKET_LIMIT d d1"
    then have "combo_g d1 = combo_g d" "dev_wf d1" by (simp_all add: received_def)
    with task_rest_runs [OF this(2), of level]
    have "runs (combo_stuck (combo_g d)) (\<lambda>d'. task_ok (d1\<lparr>combo_g := combo_g d'\<rparr>) d') (task_rest level d1)" by simp
    then show "runs (combo_stuck (combo_g d)) fw_wf (with_dev (task_rest level) (g1, d1))"
      unfolding with_dev_def prod.case by (rule runs_andthen) (unfold runs_simps, rule task_ok_fw_wf [OF s1(1)])
  qed
qed (use assms in \<open>simp add: Midifighter_Task_def\<close>)

section \<open>Start-up\<close>

definition power_on :: "(nat \<Rightarrow> u8) \<Rightarrow> usb_globals \<Rightarrow> firmware" where
  "power_on m u = (sysex_init, dev_init m u)"

lemma dev_wf_dev_init:
  assumes "usb_wf u"
  shows "dev_wf (dev_init m u)"
proof -
  have "disp_wf (dev_init m u)"
    by (simp add: dev_init_def disp_wf_def anim_wf_def anim_init_def slot_ok_def
        led_init_def midi_init_def buffer_wf_def colors_wf_def CONCURRENT_GEOMETRIC_ANIMATIONS_def MIDI_MAX_NOTES_def)
  moreover have "ball_wf (balls (dev_init m u))"
    by (simp add: dev_init_def ball_wf_def ball_init_def BALL_DEMO_MAX_BALLS_def replicate_2)
  moreover have "notes7 (dev_init m u)" by (simp add: notes7_def dev_init_def midi_init_def list_all_iff)
  moreover have "key_wf (key_g (dev_init m u))" "combo_wf (combo_g (dev_init m u))"
    by (simp_all add: dev_init_def key_init_def key_wf_def DEBOUNCE_BUFFER_SIZE_def combo_wf_init)
  ultimately show ?thesis using assms
    by (simp add: dev_wf_def display_wf_def show_wf_def midi_wf_def notes7_def disp_wf_def dev_init_def midi_init_def
        MIDI_MAX_NOTES_def NUM_BANKS_def list_all_iff)
qed

lemma fold_timer_wf: "key_wf k \<Longrightarrow> key_wf (fold TIMER0_OVF_vect pins k)"
  by (rule debounce.inv_run)

text \<open>Everything of the start-up before the first look at the keys.\<close>

definition set_up :: "(nat \<Rightarrow> bool) list \<Rightarrow> dev \<Rightarrow> dev" where
  "set_up pins d =
     (let d = led_disable (led_setup d);
          d = d\<lparr>key_g := key_setup (key_g d)\<rparr>;
          d = d\<lparr>midi := midi_setup (midi d)\<rparr>;
          d = d\<lparr>combo_g := combo_setup (combo_g d)\<rparr>
      in d\<lparr>key_g := key_poll (fold TIMER0_OVF_vect pins (key_g d))\<rparr>)"

definition started :: "dev \<Rightarrow> dev" where
  "started d = d\<lparr>key_g := (key_g d)\<lparr>interrupts_enabled := True\<rparr>, led := (led d)\<lparr>sleep_minute_counter := G_EE_SLEEP_TIME (ee d)\<rparr>\<rparr>"

lemma main_setup_spec:
  assumes "sysExCommandMap g = replicate 8 None"
  shows "main_setup pins (g, d) = andthen (eeprom_setup d) (\<lambda>d.
     if g_key_state (key_g (set_up pins d)) AND 0x01 \<noteq> 0 then Inl Bootloader
     else Inr (g\<lparr>sysExCommandMap := config_commands\<rparr>, started (set_up pins d)))"
  by (simp add: main_setup_def config_setup_installs [OF assms] Let_def set_up_def started_def cong: if_cong)

lemma set_up_wf:
  assumes "dev_wf d"
  shows "dev_wf (started (set_up pins d))" "usb (midi (started (set_up pins d))) = usb (midi d)"
proof -
  have k: "key_wf (key_poll (fold TIMER0_OVF_vect pins (key_setup (key_g (led_disable (led_setup d))))))"
    using dev_wf_key_wf [OF assms]
    by (intro key_wf_key_poll fold_timer_wf key_wf_key_setup) (simp add: key_wf_def led_setup_def led_disable_def)
  have m: "midi_wf (midi_setup (midi d))" using dev_wf_midi_wf [OF assms]
    by (simp add: midi_wf_def midi_setup_def MIDI_MAX_NOTES_def NUM_BANKS_def list_all_iff)
  show "dev_wf (started (set_up pins d))" using assms k m
    by (simp add: started_def set_up_def Let_def dev_wf_def display_wf_def show_wf_def disp_wf_def notes7_def led_disable_def
        led_setup_def midi_wf_def key_wf_def combo_setup_def combo_wf_def)
  show "usb (midi (started (set_up pins d))) = usb (midi d)"
    by (simp add: started_def set_up_def Let_def led_disable_def led_setup_def midi_setup_def)
qed

lemma boot_spec:
  assumes "usb_wf u" "out_queue u = []"
  shows "\<exists>d. dev_wf (dev_init m u) \<and> eeprom_setup (dev_init m u) = Inr d \<and> key_g d = key_init
    \<and> main_setup pins (power_on m u) = (if g_key_state (key_g (set_up pins d)) AND 0x01 \<noteq> 0 then Inl Bootloader
        else Inr (sysex_init\<lparr>sysExCommandMap := config_commands\<rparr>, started (set_up pins d)))
    \<and> fw_wf (sysex_init\<lparr>sysExCommandMap := config_commands\<rparr>, started (set_up pins d))"
proof -
  note wf = dev_wf_dev_init [OF assms(1), of m]
  obtain d where d: "eeprom_setup (dev_init m u) = Inr d" "dev_ok (dev_init m u) d"
    using eeprom_setup_ok [OF wf] by (auto simp: ok_def)
  have q: "key_g d = key_init" "out_queue (usb (midi d)) = []"
    using d(2) assms(2) by (simp_all add: dev_ok_def device_frame_def dev_init_def midi_init_def)
  have "sysExCommandMap sysex_init = replicate 8 None" by (simp add: sysex_init_def MAX_COMMAND_def)
  note run = main_setup_spec [OF this, of pins "dev_init m u"]
  note s = set_up_wf [OF dev_ok_wf [OF d(2)], of pins]
  have "fw_wf (sysex_init\<lparr>sysExCommandMap := config_commands\<rparr>, started (set_up pins d))"
    using s q(2) by (simp add: out_wf_def pending_def out_stream_def sysex_wf_def sysex_init_def MIDI_MAX_SYSEX_def
        MAX_COMMAND_def config_commands_def)
  then show ?thesis using wf d(1) q(1) run by (auto simp: power_on_def)
qed

text \<open>The test of key 0 at start-up sees the last ten samples.\<close>

lemma set_up_key0:
  assumes "key_wf (key_g d)" "10 \<le> length pins"
  shows "g_key_state (key_g (set_up pins d)) AND 0x01 \<noteq> 0 \<longleftrightarrow> (\<forall>pin \<in> set (drop (length pins - 10) pins). pin 0)"
proof -
  let ?k = "key_setup (key_g (led_disable (led_setup d)))"
  have wf: "key_wf ?k" using assms(1) by (intro key_wf_key_setup) (simp add: key_wf_def led_setup_def led_disable_def)
  have "g_key_state (key_g (set_up pins d)) = g_key_state (snd (key_read (fold TIMER0_OVF_vect pins ?k)))"
    by (simp add: set_up_def Let_def key_poll_def key_calc_frame)
  moreover have "(w AND 0x01 \<noteq> 0) = bit w 0" for w :: u64
    by (simp add: and_one_eq bit_0 odd_iff_mod_2_eq_one)
  ultimately show ?thesis using key_read_last_ten [OF wf assms(2), of 0] by simp
qed

lemma boot_cases:
  assumes "usb_wf u" "out_queue u = []" "10 \<le> length pins"
  shows "\<exists>s. fw_wf s \<and> main_setup pins (power_on m u) =
    (if \<forall>pin \<in> set (drop (length pins - 10) pins). pin 0 then Inl Bootloader else Inr s)"
proof -
  obtain d where d: "key_g d = key_init" "main_setup pins (power_on m u) = (if g_key_state (key_g (set_up pins d)) AND 0x01 \<noteq> 0
      then Inl Bootloader else Inr (sysex_init\<lparr>sysExCommandMap := config_commands\<rparr>, started (set_up pins d)))"
      "fw_wf (sysex_init\<lparr>sysExCommandMap := config_commands\<rparr>, started (set_up pins d))"
    using boot_spec [OF assms(1,2), of m pins] by blast
  have wf: "key_wf (key_g d)" by (simp add: d(1) key_init_def key_wf_def DEBOUNCE_BUFFER_SIZE_def)
  from d(2,3) show ?thesis unfolding set_up_key0 [OF wf assms(3)] by blast
qed

section \<open>The steps of the system\<close>

text \<open>
  The interrupts are not tied to the interrupt enable bits: the model allows them at any time
  between two runs of the task.  A transfer of the host has to keep the pending traffic conforming.
\<close>

definition add_transfer :: "u8 list \<Rightarrow> dev \<Rightarrow> dev" where
  "add_transfer t d = d\<lparr>midi := (midi d)\<lparr>usb := (usb (midi d))\<lparr>out_queue := out_queue (usb (midi d)) @ [t]\<rparr>\<rparr>\<rparr>"

definition set_waits :: "u8 list \<Rightarrow> dev \<Rightarrow> dev" where
  "set_waits rs d = d\<lparr>midi := (midi d)\<lparr>usb := (usb (midi d))\<lparr>host_waits := rs\<rparr>\<rparr>\<rparr>"

definition set_usb_state :: "usb_device_state \<Rightarrow> dev \<Rightarrow> dev" where
  "set_usb_state st d = d\<lparr>midi := (midi d)\<lparr>usb := (usb (midi d))\<lparr>USB_DeviceState := st\<rparr>\<rparr>\<rparr>"

text \<open>The controller empties the bank of an endpoint when the bus or the endpoint is reset or the endpoint is
  configured again; the host drops the transfers it still had for it.\<close>

definition empty_bank :: "bool \<Rightarrow> dev \<Rightarrow> dev" where
  "empty_bank device_to_host d =
     d\<lparr>midi := (midi d)\<lparr>usb :=
       (if device_to_host then (usb (midi d))\<lparr>in_bank := [], in_busy := False\<rparr>
        else (usb (midi d))\<lparr>out_queue := []\<rparr>)\<rparr>\<rparr>"

inductive step :: "firmware \<Rightarrow> firmware \<Rightarrow> bool" where
  key_interrupt: "step (g, d) (g, d\<lparr>key_g := TIMER0_OVF_vect pin (key_g d)\<rparr>)"
| led_interrupt: "TIMER1_OVF_vect d = Inr d' \<Longrightarrow> step (g, d) (g, d')"
| host_sends: "t \<noteq> [] \<Longrightarrow> length t mod 4 = 0 \<Longrightarrow>
    traffic_conforms (g_midi_sysex_channel (midi d)) (parser_of g) (pending d @ packets_of t) \<Longrightarrow>
    step (g, d) (g, add_transfer t d)"
| host_answers: "step (g, d) (g, set_waits rs d)"
| connect: "step (g, d) (g, EVENT_USB_Device_Connect (set_usb_state st d))"
| disconnect: "step (g, d) (g, EVENT_USB_Device_Disconnect (set_usb_state st d))"
| configure: "step (g, d) (g, EVENT_USB_Device_ConfigurationChanged c (set_usb_state st d))"
| bank_reset: "step (g, d) (g, empty_bank device_to_host d)"
| main_task: "Midifighter_Task ev level s = Inr s' \<Longrightarrow> step s s'"

inductive_cases step_cases: "step s s'"

lemma timer1_ok:
  assumes "dev_wf d"
  shows "ok (task_ok d) (TIMER1_OVF_vect d)"
proof -
  have "length (g_led_counter (led d)) = 4" using assms by (simp add: dev_wf_def display_wf_def show_wf_def disp_wf_def)
  then show ?thesis using assms
    by (auto simp: TIMER1_OVF_vect_def Let_def task_ok_def task_frame_def dev_wf_def display_wf_def show_wf_def
        disp_wf_def notes7_def midi_wf_def)
qed

lemma fw_wf_midi:
  assumes "fw_wf (g, d)" "dev_wf d'" "g_midi_sysex_channel (midi d') = g_midi_sysex_channel (midi d)"
    "out_queue (usb (midi d')) = out_queue (usb (midi d))"
  shows "fw_wf (g, d')"
  using assms by (simp add: out_wf_def pending_def out_stream_def)

lemma dev_wf_usb: "dev_wf d \<Longrightarrow> usb_wf u \<Longrightarrow> dev_wf (d\<lparr>midi := (midi d)\<lparr>usb := u\<rparr>\<rparr>)"
  using dev_wf_midi_wf [of d] by (intro dev_wf_midi) (simp_all add: midi_wf_def)

lemma dev_wf_usb_wf: "dev_wf d \<Longrightarrow> usb_wf (usb (midi d))"
  using dev_wf_midi_wf [of d] by (simp add: midi_wf_def)

lemma led_enable_wf: "dev_wf d \<Longrightarrow> dev_wf (led_enable d)"
  by (simp add: led_enable_def dev_wf_def display_wf_def show_wf_def disp_wf_def notes7_def)

lemma set_usb_state_wf: "dev_wf d \<Longrightarrow> dev_wf (set_usb_state st d)"
  unfolding set_usb_state_def using dev_wf_usb_wf [of d] by (intro dev_wf_usb) (simp_all add: usb_wf_def)

lemma host_sends_wf:
  assumes "fw_wf (g, d)" "t \<noteq> []" "length t mod 4 = 0"
    and "traffic_conforms (g_midi_sysex_channel (midi d)) (parser_of g) (pending d @ packets_of t)"
  shows "fw_wf (g, add_transfer t d)"
proof -
  have "dev_wf (add_transfer t d)"
    unfolding add_transfer_def using assms(1) dev_wf_usb_wf [of d] by (intro dev_wf_usb) (simp_all add: usb_wf_def)
  moreover have "out_wf (usb (midi (add_transfer t d)))" using assms(1-3) by (simp add: add_transfer_def out_wf_def)
  moreover have "pending (add_transfer t d) = pending d @ packets_of t"
    using assms(1) packets_of_append [OF out_stream_whole]
    by (simp add: add_transfer_def pending_def out_stream_def)
  moreover have "g_midi_sysex_channel (midi (add_transfer t d)) = g_midi_sysex_channel (midi d)" by (simp add: add_transfer_def)
  ultimately show ?thesis using assms(1,4) by simp
qed

lemma step_fw_wf: "step s s' \<Longrightarrow> fw_wf s \<Longrightarrow> fw_wf s'"
proof (induction rule: step.induct)
  case (key_interrupt g d pin)
  have "task_ok d (d\<lparr>key_g := TIMER0_OVF_vect pin (key_g d)\<rparr>)"
    using key_interrupt fold_timer_wf [of "key_g d" "[pin]"] by (intro task_ok_key) (simp_all add: dev_wf_key_wf)
  then show ?case using key_interrupt by (intro fw_wf_midi [OF key_interrupt]) (simp_all add: task_ok_def)
next
  case (led_interrupt d d' g)
  then show ?case using timer1_ok [of d] by (intro fw_wf_midi [OF led_interrupt(2)]) (simp_all add: task_ok_def task_frame_def)
next
  case (host_sends t d g)
  then show ?case by (intro host_sends_wf) simp_all
next
  case (host_answers g d rs)
  have "dev_wf (set_waits rs d)"
    unfolding set_waits_def using host_answers dev_wf_usb_wf [of d] by (intro dev_wf_usb) (simp_all add: usb_wf_def)
  then show ?case by (intro fw_wf_midi [OF host_answers]) (simp_all add: set_waits_def)
next
  case (connect g d st)
  then show ?case by (intro fw_wf_midi [OF connect])
      (simp_all add: EVENT_USB_Device_Connect_def led_enable_wf set_usb_state_wf, simp_all add: led_enable_def set_usb_state_def)
next
  case (disconnect g d st)
  then show ?case by (intro fw_wf_midi [OF disconnect])
      (simp_all add: EVENT_USB_Device_Disconnect_def set_usb_state_wf, simp_all add: set_usb_state_def)
next
  case (configure g d c st)
  then show ?case by (intro fw_wf_midi [OF configure])
      (simp_all add: EVENT_USB_Device_ConfigurationChanged_def led_enable_wf set_usb_state_wf,
       simp_all add: led_enable_def set_usb_state_def)
next
  case (bank_reset g d device_to_host)
  then have "dev_wf (empty_bank device_to_host d)"
    unfolding empty_bank_def using dev_wf_usb_wf [of d] by (intro dev_wf_usb) (simp_all add: usb_wf_def)
  then show ?case using bank_reset
    by (cases device_to_host) (simp_all add: empty_bank_def out_wf_def pending_def out_stream_def)
next
  case (main_task ev level s s')
  obtain g d where "s = (g, d)" by (cases s)
  then show ?case using task_runs [of g d ev level] main_task by simp
qed

lemma reachable_fw_wf: "step\<^sup>*\<^sup>* s s' \<Longrightarrow> fw_wf s \<Longrightarrow> fw_wf s'"
  by (induction rule: rtranclp_induct) (simp_all add: step_fw_wf)

section \<open>Properties\<close>


definition usb_quiet :: usb_globals where
  "usb_quiet = usb_example\<lparr>host_waits := [], out_queue := []\<rparr>"

lemma usb_quiet_facts: "usb_wf usb_quiet" "out_queue usb_quiet = []"
  by (simp_all add: usb_quiet_def usb_example_def usb_wf_def MIDI_STREAM_EPSIZE_def)


text \<open>C10: the start-up.  With at least ten key samples taken during the delay, the firmware enters the
  boot loader exactly when key 0 was down in each of the last ten, whatever the EEPROM holds;
  otherwise it reaches the main loop with the invariant established.\<close>

theorem boot_decision:
  assumes "usb_wf u" "out_queue u = []" "10 \<le> length pins"
  shows "if \<forall>pin \<in> set (drop (length pins - 10) pins). pin 0
    then main_setup pins (power_on m u) = Inl Bootloader
    else \<exists>s. main_setup pins (power_on m u) = Inr s \<and> fw_wf s"
  using boot_cases [OF assms, of m] by auto

theorem boot_decision_witness:
  "main_setup (replicate 12 (\<lambda>i. i = 0)) (power_on (\<lambda>_. 0xFF) usb_quiet) = Inl Bootloader
   \<and> (\<exists>s. main_setup (replicate 12 (\<lambda>i. i = 5)) (power_on (\<lambda>_. 0xFF) usb_quiet) = Inr s \<and> fw_wf s)"
  using boot_decision [OF usb_quiet_facts, of "replicate 12 (\<lambda>i. i = 0)" "\<lambda>_. 0xFF"]
    boot_decision [OF usb_quiet_facts, of "replicate 12 (\<lambda>i. i = 5)" "\<lambda>_. 0xFF"] by simp

text \<open>C7: the receive loop takes packets in order and is bounded.  Under conforming traffic one call
  returns (or a message asked for the boot loader), exactly the first 512 pending packets are
  gone, all of them if there are fewer, and keys, combos and the USB state are untouched.\<close>

theorem receive_in_order_bounded:
  assumes "fw_wf (g, d)" "USB_DeviceState (usb (midi d)) = DEVICE_STATE_Configured"
  shows "case Midifighter_GetIncomingUsbMidiMessages ev (g, d) of
      Inr (g', d') \<Rightarrow> fw_wf (g', d') \<and> pending d' = drop 512 (pending d) \<and> key_g d' = key_g d \<and> combo_g d' = combo_g d
        \<and> USB_DeviceState (usb (midi d')) = DEVICE_STATE_Configured
    | Inl e \<Rightarrow> e = Bootloader"
  using receive_all_safe [OF assms, of ev] assms(2)
  by (auto simp: returns_def received_def USB_RX_PACKET_LIMIT_def split: sum.splits)

lemma fw_wf_example: "fw_wf (config_example, dev_example)"
proof -
  have "traffic_conforms (g_midi_sysex_channel (midi dev_example)) Idle (pending dev_example)" by code_simp
  then show ?thesis
    using awaits_config_example dev_wf_dev_example
    by (simp add: awaits_command_def out_wf_def dev_example_def dev_init_def midi_init_def usb_example_def)
qed

theorem receive_in_order_bounded_witness:
  "case Midifighter_GetIncomingUsbMidiMessages packet_example (config_example, dev_example) of
     Inr (g', d') \<Rightarrow> pending d' = [] | Inl e \<Rightarrow> e = Bootloader"
proof -
  have q: "pending dev_example = [packet_example, packet_example\<lparr>Event := 8, Data1 := 0x82, Data3 := 0\<rparr>]" by code_simp
  have "USB_DeviceState (usb (midi dev_example)) = DEVICE_STATE_Configured" by code_simp
  with fw_wf_example have "case Midifighter_GetIncomingUsbMidiMessages packet_example (config_example, dev_example) of
      Inr (g', d') \<Rightarrow> fw_wf (g', d') \<and> pending d' = drop 512 (pending dev_example) \<and> key_g d' = key_g dev_example
        \<and> combo_g d' = combo_g dev_example \<and> USB_DeviceState (usb (midi d')) = DEVICE_STATE_Configured
    | Inl e \<Rightarrow> e = Bootloader" by (rule receive_in_order_bounded)
  then show ?thesis unfolding q by (simp split: sum.splits prod.splits)
qed

section \<open>The record of a key's bank\<close>

lemma service_combos_key: "service_combos d = Inr d' \<Longrightarrow> key_g d' = key_g d"
  by (auto simp: service_combos_def andthen_Inr_iff Let_def split: if_splits option.splits)

lemma task_rest_record:
  assumes "dev_wf d" "i < 64"
  shows "runs (combo_stuck (combo_g d)) (\<lambda>d'. bit (g_key_down (key_g d')) i
      \<or> bit (g_key_bank_last_up (key_g d')) i = bit (g_key_bank_last_up (key_g d)) i) (task_rest level d)"
proof (cases "task_rest level d")
  case (Inl e)
  then show ?thesis using task_rest_runs [OF assms(1), of level] by simp
next
  case (Inr d')
  then obtain d1 d2 d3 where r: "service_keys d = Inr d1" "service_combos d1 = Inr d2"
      "refresh_display level (d2\<lparr>midi := flushed (midi d2)\<rparr>) = Inr d3" "d' = d3\<lparr>watchdog_flag := True\<rparr>"
    by (auto simp: task_rest_def andthen_Inr_iff)
  have d1: "dev_wf d1" "bit (g_key_down (key_g d1)) i
      \<or> bit (g_key_bank_last_up (key_g d1)) i = bit (g_key_bank_last_up (key_g d)) i"
    using service_keys_record [OF assms] r(1) by simp_all
  have "dev_wf d2" using service_combos_runs [OF d1(1)] r(2) by (simp add: task_ok_def)
  then have "dev_wf (d2\<lparr>midi := flushed (midi d2)\<rparr>)" by (rule task_ok_wf [OF flushed_ok])
  from refresh_display_record [OF this, of level] r(3) service_combos_key [OF r(2)]
  have "g_key_down (key_g d3) = g_key_down (key_g d1)" "g_key_bank_last_up (key_g d3) = g_key_bank_last_up (key_g d1)"
    by (simp_all add: same_record_def)
  then show ?thesis using d1(2) Inr r(4) by simp
qed



end
