(* ===== verification/Mf_Control.thy ===== *)
theory Mf_Control
  imports Mf_Descriptors Mf_System
begin

unbundle bit_operations_syntax

text \<open>
  The device side of LUFA's control endpoint: the standard requests of \<^verbatim>\<open>DeviceStandardReq.c\<close> over the
  control write of \<^verbatim>\<open>Template_Endpoint_Control_W.c\<close>, endpoint configuration and the status stage of
  \<^verbatim>\<open>Endpoint_AVR8.c\<close>, the general USB interrupt of \<^verbatim>\<open>USBInterrupt_AVR8.c\<close>, initialisation and shut-down in
  \<^verbatim>\<open>USBController_AVR8.c\<close> and \<^verbatim>\<open>USB_USBTask\<close>, composed with the firmware to the endless loop of \<^verbatim>\<open>main\<close>.

  The registers of the USB controller are the state, one record per endpoint; \<open>UENUM\<close> says which endpoint the
  code talks to.  The host and the controller act through a list of events, of which every turn of a wait loop
  takes one: the host fetches a packet, sends the packet of a status stage or a SETUP packet, or the controller
  raises interrupt flags, which the interrupt handler then serves.  A loop that still turns when the events end
  is the stop \<^const>\<open>Hang\<close>.  The data banks of the streaming endpoints are those of \<^verbatim>\<open>Mf_Usb\<close>; that the
  controller empties them when the bus is reset or an endpoint configured again is a step of the system (\<open>bank_reset\<close>),
  and what a halted endpoint answers is part of the return codes of the waits there.  The PLL is ready once it
  has been switched on.  The options are those of \<^verbatim>\<open>makefile\<close>: full speed, regulator on, automatic PLL.
\<close>

section \<open>Registers\<close>

record USB_Request_Header_t =
  bmRequestType :: u8
  bRequest :: u8
  wValue :: u16
  wIndex :: u16
  wLength :: u16

text \<open>\<open>UEDATX_in\<close> is what the bank holds for the device to read, \<open>UEDATX_out\<close> what the device has written into it and
  \<open>sent\<close> the packets given to the host.\<close>

record endpoint_regs =
  EPEN :: bool
  STALLRQ :: bool
  UECFG0X :: u8
  UECFG1X :: u8
  UEIENX :: u8
  RXSTPI :: bool
  RXOUTI :: bool
  TXINI :: bool
  UEDATX_in :: "u8 list"
  UEDATX_out :: "u8 list"
  sent :: "u8 list list"

datatype usb_int = USB_INT_VBUSTI | USB_INT_WAKEUPI | USB_INT_SUSPI | USB_INT_EORSTI | USB_INT_SOFI

text \<open>What happens on the bus while the device waits.\<close>

datatype bus_event =
    Quiet
  | Fetch_IN
  | OUT_packet
  | SETUP_packet "u8 list"
  | Usb_Interrupt "usb_int \<Rightarrow> bool" bool

record control =
  fw_dev :: dev
  USB_ControlRequest :: USB_Request_Header_t
  USB_Device_ConfigurationNumber :: u8
  USB_Device_CurrentlySelfPowered :: bool
  USB_Device_RemoteWakeupEnabled :: bool
  USB_IsInitialized :: bool
  UDADDR :: u8
  UENUM :: u8
  endpoint :: "u8 \<Rightarrow> endpoint_regs"
  int_flag :: "usb_int \<Rightarrow> bool"
  int_enabled :: "usb_int \<Rightarrow> bool"
  VBUS :: bool
  DETACH :: bool
  LSM :: bool
  FRZCLK :: bool
  USBE :: bool
  PLLE :: bool
  UVREGE :: bool
  OTGPADE :: bool
  PLLFRQ :: u8
  events :: "bus_event list"

text \<open>
  Two things the code reads from the chip are parameters: the bytes of the signature row, and whether the
  controller could allocate the memory of an endpoint for the configuration in its two registers.
\<close>

record avr =
  boot_signature_byte_get :: "u8 \<Rightarrow> u8"
  CFGOK :: "u8 \<Rightarrow> u8 \<Rightarrow> u8 \<Rightarrow> bool"

definition DeviceState :: "control \<Rightarrow> usb_device_state" where
  "DeviceState c = USB_DeviceState (usb (midi (fw_dev c)))"

definition set_DeviceState :: "usb_device_state \<Rightarrow> control \<Rightarrow> control" where
  "set_DeviceState st c = c\<lparr>fw_dev := set_usb_state st (fw_dev c)\<rparr>"

section \<open>Constants\<close>

definition CONTROL_REQTYPE_RECIPIENT :: u8 where "CONTROL_REQTYPE_RECIPIENT = 0x1F"
definition REQDIR_HOSTTODEVICE :: u8 where "REQDIR_HOSTTODEVICE = 0"
definition REQDIR_DEVICETOHOST :: u8 where "REQDIR_DEVICETOHOST = 0x80"
definition REQTYPE_STANDARD :: u8 where "REQTYPE_STANDARD = 0"
definition REQREC_DEVICE :: u8 where "REQREC_DEVICE = 0"
definition REQREC_INTERFACE :: u8 where "REQREC_INTERFACE = 1"
definition REQREC_ENDPOINT :: u8 where "REQREC_ENDPOINT = 2"
definition REQ_GetStatus :: u8 where "REQ_GetStatus = 0"
definition REQ_ClearFeature :: u8 where "REQ_ClearFeature = 1"
definition REQ_SetFeature :: u8 where "REQ_SetFeature = 3"
definition REQ_SetAddress :: u8 where "REQ_SetAddress = 5"
definition REQ_GetDescriptor :: u8 where "REQ_GetDescriptor = 6"
definition REQ_GetConfiguration :: u8 where "REQ_GetConfiguration = 8"
definition REQ_SetConfiguration :: u8 where "REQ_SetConfiguration = 9"
definition FEATURE_SEL_EndpointHalt :: u8 where "FEATURE_SEL_EndpointHalt = 0"
definition FEATURE_SEL_DeviceRemoteWakeup :: u8 where "FEATURE_SEL_DeviceRemoteWakeup = 1"
definition FEATURE_SELFPOWERED_ENABLED :: u8 where "FEATURE_SELFPOWERED_ENABLED = 1"
definition FEATURE_REMOTE_WAKEUP_ENABLED :: u8 where "FEATURE_REMOTE_WAKEUP_ENABLED = 2"
definition ENDPOINT_CONTROLEP :: u8 where "ENDPOINT_CONTROLEP = 0"
definition ENDPOINT_EPNUM_MASK :: u8 where "ENDPOINT_EPNUM_MASK = 0x0F"
definition ENDPOINT_TOTAL_ENDPOINTS :: u8 where "ENDPOINT_TOTAL_ENDPOINTS = 7"
definition EP_TYPE_CONTROL :: u8 where "EP_TYPE_CONTROL = 0"
definition FIXED_CONTROL_ENDPOINT_SIZE :: nat where "FIXED_CONTROL_ENDPOINT_SIZE = 64"
definition FIXED_NUM_CONFIGURATIONS :: u8 where "FIXED_NUM_CONFIGURATIONS = 1"
definition USE_INTERNAL_SERIAL :: u8 where "USE_INTERNAL_SERIAL = 0xDC"
definition INTERNAL_SERIAL_LENGTH_BITS :: nat where "INTERNAL_SERIAL_LENGTH_BITS = 80"
definition INTERNAL_SERIAL_START_ADDRESS :: u8 where "INTERNAL_SERIAL_START_ADDRESS = 0x0E"
definition ENDPOINT_RWCSTREAM_NoError :: u8 where "ENDPOINT_RWCSTREAM_NoError = 0"
definition ENDPOINT_RWCSTREAM_HostAborted :: u8 where "ENDPOINT_RWCSTREAM_HostAborted = 1"
definition ENDPOINT_RWCSTREAM_DeviceDisconnected :: u8 where "ENDPOINT_RWCSTREAM_DeviceDisconnected = 2"
definition ENDPOINT_RWCSTREAM_BusSuspended :: u8 where "ENDPOINT_RWCSTREAM_BusSuspended = 3"

lemmas control_constants = CONTROL_REQTYPE_RECIPIENT_def REQDIR_HOSTTODEVICE_def REQDIR_DEVICETOHOST_def
  REQTYPE_STANDARD_def REQREC_DEVICE_def REQREC_INTERFACE_def REQREC_ENDPOINT_def REQ_GetStatus_def
  REQ_ClearFeature_def REQ_SetFeature_def REQ_SetAddress_def REQ_GetDescriptor_def REQ_GetConfiguration_def
  REQ_SetConfiguration_def FEATURE_SEL_EndpointHalt_def FEATURE_SEL_DeviceRemoteWakeup_def
  ENDPOINT_CONTROLEP_def

section \<open>The selected endpoint\<close>

definition Endpoint_SelectEndpoint :: "u8 \<Rightarrow> control \<Rightarrow> control" where
  "Endpoint_SelectEndpoint Address c = c\<lparr>UENUM := Address AND ENDPOINT_EPNUM_MASK\<rparr>"

definition cur :: "control \<Rightarrow> endpoint_regs" where
  "cur c = endpoint c (UENUM c)"

definition set_cur :: "(endpoint_regs \<Rightarrow> endpoint_regs) \<Rightarrow> control \<Rightarrow> control" where
  "set_cur f c = c\<lparr>endpoint := (endpoint c)(UENUM c := f (cur c))\<rparr>"

definition Endpoint_GetEndpointDirection :: "control \<Rightarrow> u8" where
  "Endpoint_GetEndpointDirection c = (if UECFG0X (cur c) AND 1 \<noteq> 0 then ENDPOINT_DIR_IN else ENDPOINT_DIR_OUT)"

definition Endpoint_GetCurrentEndpoint :: "control \<Rightarrow> u8" where
  "Endpoint_GetCurrentEndpoint c = (UENUM c AND ENDPOINT_EPNUM_MASK) OR Endpoint_GetEndpointDirection c"

text \<open>Resetting an endpoint empties its bank, here one of the two streaming banks.  The data toggle is not part of the state.\<close>

definition Endpoint_ResetEndpoint :: "u8 \<Rightarrow> control \<Rightarrow> control" where
  "Endpoint_ResetEndpoint Address c =
     (let n = Address AND ENDPOINT_EPNUM_MASK
      in if n = MIDI_STREAM_IN_EPNUM then c\<lparr>fw_dev := empty_bank True (fw_dev c)\<rparr>
         else if n = MIDI_STREAM_OUT_EPNUM then c\<lparr>fw_dev := empty_bank False (fw_dev c)\<rparr>
         else c)"

definition Endpoint_EnableEndpoint :: "control \<Rightarrow> control" where
  "Endpoint_EnableEndpoint = set_cur (\<lambda>e. e\<lparr>EPEN := True\<rparr>)"

definition Endpoint_DisableEndpoint :: "control \<Rightarrow> control" where
  "Endpoint_DisableEndpoint = set_cur (\<lambda>e. e\<lparr>EPEN := False\<rparr>)"

definition Endpoint_IsEnabled :: "control \<Rightarrow> bool" where
  "Endpoint_IsEnabled c = EPEN (cur c)"

definition Endpoint_IsConfigured :: "avr \<Rightarrow> control \<Rightarrow> bool" where
  "Endpoint_IsConfigured h c = CFGOK h (UENUM c) (UECFG0X (cur c)) (UECFG1X (cur c))"

definition Endpoint_IsINReady :: "control \<Rightarrow> bool" where
  "Endpoint_IsINReady c = TXINI (cur c)"

definition OUTReceived :: "control \<Rightarrow> bool" where
  "OUTReceived c = RXOUTI (cur c)"

definition Endpoint_IsSETUPReceived :: "control \<Rightarrow> bool" where
  "Endpoint_IsSETUPReceived c = RXSTPI (cur c)"

definition Endpoint_ClearSETUP :: "control \<Rightarrow> control" where
  "Endpoint_ClearSETUP = set_cur (\<lambda>e. e\<lparr>RXSTPI := False\<rparr>)"

definition ClearIN :: "control \<Rightarrow> control" where
  "ClearIN = set_cur (\<lambda>e. e\<lparr>TXINI := False, sent := sent e @ [UEDATX_out e], UEDATX_out := []\<rparr>)"

definition ClearOUT :: "control \<Rightarrow> control" where
  "ClearOUT = set_cur (\<lambda>e. e\<lparr>RXOUTI := False\<rparr>)"

definition Endpoint_StallTransaction :: "control \<Rightarrow> control" where
  "Endpoint_StallTransaction = set_cur (\<lambda>e. e\<lparr>STALLRQ := True\<rparr>)"

definition Endpoint_ClearStall :: "control \<Rightarrow> control" where
  "Endpoint_ClearStall = set_cur (\<lambda>e. e\<lparr>STALLRQ := False\<rparr>)"

definition Endpoint_IsStalled :: "control \<Rightarrow> bool" where
  "Endpoint_IsStalled c = STALLRQ (cur c)"

definition Endpoint_Write_8 :: "u8 \<Rightarrow> control \<Rightarrow> control" where
  "Endpoint_Write_8 b = set_cur (\<lambda>e. e\<lparr>UEDATX_out := UEDATX_out e @ [b]\<rparr>)"

definition Endpoint_Write_16_LE :: "u16 \<Rightarrow> control \<Rightarrow> control" where
  "Endpoint_Write_16_LE w c = Endpoint_Write_8 (ucast (drop_bit 8 w)) (Endpoint_Write_8 (ucast (w AND 0xFF)) c)"


section \<open>Configuration of the endpoints\<close>

text \<open>The size of a bank as the controller encodes it: how many of the values that \<open>CheckBytes\<close> takes are too small.  (The loop
  does not end for a size above 32768; the firmware asks for 64.)\<close>

definition Endpoint_BytesToEPSizeMask :: "u16 \<Rightarrow> u8" where
  "Endpoint_BytesToEPSizeMask Bytes =
     push_bit 4 (of_nat (length (takeWhile (\<lambda>CheckBytes. CheckBytes < Bytes) (map (\<lambda>k. push_bit k 8) [0..<13]))))"

fun configure_from :: "avr \<Rightarrow> u8 \<Rightarrow> u8 \<Rightarrow> u8 \<Rightarrow> u8 list \<Rightarrow> control \<Rightarrow> bool \<times> control" where
  "configure_from h Number UECFG0XData UECFG1XData [] c = (True, Endpoint_SelectEndpoint Number c)"
| "configure_from h Number UECFG0XData UECFG1XData (EPNum # ns) c =
     (let c = Endpoint_SelectEndpoint EPNum c;
          (UECFG0XTemp, UECFG1XTemp, UEIENXTemp) =
            (if EPNum = Number then (UECFG0XData, UECFG1XData, 0) else (UECFG0X (cur c), UECFG1X (cur c), UEIENX (cur c)))
      in if UECFG1XTemp AND 2 = 0 then configure_from h Number UECFG0XData UECFG1XData ns c
         else let c = set_cur (\<lambda>e. e\<lparr>UECFG1X := UECFG1X e AND NOT 2\<rparr>) (Endpoint_DisableEndpoint c);
                  c = set_cur (\<lambda>e. e\<lparr>UECFG0X := UECFG0XTemp, UECFG1X := UECFG1XTemp, UEIENX := UEIENXTemp\<rparr>)
                        (Endpoint_EnableEndpoint c)
              in if \<not> Endpoint_IsConfigured h c then (False, c)
                 else configure_from h Number UECFG0XData UECFG1XData ns c)"

definition Endpoint_ConfigureEndpoint_Prv :: "avr \<Rightarrow> u8 \<Rightarrow> u8 \<Rightarrow> u8 \<Rightarrow> control \<Rightarrow> bool \<times> control" where
  "Endpoint_ConfigureEndpoint_Prv h Number UECFG0XData UECFG1XData =
     configure_from h Number UECFG0XData UECFG1XData (map of_nat [unat Number..<unat ENDPOINT_TOTAL_ENDPOINTS])"

definition Endpoint_ConfigureEndpoint :: "avr \<Rightarrow> u8 \<Rightarrow> u8 \<Rightarrow> u16 \<Rightarrow> u8 \<Rightarrow> control \<Rightarrow> bool \<times> control" where
  "Endpoint_ConfigureEndpoint h Address Type Size Banks c =
     (let Number = Address AND ENDPOINT_EPNUM_MASK
      in if Number \<ge> ENDPOINT_TOTAL_ENDPOINTS then (False, c)
         else Endpoint_ConfigureEndpoint_Prv h Number
                (push_bit 6 Type OR (if Address AND ENDPOINT_DIR_IN \<noteq> 0 then 1 else 0))
                (2 OR (if Banks > 1 then 4 else 0) OR Endpoint_BytesToEPSizeMask Size) c)"

record USB_Endpoint_Table_t =
  ep_Address :: u8
  ep_Size :: u16
  ep_Type :: u8
  ep_Banks :: u8

fun Endpoint_ConfigureEndpointTable :: "avr \<Rightarrow> USB_Endpoint_Table_t list \<Rightarrow> control \<Rightarrow> bool \<times> control" where
  "Endpoint_ConfigureEndpointTable h [] c = (True, c)"
| "Endpoint_ConfigureEndpointTable h (t # ts) c =
     (if ep_Address t = 0 then Endpoint_ConfigureEndpointTable h ts c
      else let (r, c) = Endpoint_ConfigureEndpoint h (ep_Address t) (ep_Type t) (ep_Size t) (ep_Banks t) c
           in if \<not> r then (False, c) else Endpoint_ConfigureEndpointTable h ts c)"

definition MIDI_STREAM_IN_EPADDR :: u8 where "MIDI_STREAM_IN_EPADDR = ENDPOINT_DIR_IN OR MIDI_STREAM_IN_EPNUM"
definition MIDI_STREAM_OUT_EPADDR :: u8 where "MIDI_STREAM_OUT_EPADDR = ENDPOINT_DIR_OUT OR MIDI_STREAM_OUT_EPNUM"

text \<open>The two endpoint entries of \<^verbatim>\<open>s_midi_interface\<close>, with the type that \<^verbatim>\<open>MIDI_Device_ConfigureEndpoints\<close> stores in them.\<close>

definition DataINEndpoint :: USB_Endpoint_Table_t where
  "DataINEndpoint = \<lparr>ep_Address = MIDI_STREAM_IN_EPADDR, ep_Size = 64, ep_Type = EP_TYPE_BULK, ep_Banks = 1\<rparr>"

definition DataOUTEndpoint :: USB_Endpoint_Table_t where
  "DataOUTEndpoint = \<lparr>ep_Address = MIDI_STREAM_OUT_EPADDR, ep_Size = 64, ep_Type = EP_TYPE_BULK, ep_Banks = 1\<rparr>"

definition MIDI_Device_ConfigureEndpoints :: "avr \<Rightarrow> control \<Rightarrow> bool \<times> control" where
  "MIDI_Device_ConfigureEndpoints h c =
     (let (r, c) = Endpoint_ConfigureEndpointTable h [DataINEndpoint] c
      in if \<not> r then (False, c)
         else let (r, c) = Endpoint_ConfigureEndpointTable h [DataOUTEndpoint] c
              in if \<not> r then (False, c) else (True, c))"

definition ConfigurationChanged :: "avr \<Rightarrow> control \<Rightarrow> control" where
  "ConfigurationChanged h c =
     (let (configured, c) = MIDI_Device_ConfigureEndpoints h c
      in c\<lparr>fw_dev := EVENT_USB_Device_ConfigurationChanged configured (fw_dev c)\<rparr>)"

section \<open>The USB interrupt\<close>

definition USB_INT_Enable :: "usb_int \<Rightarrow> control \<Rightarrow> control" where
  "USB_INT_Enable i c = c\<lparr>int_enabled := (int_enabled c)(i := True)\<rparr>"

definition USB_INT_Disable :: "usb_int \<Rightarrow> control \<Rightarrow> control" where
  "USB_INT_Disable i c = c\<lparr>int_enabled := (int_enabled c)(i := False)\<rparr>"

definition USB_INT_Clear :: "usb_int \<Rightarrow> control \<Rightarrow> control" where
  "USB_INT_Clear i c = c\<lparr>int_flag := (int_flag c)(i := False)\<rparr>"

definition USB_INT_DisableAllInterrupts :: "control \<Rightarrow> control" where
  "USB_INT_DisableAllInterrupts c = c\<lparr>int_enabled := \<lambda>_. False\<rparr>"

definition USB_INT_ClearAllInterrupts :: "control \<Rightarrow> control" where
  "USB_INT_ClearAllInterrupts c = c\<lparr>int_flag := \<lambda>_. False\<rparr>"

definition int_due :: "usb_int \<Rightarrow> control \<Rightarrow> bool" where
  "int_due i c \<longleftrightarrow> int_flag c i \<and> int_enabled c i"

definition USB_Device_IsAddressSet :: "control \<Rightarrow> bool" where
  "USB_Device_IsAddressSet c \<longleftrightarrow> UDADDR c AND 0x80 \<noteq> 0"

definition vbus_changed :: "control \<Rightarrow> control" where
  "vbus_changed c =
     (let c = USB_INT_Clear USB_INT_VBUSTI c
      in if VBUS c
         then let c = set_DeviceState DEVICE_STATE_Powered (c\<lparr>PLLE := True\<rparr>)
              in c\<lparr>fw_dev := EVENT_USB_Device_Connect (fw_dev c)\<rparr>
         else let c = set_DeviceState DEVICE_STATE_Unattached (c\<lparr>PLLE := False\<rparr>)
              in c\<lparr>fw_dev := EVENT_USB_Device_Disconnect (fw_dev c)\<rparr>)"

definition suspended :: "control \<Rightarrow> control" where
  "suspended c =
     (let c = USB_INT_Enable USB_INT_WAKEUPI (USB_INT_Disable USB_INT_SUSPI c)
      in set_DeviceState DEVICE_STATE_Suspended (c\<lparr>FRZCLK := True, PLLE := False\<rparr>))"

definition woken_up :: "control \<Rightarrow> control" where
  "woken_up c =
     (let c = USB_INT_Clear USB_INT_WAKEUPI (c\<lparr>PLLE := True, FRZCLK := False\<rparr>);
          c = USB_INT_Enable USB_INT_SUSPI (USB_INT_Disable USB_INT_WAKEUPI c)
      in if USB_Device_ConfigurationNumber c \<noteq> 0 then set_DeviceState DEVICE_STATE_Configured c
         else set_DeviceState (if USB_Device_IsAddressSet c then DEVICE_STATE_Addressed else DEVICE_STATE_Powered) c)"

definition end_of_reset :: "avr \<Rightarrow> control \<Rightarrow> control" where
  "end_of_reset h c =
     (let c = USB_INT_Clear USB_INT_EORSTI c;
          c = (set_DeviceState DEVICE_STATE_Default c)\<lparr>USB_Device_ConfigurationNumber := 0\<rparr>;
          c = USB_INT_Enable USB_INT_WAKEUPI (USB_INT_Disable USB_INT_SUSPI (USB_INT_Clear USB_INT_SUSPI c))
      in snd (Endpoint_ConfigureEndpoint h ENDPOINT_CONTROLEP EP_TYPE_CONTROL (of_nat FIXED_CONTROL_ENDPOINT_SIZE) 1 c))"

definition USB_GEN_vect :: "avr \<Rightarrow> control \<Rightarrow> control" where
  "USB_GEN_vect h c =
     (let c = (if int_due USB_INT_SOFI c then USB_INT_Clear USB_INT_SOFI c else c);
          c = (if int_due USB_INT_VBUSTI c then vbus_changed c else c);
          c = (if int_due USB_INT_SUSPI c then suspended c else c);
          c = (if int_due USB_INT_WAKEUPI c then woken_up c else c)
      in if int_due USB_INT_EORSTI c then end_of_reset h c else c)"

text \<open>
  One event.  The controller clears the device address when it sees a bus reset, and takes back a stall of the control
  endpoint when the next SETUP packet arrives.
\<close>

definition on_endpoint0 :: "(endpoint_regs \<Rightarrow> endpoint_regs) \<Rightarrow> control \<Rightarrow> control" where
  "on_endpoint0 f c = c\<lparr>endpoint := (endpoint c)(0 := f (endpoint c 0))\<rparr>"

fun bus :: "avr \<Rightarrow> bus_event \<Rightarrow> control \<Rightarrow> control" where
  "bus h Quiet c = c"
| "bus h Fetch_IN c = on_endpoint0 (\<lambda>e. e\<lparr>TXINI := True\<rparr>) c"
| "bus h OUT_packet c = on_endpoint0 (\<lambda>e. e\<lparr>RXOUTI := True\<rparr>) c"
| "bus h (SETUP_packet bs) c = on_endpoint0 (\<lambda>e. e\<lparr>RXSTPI := True, STALLRQ := False, UEDATX_in := bs\<rparr>) c"
| "bus h (Usb_Interrupt flags vbus) c =
     USB_GEN_vect h (c\<lparr>int_flag := flags, VBUS := vbus, UDADDR := (if flags USB_INT_EORSTI then 0 else UDADDR c)\<rparr>)"


section \<open>Waiting\<close>

text \<open>Turn until \<open>ready\<close>, or leave early; the result says which.\<close>

fun wait_until :: "avr \<Rightarrow> (control \<Rightarrow> bool) \<Rightarrow> (control \<Rightarrow> bool) \<Rightarrow> bus_event list \<Rightarrow> control \<Rightarrow> (bool \<times> control) run" where
  "wait_until h ready leave [] c =
     (if ready c then Inr (True, c\<lparr>events := []\<rparr>) else if leave c then Inr (False, c\<lparr>events := []\<rparr>) else Inl Hang)"
| "wait_until h ready leave (e # es) c =
     (if ready c then Inr (True, c\<lparr>events := e # es\<rparr>) else if leave c then Inr (False, c\<lparr>events := e # es\<rparr>)
      else wait_until h ready leave es (bus h e c))"

definition unattached :: "control \<Rightarrow> bool" where
  "unattached c \<longleftrightarrow> DeviceState c = DEVICE_STATE_Unattached"

definition Endpoint_ClearStatusStage :: "avr \<Rightarrow> control \<Rightarrow> control run" where
  "Endpoint_ClearStatusStage h c =
     (if bmRequestType (USB_ControlRequest c) AND REQDIR_DEVICETOHOST \<noteq> 0
      then andthen (wait_until h OUTReceived unattached (events c) c) (\<lambda>(r, c). Inr (if r then ClearOUT c else c))
      else andthen (wait_until h Endpoint_IsINReady unattached (events c) c) (\<lambda>(r, c). Inr (if r then ClearIN c else c)))"

section \<open>The control write\<close>

text \<open>Bytes into the bank until it is full or nothing is left; reading behind the buffer is the stop \<^const>\<open>Out_Of_Bounds\<close>.\<close>

fun fill_bank :: "u8 list \<Rightarrow> u16 \<Rightarrow> control \<Rightarrow> (u8 list \<times> u16 \<times> control) run" where
  "fill_bank [] Length c =
     (if Length \<noteq> 0 \<and> length (UEDATX_out (cur c)) < FIXED_CONTROL_ENDPOINT_SIZE then Inl Out_Of_Bounds
      else Inr ([], Length, c))"
| "fill_bank (b # DataStream) Length c =
     (if Length \<noteq> 0 \<and> length (UEDATX_out (cur c)) < FIXED_CONTROL_ENDPOINT_SIZE
      then fill_bank DataStream (Length - 1) (Endpoint_Write_8 b c)
      else Inr (b # DataStream, Length, c))"

definition stream_abort :: "control \<Rightarrow> u8 option" where
  "stream_abort c =
     (if DeviceState c = DEVICE_STATE_Unattached then Some ENDPOINT_RWCSTREAM_DeviceDisconnected
      else if DeviceState c = DEVICE_STATE_Suspended then Some ENDPOINT_RWCSTREAM_BusSuspended
      else if Endpoint_IsSETUPReceived c then Some ENDPOINT_RWCSTREAM_HostAborted
      else None)"

definition wait_OUT :: "avr \<Rightarrow> bus_event list \<Rightarrow> control \<Rightarrow> (u8 \<times> control) run" where
  "wait_OUT h es c =
     andthen (wait_until h OUTReceived (\<lambda>c. stream_abort c \<noteq> None) es c) (\<lambda>(r, c).
     Inr (if r then ENDPOINT_RWCSTREAM_NoError else the (stream_abort c), c))"

text \<open>The body of one turn: nothing while the host has not fetched the last packet, else the next packet.\<close>

definition write_turn :: "u8 list \<Rightarrow> u16 \<Rightarrow> bool \<Rightarrow> control \<Rightarrow> (u8 list \<times> u16 \<times> bool \<times> control) run" where
  "write_turn DataStream Length LastPacketFull c =
     (if Endpoint_IsINReady c
      then andthen (fill_bank DataStream Length c) (\<lambda>(DataStream, Length, c).
           Inr (DataStream, Length, length (UEDATX_out (cur c)) = FIXED_CONTROL_ENDPOINT_SIZE, ClearIN c))
      else Inr (DataStream, Length, LastPacketFull, c))"

fun control_loop :: "avr \<Rightarrow> bus_event list \<Rightarrow> u8 list \<Rightarrow> u16 \<Rightarrow> bool \<Rightarrow> control \<Rightarrow> (u8 \<times> control) run" where
  "control_loop h es DataStream Length LastPacketFull c =
     (if Length = 0 \<and> \<not> LastPacketFull then wait_OUT h es c
      else case stream_abort c of
        Some r \<Rightarrow> Inr (r, c\<lparr>events := es\<rparr>)
      | None \<Rightarrow>
          if OUTReceived c then wait_OUT h es c
          else case write_turn DataStream Length LastPacketFull c of
            Inl e \<Rightarrow> Inl e
          | Inr (DataStream, Length, LastPacketFull, c) \<Rightarrow>
              (case es of
                 [] \<Rightarrow> if Length = 0 \<and> \<not> LastPacketFull then wait_OUT h [] c else Inl Hang
               | e # es \<Rightarrow> control_loop h es DataStream Length LastPacketFull (bus h e c)))"

declare control_loop.simps [simp del]

definition Endpoint_Write_Control_Stream_LE :: "avr \<Rightarrow> u8 list \<Rightarrow> u16 \<Rightarrow> control \<Rightarrow> (u8 \<times> control) run" where
  "Endpoint_Write_Control_Stream_LE h Buffer Length c =
     (let (Length, c) = (if Length > wLength (USB_ControlRequest c) then (wLength (USB_ControlRequest c), c)
                         else if Length = 0 then (Length, ClearIN c) else (Length, c))
      in control_loop h (events c) Buffer Length False c)"

text \<open>The same template, reading its bytes from the flash.\<close>

definition Endpoint_Write_Control_PStream_LE :: "avr \<Rightarrow> u8 list \<Rightarrow> u16 \<Rightarrow> control \<Rightarrow> (u8 \<times> control) run" where
  "Endpoint_Write_Control_PStream_LE = Endpoint_Write_Control_Stream_LE"

section \<open>The standard requests\<close>

definition USB_Device_SetDeviceAddress :: "u8 \<Rightarrow> control \<Rightarrow> control" where
  "USB_Device_SetDeviceAddress Address c = c\<lparr>UDADDR := (UDADDR c AND 0x80) OR (Address AND 0x7F)\<rparr>"

definition USB_Device_EnableDeviceAddress :: "control \<Rightarrow> control" where
  "USB_Device_EnableDeviceAddress c = c\<lparr>UDADDR := UDADDR c OR 0x80\<rparr>"

definition USB_Device_SetAddress :: "avr \<Rightarrow> control \<Rightarrow> control run" where
  "USB_Device_SetAddress h c =
     (let DeviceAddress = ucast (wValue (USB_ControlRequest c) AND 0x7F);
          c = Endpoint_ClearSETUP (USB_Device_SetDeviceAddress DeviceAddress c)
      in andthen (Endpoint_ClearStatusStage h c) (\<lambda>c.
         andthen (wait_until h Endpoint_IsINReady (\<lambda>_. False) (events c) c) (\<lambda>(_, c).
         Inr (set_DeviceState (if DeviceAddress \<noteq> 0 then DEVICE_STATE_Addressed else DEVICE_STATE_Default)
                (USB_Device_EnableDeviceAddress c)))))"

definition USB_Device_SetConfiguration :: "avr \<Rightarrow> control \<Rightarrow> control run" where
  "USB_Device_SetConfiguration h c =
     (if (ucast (wValue (USB_ControlRequest c)) :: u8) > FIXED_NUM_CONFIGURATIONS then Inr c
      else let c = Endpoint_ClearSETUP c;
               c = c\<lparr>USB_Device_ConfigurationNumber := ucast (wValue (USB_ControlRequest c))\<rparr>
           in andthen (Endpoint_ClearStatusStage h c) (\<lambda>c.
              let c = (if USB_Device_ConfigurationNumber c \<noteq> 0 then set_DeviceState DEVICE_STATE_Configured c
                       else set_DeviceState (if USB_Device_IsAddressSet c then DEVICE_STATE_Configured
                                             else DEVICE_STATE_Powered) c)
              in Inr (ConfigurationChanged h c)))"

definition USB_Device_GetConfiguration :: "avr \<Rightarrow> control \<Rightarrow> control run" where
  "USB_Device_GetConfiguration h c =
     (let c = Endpoint_ClearSETUP c
      in Endpoint_ClearStatusStage h (ClearIN (Endpoint_Write_8 (USB_Device_ConfigurationNumber c) c)))"

definition serial_char :: "avr \<Rightarrow> nat \<Rightarrow> u16" where
  "serial_char h SerialCharNum =
     (let SerialByte = boot_signature_byte_get h (INTERNAL_SERIAL_START_ADDRESS + of_nat (SerialCharNum div 2));
          SerialByte = (if odd SerialCharNum then drop_bit 4 SerialByte else SerialByte) AND 0x0F
      in if SerialByte \<ge> 10 then (65 - 10) + ucast SerialByte else 48 + ucast SerialByte)"

definition USB_Device_GetSerialString :: "avr \<Rightarrow> u16 list" where
  "USB_Device_GetSerialString h = map (serial_char h) [0..<INTERNAL_SERIAL_LENGTH_BITS div 4]"

definition SignatureDescriptor :: "avr \<Rightarrow> descriptor" where
  "SignatureDescriptor h =
     USB_Descriptor_String_t (USB_STRING_LEN (INTERNAL_SERIAL_LENGTH_BITS div 4)) DTYPE_String (USB_Device_GetSerialString h)"

definition USB_Device_GetInternalSerialDescriptor :: "avr \<Rightarrow> control \<Rightarrow> control run" where
  "USB_Device_GetInternalSerialDescriptor h c =
     (let bs = descriptor_bytes (SignatureDescriptor h)
      in andthen (Endpoint_Write_Control_Stream_LE h bs (of_nat (length bs)) (Endpoint_ClearSETUP c)) (\<lambda>(_, c). Inr (ClearOUT c)))"

definition USB_Device_GetDescriptor :: "avr \<Rightarrow> control \<Rightarrow> control run" where
  "USB_Device_GetDescriptor h c =
     (if wValue (USB_ControlRequest c) = push_bit 8 (ucast DTYPE_String) OR ucast USE_INTERNAL_SERIAL
      then USB_Device_GetInternalSerialDescriptor h c
      else case CALLBACK_USB_GetDescriptor (wValue (USB_ControlRequest c)) (ucast (wIndex (USB_ControlRequest c))) of
        (DescriptorSize, DescriptorPointer) \<Rightarrow>
          if DescriptorSize = ucast NO_DESCRIPTOR then Inr c
          else case DescriptorPointer of
            None \<Rightarrow> Inl Null_Pointer
          | Some bs \<Rightarrow> andthen (Endpoint_Write_Control_PStream_LE h bs DescriptorSize (Endpoint_ClearSETUP c)) (\<lambda>(_, c).
                      Inr (ClearOUT c)))"

definition device_status :: "control \<Rightarrow> u8" where
  "device_status c = (if USB_Device_CurrentlySelfPowered c then FEATURE_SELFPOWERED_ENABLED else 0)
     OR (if USB_Device_RemoteWakeupEnabled c then FEATURE_REMOTE_WAKEUP_ENABLED else 0)"

definition USB_Device_GetStatus :: "avr \<Rightarrow> control \<Rightarrow> control run" where
  "USB_Device_GetStatus h c =
     (let r = bmRequestType (USB_ControlRequest c);
          answer = (\<lambda>CurrentStatus c. Endpoint_ClearStatusStage h (ClearIN (Endpoint_Write_16_LE CurrentStatus (Endpoint_ClearSETUP c))))
      in if r = REQDIR_DEVICETOHOST OR REQTYPE_STANDARD OR REQREC_DEVICE
         then answer (ucast (device_status c)) c
         else if r = REQDIR_DEVICETOHOST OR REQTYPE_STANDARD OR REQREC_ENDPOINT
         then let c = Endpoint_SelectEndpoint (ucast (wIndex (USB_ControlRequest c)) AND ENDPOINT_EPNUM_MASK) c
              in answer (if Endpoint_IsStalled c then 1 else 0) (Endpoint_SelectEndpoint ENDPOINT_CONTROLEP c)
         else Inr c)"

definition halt_feature :: "u8 \<Rightarrow> control \<Rightarrow> control" where
  "halt_feature EndpointIndex c =
     (if \<not> Endpoint_IsEnabled c then c
      else if bRequest (USB_ControlRequest c) = REQ_SetFeature then Endpoint_StallTransaction c
      else Endpoint_ResetEndpoint EndpointIndex (Endpoint_ClearStall c))"

definition USB_Device_ClearSetFeature :: "avr \<Rightarrow> control \<Rightarrow> control run" where
  "USB_Device_ClearSetFeature h c =
     (let recipient = bmRequestType (USB_ControlRequest c) AND CONTROL_REQTYPE_RECIPIENT;
          feature = ucast (wValue (USB_ControlRequest c)) :: u8;
          finish = (\<lambda>c. Endpoint_ClearStatusStage h (Endpoint_ClearSETUP (Endpoint_SelectEndpoint ENDPOINT_CONTROLEP c)))
      in if recipient = REQREC_DEVICE
         then (if feature = FEATURE_SEL_DeviceRemoteWakeup
               then finish (c\<lparr>USB_Device_RemoteWakeupEnabled := (bRequest (USB_ControlRequest c) = REQ_SetFeature)\<rparr>)
               else Inr c)
         else if recipient = REQREC_ENDPOINT
         then (if feature = FEATURE_SEL_EndpointHalt
               then let EndpointIndex = ucast (wIndex (USB_ControlRequest c)) AND ENDPOINT_EPNUM_MASK
                    in if EndpointIndex = ENDPOINT_CONTROLEP then Inr c
                       else finish (halt_feature EndpointIndex (Endpoint_SelectEndpoint EndpointIndex c))
               else finish c)
         else Inr c)"

section \<open>Dispatch\<close>

text \<open>The eight bytes of the header as they lie in the packed struct.\<close>

definition le_word :: "u8 \<Rightarrow> u8 \<Rightarrow> u16" where
  "le_word lo hi = push_bit 8 (ucast hi) OR ucast lo"

definition read_request :: "control \<Rightarrow> control run" where
  "read_request c =
     (case UEDATX_in (cur c) of
        a # b # v0 # v1 # i0 # i1 # l0 # l1 # bs \<Rightarrow>
          Inr ((set_cur (\<lambda>e. e\<lparr>UEDATX_in := bs\<rparr>) c)\<lparr>USB_ControlRequest :=
            \<lparr>bmRequestType = a, bRequest = b, wValue = le_word v0 v1, wIndex = le_word i0 i1, wLength = le_word l0 l1\<rparr>\<rparr>)
      | _ \<Rightarrow> Inl Out_Of_Bounds)"

text \<open>The application does not define this event; LUFA's stub takes its place.\<close>

definition EVENT_USB_Device_ControlRequest :: "control \<Rightarrow> control" where
  "EVENT_USB_Device_ControlRequest c = c"

definition standard_request :: "avr \<Rightarrow> control \<Rightarrow> control run" where
  "standard_request h c =
     (let r = bmRequestType (USB_ControlRequest c); q = bRequest (USB_ControlRequest c)
      in if q = REQ_GetStatus
         then (if r = REQDIR_DEVICETOHOST OR REQTYPE_STANDARD OR REQREC_DEVICE \<or> r = REQDIR_DEVICETOHOST OR REQTYPE_STANDARD OR REQREC_ENDPOINT
               then USB_Device_GetStatus h c else Inr c)
         else if q = REQ_ClearFeature \<or> q = REQ_SetFeature
         then (if r = REQDIR_HOSTTODEVICE OR REQTYPE_STANDARD OR REQREC_DEVICE \<or> r = REQDIR_HOSTTODEVICE OR REQTYPE_STANDARD OR REQREC_ENDPOINT
               then USB_Device_ClearSetFeature h c else Inr c)
         else if q = REQ_SetAddress
         then (if r = REQDIR_HOSTTODEVICE OR REQTYPE_STANDARD OR REQREC_DEVICE then USB_Device_SetAddress h c else Inr c)
         else if q = REQ_GetDescriptor
         then (if r = REQDIR_DEVICETOHOST OR REQTYPE_STANDARD OR REQREC_DEVICE \<or> r = REQDIR_DEVICETOHOST OR REQTYPE_STANDARD OR REQREC_INTERFACE
               then USB_Device_GetDescriptor h c else Inr c)
         else if q = REQ_GetConfiguration
         then (if r = REQDIR_DEVICETOHOST OR REQTYPE_STANDARD OR REQREC_DEVICE then USB_Device_GetConfiguration h c else Inr c)
         else if q = REQ_SetConfiguration
         then (if r = REQDIR_HOSTTODEVICE OR REQTYPE_STANDARD OR REQREC_DEVICE then USB_Device_SetConfiguration h c else Inr c)
         else Inr c)"

definition USB_Device_ProcessControlRequest :: "avr \<Rightarrow> control \<Rightarrow> control run" where
  "USB_Device_ProcessControlRequest h c =
     andthen (read_request c) (\<lambda>c.
     let c = EVENT_USB_Device_ControlRequest c
     in andthen (if Endpoint_IsSETUPReceived c then standard_request h c else Inr c) (\<lambda>c.
        Inr (if Endpoint_IsSETUPReceived c then Endpoint_StallTransaction (Endpoint_ClearSETUP c) else c)))"

definition USB_DeviceTask :: "avr \<Rightarrow> control \<Rightarrow> control run" where
  "USB_DeviceTask h c =
     (if DeviceState c = DEVICE_STATE_Unattached then Inr c
      else let PrevEndpoint = Endpoint_GetCurrentEndpoint c;
               c = Endpoint_SelectEndpoint ENDPOINT_CONTROLEP c
           in andthen (if Endpoint_IsSETUPReceived c then USB_Device_ProcessControlRequest h c else Inr c) (\<lambda>c.
              Inr (Endpoint_SelectEndpoint PrevEndpoint c)))"

definition USB_USBTask :: "avr \<Rightarrow> control \<Rightarrow> control run" where
  "USB_USBTask h c = USB_DeviceTask h c"

section \<open>Initialisation, shut-down and the main loop\<close>

definition USB_Init_Device :: "avr \<Rightarrow> control \<Rightarrow> control" where
  "USB_Init_Device h c =
     (let c = (set_DeviceState DEVICE_STATE_Unattached c)\<lparr>USB_Device_ConfigurationNumber := 0,
                USB_Device_RemoteWakeupEnabled := False, USB_Device_CurrentlySelfPowered := False, LSM := False\<rparr>;
          c = USB_INT_Enable USB_INT_VBUSTI c;
          c = snd (Endpoint_ConfigureEndpoint h ENDPOINT_CONTROLEP EP_TYPE_CONTROL (of_nat FIXED_CONTROL_ENDPOINT_SIZE) 1 c);
          c = USB_INT_Enable USB_INT_EORSTI (USB_INT_Enable USB_INT_SUSPI (USB_INT_Clear USB_INT_SUSPI c))
      in c\<lparr>DETACH := False\<rparr>)"

definition USB_ResetInterface :: "avr \<Rightarrow> control \<Rightarrow> control" where
  "USB_ResetInterface h c =
     (let c = USB_INT_ClearAllInterrupts (USB_INT_DisableAllInterrupts c)
      in (USB_Init_Device h (c\<lparr>USBE := True, FRZCLK := False, PLLE := False\<rparr>))\<lparr>OTGPADE := True\<rparr>)"

definition USB_Init :: "avr \<Rightarrow> control \<Rightarrow> control" where
  "USB_Init h c = USB_ResetInterface h (c\<lparr>OTGPADE := False, UVREGE := True, PLLFRQ := 0x04, USB_IsInitialized := True\<rparr>)"

definition USB_Disable :: "control \<Rightarrow> control" where
  "USB_Disable c =
     (USB_INT_ClearAllInterrupts (USB_INT_DisableAllInterrupts c))
       \<lparr>DETACH := True, USBE := False, PLLE := False, UVREGE := False, OTGPADE := False, USB_IsInitialized := False\<rparr>"

definition main_turn :: "avr \<Rightarrow> MIDI_EventPacket_t \<Rightarrow> (u8 \<Rightarrow> u8) \<Rightarrow> sysex_globals \<times> control \<Rightarrow> (sysex_globals \<times> control) run" where
  "main_turn h stale level s = (case s of (g, c) \<Rightarrow>
     andthen (Midifighter_Task stale level (g, fw_dev c)) (\<lambda>(g, d).
     andthen (USB_USBTask h (c\<lparr>fw_dev := d\<rparr>)) (\<lambda>c. Inr (g, c))))"


section \<open>The control endpoint under the firmware\<close>

text \<open>
  What the control endpoint does to the rest of the firmware is a sequence of steps of the system: the device state
  changes and the event handlers run.
\<close>

definition reaches :: "dev \<Rightarrow> dev \<Rightarrow> bool" where
  "reaches d d' \<longleftrightarrow> (\<forall>g. step\<^sup>*\<^sup>* (g, d) (g, d'))"

lemma reaches_refl [simp, intro]: "reaches d d"
  by (simp add: reaches_def)

lemma reaches_trans [trans]: "reaches d d' \<Longrightarrow> reaches d' d'' \<Longrightarrow> reaches d d''"
  unfolding reaches_def by (blast intro: rtranclp_trans)

lemma reaches_step: "(\<And>g. step (g, d) (g, d')) \<Longrightarrow> reaches d d'"
  by (simp add: reaches_def r_into_rtranclp)

lemma reaches_state [simp]: "reaches d (set_usb_state st d)"
  using disconnect by (intro reaches_step) (simp add: EVENT_USB_Device_Disconnect_def)

lemma reaches_connect: "reaches d (EVENT_USB_Device_Connect (set_usb_state st d))"
  by (intro reaches_step connect)

lemma set_usb_state_same: "set_usb_state (USB_DeviceState (usb (midi d))) d = d"
  by (simp add: set_usb_state_def)

lemma reaches_configuration [simp]: "reaches d (EVENT_USB_Device_ConfigurationChanged r d)"
  using configure [of _ d r "USB_DeviceState (usb (midi d))"] by (intro reaches_step) (simp add: set_usb_state_same)

text \<open>The invariant of the registers: a pending SETUP packet is complete, no bytes wait unsent, no packet is
  larger than the bank, and the configuration is one the device has.\<close>

definition bank_wf :: "endpoint_regs \<Rightarrow> bool" where
  "bank_wf e \<longleftrightarrow> UEDATX_out e = [] \<and> list_all (\<lambda>p. length p \<le> FIXED_CONTROL_ENDPOINT_SIZE) (sent e)"

definition setup_wf :: "control \<Rightarrow> bool" where
  "setup_wf c \<longleftrightarrow> (RXSTPI (endpoint c 0) \<longrightarrow> 8 \<le> length (UEDATX_in (endpoint c 0)))"

definition regs_wf :: "control \<Rightarrow> bool" where
  "regs_wf c \<longleftrightarrow> (\<forall>n. bank_wf (endpoint c n)) \<and> USB_Device_ConfigurationNumber c \<le> FIXED_NUM_CONFIGURATIONS"

definition control_wf :: "control \<Rightarrow> bool" where
  "control_wf c \<longleftrightarrow> regs_wf c \<and> setup_wf c"

fun event_wf :: "bus_event \<Rightarrow> bool" where
  "event_wf (SETUP_packet bs) \<longleftrightarrow> length bs = 8"
| "event_wf _ \<longleftrightarrow> True"

lemmas register_ops = cur_def set_cur_def Endpoint_SelectEndpoint_def Endpoint_EnableEndpoint_def
  Endpoint_DisableEndpoint_def Endpoint_ClearSETUP_def ClearIN_def ClearOUT_def Endpoint_StallTransaction_def
  Endpoint_ClearStall_def Endpoint_Write_8_def

lemma set_cur_frame [simp]:
  "fw_dev (set_cur f c) = fw_dev c" "events (set_cur f c) = events c"
  "USB_Device_ConfigurationNumber (set_cur f c) = USB_Device_ConfigurationNumber c" "UENUM (set_cur f c) = UENUM c"
  "USB_ControlRequest (set_cur f c) = USB_ControlRequest c" "UDADDR (set_cur f c) = UDADDR c"
  by (simp_all add: set_cur_def)

lemma select_frame [simp]:
  "fw_dev (Endpoint_SelectEndpoint n c) = fw_dev c" "events (Endpoint_SelectEndpoint n c) = events c"
  "endpoint (Endpoint_SelectEndpoint n c) = endpoint c" "UENUM (Endpoint_SelectEndpoint n c) = n AND ENDPOINT_EPNUM_MASK"
  "USB_Device_ConfigurationNumber (Endpoint_SelectEndpoint n c) = USB_Device_ConfigurationNumber c"
  "USB_ControlRequest (Endpoint_SelectEndpoint n c) = USB_ControlRequest c" "UDADDR (Endpoint_SelectEndpoint n c) = UDADDR c"
  by (simp_all add: Endpoint_SelectEndpoint_def)

lemma set_cur_endpoint: "endpoint (set_cur f c) n = (if n = UENUM c then f (cur c) else endpoint c n)"
  by (simp add: set_cur_def)

text \<open>An operation on the selected endpoint that does not touch its packets keeps the invariant.\<close>

lemma set_cur_regs_wf:
  assumes "regs_wf c" "bank_wf (cur c) \<Longrightarrow> bank_wf (f (cur c))"
  shows "regs_wf (set_cur f c)"
  using assms by (auto simp: regs_wf_def set_cur_endpoint cur_def)

lemma set_cur_setup_wf:
  assumes "setup_wf c" "\<And>e. RXSTPI (f e) \<Longrightarrow> RXSTPI e" "\<And>e. UEDATX_in (f e) = UEDATX_in e"
  shows "setup_wf (set_cur f c)"
  using assms by (auto simp: setup_wf_def set_cur_endpoint cur_def)

lemma set_cur_wf:
  assumes "control_wf c" "\<And>e. bank_wf e \<Longrightarrow> bank_wf (f e)" "\<And>e. RXSTPI (f e) \<Longrightarrow> RXSTPI e" "\<And>e. UEDATX_in (f e) = UEDATX_in e"
  shows "control_wf (set_cur f c)"
  using assms set_cur_regs_wf [of c f] set_cur_setup_wf [of c f] by (simp add: control_wf_def)

lemma select_wf [simp]:
  "control_wf (Endpoint_SelectEndpoint n c) = control_wf c" "regs_wf (Endpoint_SelectEndpoint n c) = regs_wf c"
  "setup_wf (Endpoint_SelectEndpoint n c) = setup_wf c"
  by (simp_all add: control_wf_def regs_wf_def setup_wf_def)

lemma configure_from_frame:
  "fw_dev (snd (configure_from h n a b ns c)) = fw_dev c \<and> events (snd (configure_from h n a b ns c)) = events c
   \<and> UDADDR (snd (configure_from h n a b ns c)) = UDADDR c
   \<and> USB_ControlRequest (snd (configure_from h n a b ns c)) = USB_ControlRequest c
   \<and> (control_wf c \<longrightarrow> control_wf (snd (configure_from h n a b ns c)))"
proof (induction ns arbitrary: c)
  case (Cons k ns)
  show ?case
    by (auto simp: Let_def Cons.IH Endpoint_EnableEndpoint_def Endpoint_DisableEndpoint_def bank_wf_def
        intro!: Cons.IH [THEN conjunct2, THEN conjunct2, THEN conjunct2, THEN conjunct2, rule_format] set_cur_wf)
qed simp


lemma configure_endpoint_frame:
  "fw_dev (snd (Endpoint_ConfigureEndpoint h a t n b c)) = fw_dev c"
  "events (snd (Endpoint_ConfigureEndpoint h a t n b c)) = events c"
  "UDADDR (snd (Endpoint_ConfigureEndpoint h a t n b c)) = UDADDR c"
  "USB_ControlRequest (snd (Endpoint_ConfigureEndpoint h a t n b c)) = USB_ControlRequest c"
  "control_wf c \<Longrightarrow> control_wf (snd (Endpoint_ConfigureEndpoint h a t n b c))"
  using configure_from_frame by (simp_all add: Endpoint_ConfigureEndpoint_def Endpoint_ConfigureEndpoint_Prv_def Let_def)

lemma configure_table_frame:
  "fw_dev (snd (Endpoint_ConfigureEndpointTable h ts c)) = fw_dev c
   \<and> events (snd (Endpoint_ConfigureEndpointTable h ts c)) = events c
   \<and> (control_wf c \<longrightarrow> control_wf (snd (Endpoint_ConfigureEndpointTable h ts c)))"
proof (induction ts arbitrary: c)
  case (Cons t ts)
  obtain r c' where r: "Endpoint_ConfigureEndpoint h (ep_Address t) (ep_Type t) (ep_Size t) (ep_Banks t) c = (r, c')"
    by (cases "Endpoint_ConfigureEndpoint h (ep_Address t) (ep_Type t) (ep_Size t) (ep_Banks t) c")
  then have "fw_dev c' = fw_dev c" "events c' = events c" "control_wf c \<Longrightarrow> control_wf c'"
    using configure_endpoint_frame [where h = h and a = "ep_Address t" and t = "ep_Type t" and n = "ep_Size t" and b = "ep_Banks t" and c = c]
    by simp_all
  then show ?case using Cons.IH [of c] Cons.IH [of c'] r by simp
qed simp

lemma configure_endpoints_frame:
  "fw_dev (snd (MIDI_Device_ConfigureEndpoints h c)) = fw_dev c"
  "events (snd (MIDI_Device_ConfigureEndpoints h c)) = events c"
  "control_wf c \<Longrightarrow> control_wf (snd (MIDI_Device_ConfigureEndpoints h c))"
  unfolding MIDI_Device_ConfigureEndpoints_def Let_def
  using configure_table_frame [of h "[DataINEndpoint]" c]
    configure_table_frame [of h "[DataOUTEndpoint]" "snd (Endpoint_ConfigureEndpointTable h [DataINEndpoint] c)"]
  by (simp_all only: split_beta) (auto split: if_splits)

lemma wf_updates [simp]:
  "control_wf (c\<lparr>fw_dev := d\<rparr>) = control_wf c" "control_wf (c\<lparr>events := es\<rparr>) = control_wf c"
  "control_wf (c\<lparr>int_flag := fl\<rparr>) = control_wf c" "control_wf (c\<lparr>int_enabled := fl\<rparr>) = control_wf c"
  "control_wf (c\<lparr>VBUS := x\<rparr>) = control_wf c" "control_wf (c\<lparr>UDADDR := y\<rparr>) = control_wf c"
  "control_wf (c\<lparr>PLLE := x\<rparr>) = control_wf c" "control_wf (c\<lparr>FRZCLK := x\<rparr>) = control_wf c"
  "control_wf (c\<lparr>DETACH := x\<rparr>) = control_wf c" "control_wf (c\<lparr>USBE := x\<rparr>) = control_wf c"
  "control_wf (c\<lparr>UVREGE := x\<rparr>) = control_wf c" "control_wf (c\<lparr>OTGPADE := x\<rparr>) = control_wf c"
  "control_wf (c\<lparr>PLLFRQ := y\<rparr>) = control_wf c"
  "control_wf (c\<lparr>LSM := x\<rparr>) = control_wf c" "control_wf (c\<lparr>USB_IsInitialized := x\<rparr>) = control_wf c"
  "control_wf (c\<lparr>USB_Device_CurrentlySelfPowered := x\<rparr>) = control_wf c"
  "control_wf (c\<lparr>USB_Device_RemoteWakeupEnabled := x\<rparr>) = control_wf c"
  "control_wf (c\<lparr>USB_ControlRequest := q\<rparr>) = control_wf c"
  by (simp_all add: control_wf_def regs_wf_def setup_wf_def)

lemma wf_configuration: "control_wf c \<Longrightarrow> n \<le> FIXED_NUM_CONFIGURATIONS \<Longrightarrow> control_wf (c\<lparr>USB_Device_ConfigurationNumber := n\<rparr>)"
  by (simp add: control_wf_def regs_wf_def setup_wf_def)

lemmas int_ops = USB_INT_Enable_def USB_INT_Disable_def USB_INT_Clear_def set_DeviceState_def

text \<open>Two states of the control endpoint related by what the firmware can follow, the second one well formed.\<close>

definition follows :: "control \<Rightarrow> control \<Rightarrow> bool" where
  "follows c c' \<longleftrightarrow> reaches (fw_dev c) (fw_dev c') \<and> (control_wf c \<longrightarrow> control_wf c') \<and> events c' = events c"

lemma follows_refl [simp, intro]: "follows c c"
  by (simp add: follows_def)

lemma follows_trans [trans]: "follows c c' \<Longrightarrow> follows c' c'' \<Longrightarrow> follows c c''"
  unfolding follows_def by (auto intro: reaches_trans)

lemma interrupt_parts_follow:
  "follows c (vbus_changed c)" "follows c (suspended c)" "follows c (woken_up c)" "follows c (USB_INT_Clear i c)"
  by (auto simp: follows_def vbus_changed_def suspended_def woken_up_def int_ops Let_def reaches_connect
      EVENT_USB_Device_Disconnect_def)

lemma end_of_reset_follows: "follows c (end_of_reset h c)"
proof -
  let ?c = "c\<lparr>fw_dev := set_usb_state DEVICE_STATE_Default (fw_dev c), USB_Device_ConfigurationNumber := 0,
      int_flag := (int_flag c)(USB_INT_EORSTI := False, USB_INT_SUSPI := False),
      int_enabled := (int_enabled c)(USB_INT_SUSPI := False, USB_INT_WAKEUPI := True)\<rparr>"
  have e: "end_of_reset h c = snd (Endpoint_ConfigureEndpoint h ENDPOINT_CONTROLEP EP_TYPE_CONTROL (of_nat FIXED_CONTROL_ENDPOINT_SIZE) 1 ?c)"
    by (simp add: end_of_reset_def int_ops Let_def)
  have "control_wf ?c" if "control_wf c" using that by (simp add: control_wf_def regs_wf_def setup_wf_def)
  then show ?thesis unfolding e follows_def by (simp add: configure_endpoint_frame)
qed

lemma gen_vect_follows: "follows c (USB_GEN_vect h c)"
proof -
  define c1 where "c1 = (if int_due USB_INT_SOFI c then USB_INT_Clear USB_INT_SOFI c else c)"
  define c2 where "c2 = (if int_due USB_INT_VBUSTI c1 then vbus_changed c1 else c1)"
  define c3 where "c3 = (if int_due USB_INT_SUSPI c2 then suspended c2 else c2)"
  define c4 where "c4 = (if int_due USB_INT_WAKEUPI c3 then woken_up c3 else c3)"
  have "follows c c1" by (simp add: c1_def interrupt_parts_follow)
  also have "follows c1 c2" by (simp add: c2_def interrupt_parts_follow)
  also have "follows c2 c3" by (simp add: c3_def interrupt_parts_follow)
  also have "follows c3 c4" by (simp add: c4_def interrupt_parts_follow)
  also have "follows c4 (USB_GEN_vect h c)"
    unfolding USB_GEN_vect_def Let_def c1_def [symmetric] c2_def [symmetric] c3_def [symmetric] c4_def [symmetric]
    by (simp add: end_of_reset_follows)
  finally show ?thesis .
qed

lemma bus_follows: "event_wf e \<Longrightarrow> follows c (bus h e c)"
proof (cases e)
  case (Usb_Interrupt flags vbus)
  let ?c = "c\<lparr>int_flag := flags, VBUS := vbus, UDADDR := (if flags USB_INT_EORSTI then 0 else UDADDR c)\<rparr>"
  have "follows c ?c" by (simp add: follows_def)
  from follows_trans [OF this gen_vect_follows] show ?thesis using Usb_Interrupt by simp
qed (auto simp: follows_def on_endpoint0_def control_wf_def regs_wf_def setup_wf_def bank_wf_def)


section \<open>Rules for the wait loops\<close>

text \<open>A run that returns with \<open>P\<close>, or waits for ever.\<close>

definition waits :: "('a \<Rightarrow> bool) \<Rightarrow> 'a run \<Rightarrow> bool" where
  "waits P r = (case r of Inl e \<Rightarrow> e = Hang | Inr x \<Rightarrow> P x)"

lemma waits_simps [simp]: "waits P (Inr x) = P x" "waits P (Inl e) = (e = Hang)"
  by (simp_all add: waits_def)

lemma waits_andthen: "waits P r \<Longrightarrow> (\<And>x. P x \<Longrightarrow> waits Q (f x)) \<Longrightarrow> waits Q (andthen r f)"
  by (cases r) simp_all

lemma waits_mono: "waits P r \<Longrightarrow> (\<And>x. P x \<Longrightarrow> Q x) \<Longrightarrow> waits Q r"
  by (cases r) simp_all

lemma waits_until:
  assumes "I c" "list_all event_wf es" "\<And>e c. event_wf e \<Longrightarrow> I c \<Longrightarrow> I (bus h e c)" "\<And>c es. I c \<Longrightarrow> I (c\<lparr>events := es\<rparr>)"
  shows "waits (\<lambda>(r, c'). I c' \<and> list_all event_wf (events c')) (wait_until h ready leave es c)"
  using assms(1,2) by (induction es arbitrary: c) (auto simp: assms(3,4))

lemma waits_OUT:
  assumes "I c" "list_all event_wf es" "\<And>e c. event_wf e \<Longrightarrow> I c \<Longrightarrow> I (bus h e c)" "\<And>c es. I c \<Longrightarrow> I (c\<lparr>events := es\<rparr>)"
  shows "waits (\<lambda>(r, c'). I c' \<and> list_all event_wf (events c')) (wait_OUT h es c)"
  unfolding wait_OUT_def using waits_until [where I = I, OF assms] by (rule waits_andthen) auto

lemma waits_control_loop:
  assumes "I bs L c" "list_all event_wf es"
    and turn: "\<And>bs L F c. I bs L c \<Longrightarrow> ok (\<lambda>(bs, L, F, c). I bs L c) (write_turn bs L F c)"
    and bus: "\<And>e bs L c. event_wf e \<Longrightarrow> I bs L c \<Longrightarrow> I bs L (bus h e c)"
    and upd: "\<And>bs L c es. I bs L c \<Longrightarrow> I bs L (c\<lparr>events := es\<rparr>)"
  shows "waits (\<lambda>(r, c'). (\<exists>bs L. I bs L c') \<and> list_all event_wf (events c')) (control_loop h es bs L F c)"
proof -
  let ?Q = "\<lambda>(r :: u8, c'). (\<exists>bs L. I bs L c') \<and> list_all event_wf (events c')"
  have out: "waits ?Q (wait_OUT h es x)" if "I bs L x" "list_all event_wf es" for es bs L x
    using that bus upd by (intro waits_OUT [where I = "\<lambda>c. \<exists>bs L. I bs L c"]) blast+
  show ?thesis using assms(1,2)
  proof (induction es arbitrary: bs L F c)
    case Nil
    obtain bs' L' F' c' where t: "write_turn bs L F c = Inr (bs', L', F', c')" "I bs' L' c'"
      using turn [OF Nil(1), of F] by (auto simp: ok_def)
    then show ?case using Nil upd [OF Nil(1), of "[]"] out [OF Nil] out [OF t(2) Nil(2)]
      by (subst control_loop.simps) (auto split: option.splits)
  next
    case (Cons e es)
    obtain bs' L' F' c' where t: "write_turn bs L F c = Inr (bs', L', F', c')" "I bs' L' c'"
      using turn [OF Cons.prems(1), of F] by (auto simp: ok_def)
    have "waits ?Q (control_loop h es bs' L' F' (bus h e c'))"
      using Cons.prems bus [OF _ t(2)] by (intro Cons.IH) simp_all
    then show ?case using t Cons.prems upd [OF Cons.prems(1), of "e # es"] out [OF Cons.prems]
      by (subst control_loop.simps) (auto split: option.splits)
  qed
qed

section \<open>Packets of a control write\<close>

lemma set_cur_twice: "set_cur f (set_cur g c) = set_cur (\<lambda>e. f (g e)) c"
  by (simp add: set_cur_def cur_def)

lemma cur_set_cur [simp]: "cur (set_cur f c) = f (cur c)"
  by (simp add: cur_def set_cur_def)

lemma set_cur_id: "f (cur c) = cur c \<Longrightarrow> set_cur f c = c"
  by (simp add: set_cur_def cur_def)

lemma unat_minus_one: "(L :: u16) \<noteq> 0 \<Longrightarrow> unat (L - 1) = unat L - 1"
  by (simp add: unat_minus_one)

lemma fill_bank_spec:
  assumes "unat L \<le> length bs" "k = min (unat L) (FIXED_CONTROL_ENDPOINT_SIZE - length (UEDATX_out (cur c)))"
  shows "fill_bank bs L c =
    Inr (drop k bs, L - of_nat k, set_cur (\<lambda>e. e\<lparr>UEDATX_out := UEDATX_out e @ take k bs\<rparr>) c)"
  using assms
proof (induction bs arbitrary: L c k)
  case Nil
  then show ?case by (simp add: set_cur_id unat_eq_0)
next
  case (Cons b bs)
  show ?case
  proof (cases "L \<noteq> 0 \<and> length (UEDATX_out (cur c)) < FIXED_CONTROL_ENDPOINT_SIZE")
    case True
    then have L: "unat L \<noteq> 0" "unat (L - 1) = unat L - 1" by (simp_all add: unat_minus_one unat_eq_0)
    then have k: "k \<noteq> 0" using True Cons.prems(2) by simp
    have "fill_bank bs (L - 1) (Endpoint_Write_8 b c) = Inr (drop (k - 1) bs, L - 1 - of_nat (k - 1),
        set_cur (\<lambda>e. e\<lparr>UEDATX_out := UEDATX_out e @ take (k - 1) bs\<rparr>) (Endpoint_Write_8 b c))"
      using Cons.prems L k by (intro Cons.IH) (auto simp: Endpoint_Write_8_def)
    moreover have "L - 1 - of_nat (k - 1) = L - of_nat k" using k by (cases k) simp_all
    ultimately show ?thesis
      using True k by (cases k) (simp_all add: Endpoint_Write_8_def set_cur_twice)
  next
    case False
    then have "k = 0" using Cons.prems(2) by (auto simp: unat_eq_0)
    with False show ?thesis by (auto simp: set_cur_id)
  qed
qed

lemma write_turn_spec:
  assumes "unat L \<le> length bs" "UEDATX_out (cur c) = []" "k = min (unat L) FIXED_CONTROL_ENDPOINT_SIZE"
  shows "write_turn bs L F c = Inr (if Endpoint_IsINReady c
    then (drop k bs, L - of_nat k, k = FIXED_CONTROL_ENDPOINT_SIZE, set_cur (\<lambda>e. e\<lparr>TXINI := False, sent := sent e @ [take k bs], UEDATX_out := []\<rparr>) c)
    else (bs, L, F, c))"
proof (cases "Endpoint_IsINReady c")
  case True
  have f: "fill_bank bs L c = Inr (drop k bs, L - of_nat k, set_cur (\<lambda>e. e\<lparr>UEDATX_out := UEDATX_out e @ take k bs\<rparr>) c)"
    using assms by (intro fill_bank_spec) simp_all
  show ?thesis using assms True
    by (simp add: write_turn_def f ClearIN_def set_cur_twice) (auto simp: set_cur_def)
qed (simp add: write_turn_def)


section \<open>Every request is a sequence of system steps\<close>

definition served :: "dev \<Rightarrow> control \<Rightarrow> bool" where
  "served d c \<longleftrightarrow> reaches d (fw_dev c) \<and> control_wf c"

definition handled :: "dev \<Rightarrow> control \<Rightarrow> bool" where
  "handled d c \<longleftrightarrow> reaches d (fw_dev c) \<and> regs_wf c \<and> (setup_wf c \<or> UENUM c = 0) \<and> list_all event_wf (events c)"

lemma served_handled: "served d c \<Longrightarrow> list_all event_wf (events c) \<Longrightarrow> handled d c"
  by (simp add: served_def handled_def control_wf_def)

lemma served_bus: "event_wf e \<Longrightarrow> served d c \<Longrightarrow> served d (bus h e c)"
  using bus_follows [of e c h] by (auto simp: served_def follows_def intro: reaches_trans)

lemma served_events: "served d c \<Longrightarrow> served d (c\<lparr>events := es\<rparr>)"
  by (simp add: served_def)

lemma served_state: "served d c \<Longrightarrow> served d (set_DeviceState st c)"
  by (auto simp: served_def set_DeviceState_def intro: reaches_trans)

lemma clear_setup_served:
  assumes "regs_wf c" "UENUM c = 0" "reaches d (fw_dev c)"
  shows "served d (Endpoint_ClearSETUP c)"
  using assms set_cur_regs_wf [of c]
  by (simp add: served_def control_wf_def Endpoint_ClearSETUP_def setup_wf_def set_cur_endpoint bank_wf_def)

lemma clear_wf:
  "control_wf c \<Longrightarrow> control_wf (ClearIN c)" "control_wf c \<Longrightarrow> control_wf (ClearOUT c)"
  by (auto simp: ClearIN_def ClearOUT_def bank_wf_def intro!: set_cur_wf)

lemma cur_bank_wf: "control_wf c \<Longrightarrow> bank_wf (cur c)"
  by (simp add: control_wf_def regs_wf_def cur_def)

lemma status_stage_handled:
  assumes "served d c" "list_all event_wf (events c)"
  shows "waits (\<lambda>c'. served d c' \<and> list_all event_wf (events c')) (Endpoint_ClearStatusStage h c)"
proof -
  have w: "waits (\<lambda>(r, c'). served d c' \<and> list_all event_wf (events c')) (wait_until h ready leave (events c) c)" for ready leave
    using assms by (intro waits_until) (auto intro: served_bus served_events)
  have "served d (ClearIN c')" "served d (ClearOUT c')" if "served d c'" for c'
    using that clear_wf [of c'] by (simp_all add: served_def) (simp_all add: ClearIN_def ClearOUT_def)
  moreover have "events (ClearIN c') = events c'" "events (ClearOUT c') = events c'" for c' by (simp_all add: ClearIN_def ClearOUT_def)
  ultimately show ?thesis unfolding Endpoint_ClearStatusStage_def by (auto intro!: waits_andthen [OF w])
qed

lemma write_turn_served:
  assumes "served d c" "unat L \<le> length bs"
  shows "ok (\<lambda>(bs, L, F, c). served d c \<and> unat L \<le> length bs) (write_turn bs L F c)"
proof -
  define k where "k = min (unat L) FIXED_CONTROL_ENDPOINT_SIZE"
  have b: "UEDATX_out (cur c) = []" using assms(1) cur_bank_wf [of c] by (simp add: served_def bank_wf_def)
  have "unat (L - of_nat k) = unat L - k"
  proof -
    have "(of_nat k :: u16) \<le> L" by (simp add: k_def word_le_nat_alt unat_of_nat min_def take_bit_nat_def FIXED_CONTROL_ENDPOINT_SIZE_def)
    moreover have "unat (of_nat k :: u16) = k" by (simp add: k_def unat_of_nat FIXED_CONTROL_ENDPOINT_SIZE_def take_bit_nat_def)
    ultimately show ?thesis by (simp add: unat_sub)
  qed
  moreover have "control_wf (set_cur (\<lambda>e. e\<lparr>TXINI := False, sent := sent e @ [take k bs], UEDATX_out := []\<rparr>) c)"
    using assms by (intro set_cur_wf) (auto simp: served_def bank_wf_def k_def)
  ultimately show ?thesis using assms by (simp add: write_turn_spec [OF assms(2) b k_def] served_def diff_le_mono)
qed

lemma control_stream_handled:
  assumes "served d c" "list_all event_wf (events c)" "unat Length \<le> length Buffer"
  shows "waits (\<lambda>(r, c'). served d c' \<and> list_all event_wf (events c')) (Endpoint_Write_Control_Stream_LE h Buffer Length c)"
proof -
  have loop: "waits (\<lambda>(r, c'). served d c' \<and> list_all event_wf (events c')) (control_loop h (events c') Buffer L False c')"
    if "served d c'" "list_all event_wf (events c')" "unat L \<le> length Buffer" for L c'
  proof -
    have "waits (\<lambda>(r, c'). (\<exists>(bs :: u8 list) (L :: u16). served d c' \<and> unat L \<le> length bs) \<and> list_all event_wf (events c'))
        (control_loop h (events c') Buffer L False c')"
      using that
      by (intro waits_control_loop [where I = "\<lambda>bs L c. served d c \<and> unat L \<le> length bs"])
        (auto intro: write_turn_served served_bus served_events)
    then show ?thesis by (rule waits_mono) auto
  qed
  have "served d (ClearIN c)" using assms(1) clear_wf(1) [of c] by (simp add: served_def) (simp add: ClearIN_def)
  moreover have "events (ClearIN c) = events c" by (simp add: ClearIN_def)
  ultimately show ?thesis using assms loop [of c] loop [of "ClearIN c"]
    by (auto simp: Endpoint_Write_Control_Stream_LE_def word_less_nat_alt)
qed


lemma waits_served_handled:
  "waits (\<lambda>c'. served d c' \<and> list_all event_wf (events c')) r \<Longrightarrow> waits (handled d) r"
  by (erule waits_mono) (simp add: served_handled)

text \<open>The state in which a request handler starts: the header has been read, the control endpoint is selected.\<close>

definition entry :: "dev \<Rightarrow> control \<Rightarrow> bool" where
  "entry d c \<longleftrightarrow> regs_wf c \<and> UENUM c = 0 \<and> reaches d (fw_dev c) \<and> list_all event_wf (events c)"

lemma entry_handled: "entry d c \<Longrightarrow> handled d c"
  by (simp add: handled_def entry_def)

lemma entry_cleared: "entry d c \<Longrightarrow> served d (Endpoint_ClearSETUP c) \<and> list_all event_wf (events (Endpoint_ClearSETUP c))"
  using clear_setup_served [of c d] by (simp add: entry_def) (simp add: Endpoint_ClearSETUP_def)

lemma entry_frame:
  "entry d (c\<lparr>UDADDR := a\<rparr>) = entry d c" "entry d (c\<lparr>USB_Device_RemoteWakeupEnabled := b\<rparr>) = entry d c"
  "entry d (c\<lparr>USB_ControlRequest := q\<rparr>) = entry d c"
  by (simp_all add: entry_def regs_wf_def)

lemma served_frame:
  "served d (c\<lparr>UDADDR := a\<rparr>) = served d c"
  "n \<le> FIXED_NUM_CONFIGURATIONS \<Longrightarrow> served d c \<Longrightarrow> served d (c\<lparr>USB_Device_ConfigurationNumber := n\<rparr>)"
  by (simp_all add: served_def wf_configuration)

lemma SetAddress_handled:
  assumes "entry d c"
  shows "waits (handled d) (USB_Device_SetAddress h c)"
proof -
  let ?P = "\<lambda>c'. served d c' \<and> list_all event_wf (events c')"
  let ?c = "Endpoint_ClearSETUP (USB_Device_SetDeviceAddress (ucast (wValue (USB_ControlRequest c) AND 0x7F)) c)"
  have 1: "waits ?P (Endpoint_ClearStatusStage h ?c)"
    using assms entry_cleared [of d "USB_Device_SetDeviceAddress (ucast (wValue (USB_ControlRequest c) AND 0x7F)) c"]
    by (intro status_stage_handled) (simp_all add: USB_Device_SetDeviceAddress_def entry_frame)
  have 2: "waits (\<lambda>(r, c'). ?P c') (wait_until h Endpoint_IsINReady (\<lambda>_. False) (events c') c')" if "?P c'" for c'
    using that by (intro waits_until) (auto intro: served_bus served_events)
  show ?thesis unfolding USB_Device_SetAddress_def Let_def
    by (rule waits_served_handled, rule waits_andthen [OF 1], rule waits_andthen [OF 2])
      (auto simp: USB_Device_EnableDeviceAddress_def served_frame intro!: served_state, simp_all add: set_DeviceState_def)
qed

lemma configuration_changed_served: "served d c \<Longrightarrow> served d (ConfigurationChanged h c)"
  using configure_endpoints_frame [where h = h and c = c] reaches_trans [of d "fw_dev c"]
  by (simp add: ConfigurationChanged_def split_beta served_def)

lemma configuration_changed_events: "events (ConfigurationChanged h c) = events c"
  using configure_endpoints_frame [where h = h and c = c] by (simp add: ConfigurationChanged_def split_beta)

lemma SetConfiguration_handled:
  assumes "entry d c"
  shows "waits (handled d) (USB_Device_SetConfiguration h c)"
proof (cases "(ucast (wValue (USB_ControlRequest c)) :: u8) > FIXED_NUM_CONFIGURATIONS")
  case True
  then show ?thesis using assms by (simp add: USB_Device_SetConfiguration_def entry_handled)
next
  case False
  let ?P = "\<lambda>c'. served d c' \<and> list_all event_wf (events c')"
  let ?c = "(Endpoint_ClearSETUP c)\<lparr>USB_Device_ConfigurationNumber := ucast (wValue (USB_ControlRequest c))\<rparr>"
  have 1: "waits ?P (Endpoint_ClearStatusStage h ?c)"
    using entry_cleared [OF assms] False by (intro status_stage_handled served_frame) simp_all
  have 2: "?P (ConfigurationChanged h (set_DeviceState st c'))" if "?P c'" for c' st
    using that by (auto simp: configuration_changed_events intro!: configuration_changed_served served_state)
      (simp add: set_DeviceState_def)
  have q: "USB_ControlRequest (Endpoint_ClearSETUP c) = USB_ControlRequest c" by (simp add: Endpoint_ClearSETUP_def)
  show ?thesis using False 2 by (auto simp: USB_Device_SetConfiguration_def q intro!: waits_served_handled waits_andthen [OF 1])
qed


text \<open>An answer of a few bytes in one packet.\<close>

lemma answer_served:
  assumes "served d c" "length bs \<le> FIXED_CONTROL_ENDPOINT_SIZE"
  shows "served d (ClearIN (set_cur (\<lambda>e. e\<lparr>UEDATX_out := UEDATX_out e @ bs\<rparr>) c))"
proof -
  have "control_wf (set_cur (\<lambda>e. e\<lparr>TXINI := False, sent := sent e @ [UEDATX_out e @ bs], UEDATX_out := []\<rparr>) c)"
    using assms by (intro set_cur_wf) (auto simp: served_def bank_wf_def)
  then show ?thesis using assms(1) by (simp add: served_def ClearIN_def set_cur_twice)
qed

lemma GetConfiguration_handled:
  assumes "entry d c"
  shows "waits (handled d) (USB_Device_GetConfiguration h c)"
  using entry_cleared [OF assms] answer_served [of d "Endpoint_ClearSETUP c" "[USB_Device_ConfigurationNumber (Endpoint_ClearSETUP c)]"]
  unfolding USB_Device_GetConfiguration_def Let_def
  by (intro waits_served_handled status_stage_handled)
    (simp_all add: Endpoint_Write_8_def FIXED_CONTROL_ENDPOINT_SIZE_def, simp_all add: ClearIN_def Endpoint_ClearSETUP_def)

lemma Write_16_eq:
  "Endpoint_Write_16_LE w c = set_cur (\<lambda>e. e\<lparr>UEDATX_out := UEDATX_out e @ le16 w\<rparr>) c"
proof -
  have "w AND 0xFF = take_bit 8 w" by (simp add: take_bit_eq_mask mask_eq_exp_minus_1)
  then have "ucast (w AND 0xFF) = (ucast w :: u8)" by (auto intro!: bit_word_eqI simp: bit_simps)
  then show ?thesis by (simp add: Endpoint_Write_16_LE_def Endpoint_Write_8_def set_cur_twice le16_def)
qed

lemma status_answer_handled:
  assumes "entry d c"
  shows "waits (handled d) (Endpoint_ClearStatusStage h (ClearIN (Endpoint_Write_16_LE w (Endpoint_ClearSETUP c))))"
  using entry_cleared [OF assms] answer_served [of d "Endpoint_ClearSETUP c" "le16 w"] unfolding Write_16_eq
  by (intro waits_served_handled status_stage_handled)
    (simp_all add: le16_def FIXED_CONTROL_ENDPOINT_SIZE_def, simp_all add: ClearIN_def Endpoint_ClearSETUP_def)

lemma entry_select: "entry d c \<Longrightarrow> entry d (Endpoint_SelectEndpoint ENDPOINT_CONTROLEP (Endpoint_SelectEndpoint n c))"
  by (simp add: entry_def ENDPOINT_CONTROLEP_def)

lemma GetStatus_handled: "entry d c \<Longrightarrow> waits (handled d) (USB_Device_GetStatus h c)"
  unfolding USB_Device_GetStatus_def Let_def by (auto intro: status_answer_handled entry_handled entry_select)

lemma ResetEndpoint_frame [simp]:
  "regs_wf (Endpoint_ResetEndpoint n c) = regs_wf c" "events (Endpoint_ResetEndpoint n c) = events c"
  "UENUM (Endpoint_ResetEndpoint n c) = UENUM c"
  by (simp_all add: Endpoint_ResetEndpoint_def Let_def regs_wf_def)

lemma ResetEndpoint_reaches: "reaches (fw_dev c) (fw_dev (Endpoint_ResetEndpoint n c))"
  using reaches_step [OF bank_reset] by (simp add: Endpoint_ResetEndpoint_def Let_def)

lemma halt_feature_entry:
  assumes "entry d c"
  shows "entry d (Endpoint_SelectEndpoint ENDPOINT_CONTROLEP (halt_feature n (Endpoint_SelectEndpoint n c)))"
proof -
  let ?c = "Endpoint_SelectEndpoint n c"
  have "regs_wf ?c" using assms by (simp add: entry_def)
  then have "regs_wf (Endpoint_StallTransaction ?c)" "regs_wf (Endpoint_ClearStall ?c)"
    by (auto simp: Endpoint_StallTransaction_def Endpoint_ClearStall_def bank_wf_def intro!: set_cur_regs_wf)
  moreover have "reaches d (fw_dev (Endpoint_ResetEndpoint n (Endpoint_ClearStall ?c)))"
    using assms ResetEndpoint_reaches [of "Endpoint_ClearStall ?c" n]
    by (auto simp: entry_def Endpoint_ClearStall_def intro: reaches_trans)
  ultimately show ?thesis using assms
    by (simp add: entry_def halt_feature_def ENDPOINT_CONTROLEP_def)
      (simp add: Endpoint_StallTransaction_def Endpoint_ClearStall_def)
qed

lemma feature_finish_handled:
  "entry d (Endpoint_SelectEndpoint ENDPOINT_CONTROLEP c) \<Longrightarrow>
   waits (handled d) (Endpoint_ClearStatusStage h (Endpoint_ClearSETUP (Endpoint_SelectEndpoint ENDPOINT_CONTROLEP c)))"
  using entry_cleared by (intro waits_served_handled status_stage_handled) auto

lemma entry_control: "entry d c \<Longrightarrow> entry d (Endpoint_SelectEndpoint ENDPOINT_CONTROLEP c)"
  by (simp add: entry_def ENDPOINT_CONTROLEP_def)

lemma ClearSetFeature_handled: "entry d c \<Longrightarrow> waits (handled d) (USB_Device_ClearSetFeature h c)"
  unfolding USB_Device_ClearSetFeature_def Let_def
  by (auto simp: entry_frame intro: entry_handled entry_control intro!: feature_finish_handled halt_feature_entry)

lemma serial_descriptor_length: "length (descriptor_bytes (SignatureDescriptor h)) = 42"
proof -
  have "length (concat (map le16 ws)) = 2 * length ws" for ws by (induction ws) (simp_all add: le16_def)
  then show ?thesis by (simp add: SignatureDescriptor_def USB_Device_GetSerialString_def INTERNAL_SERIAL_LENGTH_BITS_def del: map_map)
qed

lemma stream_answer_handled:
  assumes "entry d c" "unat n \<le> length bs"
  shows "waits (handled d) (andthen (Endpoint_Write_Control_Stream_LE h bs n (Endpoint_ClearSETUP c)) (\<lambda>(_, c). Inr (ClearOUT c)))"
proof -
  have "served d (ClearOUT c')" if "served d c'" for c'
    using that clear_wf(2) [of c'] by (simp add: served_def) (simp add: ClearOUT_def)
  moreover have "events (ClearOUT c') = events c'" for c' by (simp add: ClearOUT_def)
  ultimately show ?thesis
    using entry_cleared [OF assms(1)] assms(2)
    by (auto intro!: waits_served_handled waits_andthen [OF control_stream_handled])
qed

lemma GetDescriptor_handled:
  assumes "entry d c"
  shows "waits (handled d) (USB_Device_GetDescriptor h c)"
proof -
  obtain n p where r: "CALLBACK_USB_GetDescriptor (wValue (USB_ControlRequest c)) (ucast (wIndex (USB_ControlRequest c))) = (n, p)"
    by fastforce
  then have "case p of None \<Rightarrow> n = 0 | Some bs \<Rightarrow> unat n \<le> length bs"
    using get_descriptor_safe [of "wValue (USB_ControlRequest c)" "ucast (wIndex (USB_ControlRequest c))"] by (auto split: option.splits)
  then show ?thesis unfolding USB_Device_GetDescriptor_def USB_Device_GetInternalSerialDescriptor_def Endpoint_Write_Control_PStream_LE_def Let_def r
    using assms by (auto simp: NO_DESCRIPTOR_def serial_descriptor_length split: option.splits
        intro!: stream_answer_handled entry_handled)
qed


lemma waits_if: "waits P r \<Longrightarrow> waits P r' \<Longrightarrow> waits P (if b then r else r')"
  by simp

lemma standard_request_handled: "entry d c \<Longrightarrow> waits (handled d) (standard_request h c)"
  unfolding standard_request_def Let_def
  by (intro waits_if) (simp_all only: entry_handled GetStatus_handled ClearSetFeature_handled SetAddress_handled
      GetDescriptor_handled GetConfiguration_handled SetConfiguration_handled waits_simps)

lemma read_request_entry:
  assumes "control_wf c" "UENUM c = 0" "Endpoint_IsSETUPReceived c" "reaches d (fw_dev c)" "list_all event_wf (events c)"
  shows "ok (entry d) (read_request c)"
proof -
  have "8 \<le> length (UEDATX_in (cur c))" using assms(1-3) by (simp add: control_wf_def setup_wf_def Endpoint_IsSETUPReceived_def cur_def)
  then obtain a b v0 v1 i0 i1 l0 l1 bs where f: "UEDATX_in (cur c) = a # b # v0 # v1 # i0 # i1 # l0 # l1 # bs"
    by (auto simp: numeral_eq_Suc Suc_le_length_iff)
  have "regs_wf (set_cur (\<lambda>e. e\<lparr>UEDATX_in := bs\<rparr>) c)"
    using assms(1) by (intro set_cur_regs_wf) (simp_all add: control_wf_def bank_wf_def)
  then show ?thesis using assms f by (simp add: read_request_def entry_frame) (simp add: entry_def)
qed

lemma refused_wf:
  assumes "handled d c" "Endpoint_IsSETUPReceived c"
  shows "served d (Endpoint_StallTransaction (Endpoint_ClearSETUP c))"
proof -
  let ?c = "set_cur (\<lambda>e. e\<lparr>RXSTPI := False, STALLRQ := True\<rparr>) c"
  have "regs_wf ?c" using assms(1) by (intro set_cur_regs_wf) (simp_all add: handled_def bank_wf_def)
  moreover have "setup_wf ?c" using assms by (auto simp: handled_def setup_wf_def set_cur_endpoint cur_def)
  ultimately show ?thesis using assms(1)
    by (simp add: Endpoint_StallTransaction_def Endpoint_ClearSETUP_def set_cur_twice served_def control_wf_def handled_def)
qed

lemma not_received_wf: "handled d c \<Longrightarrow> \<not> Endpoint_IsSETUPReceived c \<Longrightarrow> served d c"
  by (auto simp: handled_def served_def control_wf_def setup_wf_def Endpoint_IsSETUPReceived_def cur_def)

lemma process_request_served:
  assumes "control_wf c" "UENUM c = 0" "Endpoint_IsSETUPReceived c" "reaches d (fw_dev c)" "list_all event_wf (events c)"
  shows "waits (\<lambda>c'. served d c' \<and> list_all event_wf (events c')) (USB_Device_ProcessControlRequest h c)"
proof -
  obtain c1 where c1: "read_request c = Inr c1" "entry d c1" using read_request_entry [OF assms] by (auto simp: ok_def)
  have "waits (handled d) (if Endpoint_IsSETUPReceived c1 then standard_request h c1 else Inr c1)"
    using c1(2) by (simp add: standard_request_handled entry_handled)
  then show ?thesis unfolding USB_Device_ProcessControlRequest_def c1(1) EVENT_USB_Device_ControlRequest_def andthen_simps Let_def
    by (rule waits_andthen) (auto simp: refused_wf not_received_wf, auto simp: handled_def Endpoint_StallTransaction_def Endpoint_ClearSETUP_def)
qed

lemma usb_task_served:
  assumes "control_wf c" "list_all event_wf (events c)"
  shows "waits (\<lambda>c'. served (fw_dev c) c' \<and> list_all event_wf (events c')) (USB_USBTask h c)"
proof -
  let ?c = "Endpoint_SelectEndpoint ENDPOINT_CONTROLEP c"
  have "waits (\<lambda>c'. served (fw_dev c) c' \<and> list_all event_wf (events c'))
      (if Endpoint_IsSETUPReceived ?c then USB_Device_ProcessControlRequest h ?c else Inr ?c)"
    using assms process_request_served [of ?c "fw_dev c" h] by (simp add: ENDPOINT_CONTROLEP_def served_def)
  then show ?thesis using assms unfolding USB_USBTask_def USB_DeviceTask_def Let_def
    by (auto simp: served_def intro!: waits_andthen)
qed

section \<open>The device\<close>

text \<open>
  The whole device: interrupts and the host act between turns of the main loop, \<open>listen\<close> fixes what will
  happen on the bus while the next turn waits.
\<close>

inductive device_step :: "avr \<Rightarrow> sysex_globals \<times> control \<Rightarrow> sysex_globals \<times> control \<Rightarrow> bool" for h where
  usb_event: "event_wf e \<Longrightarrow> device_step h (g, c) (g, bus h e c)"
| listen: "list_all event_wf es \<Longrightarrow> device_step h (g, c) (g, c\<lparr>events := es\<rparr>)"
| firmware: "step (g, fw_dev c) (g', d') \<Longrightarrow> device_step h (g, c) (g', c\<lparr>fw_dev := d'\<rparr>)"
| turn: "main_turn h stale level s = Inr s' \<Longrightarrow> device_step h s s'"

inductive_cases device_step_cases: "device_step h s s'"

definition device_wf :: "sysex_globals \<times> control \<Rightarrow> bool" where
  "device_wf s \<longleftrightarrow> control_wf (snd s) \<and> list_all event_wf (events (snd s))"

lemma main_turn_steps:
  assumes "main_turn h stale level (g, c) = Inr (g', c')" "device_wf (g, c)"
  shows "step\<^sup>*\<^sup>* (g, fw_dev c) (g', fw_dev c') \<and> device_wf (g', c')"
proof -
  obtain d where d: "Midifighter_Task stale level (g, fw_dev c) = Inr (g', d)" "USB_USBTask h (c\<lparr>fw_dev := d\<rparr>) = Inr c'"
    using assms(1) by (auto simp: main_turn_def andthen_Inr_iff)
  have "served d c' \<and> list_all event_wf (events c')"
    using usb_task_served [of "c\<lparr>fw_dev := d\<rparr>" h] assms(2) d(2) by (simp add: device_wf_def)
  then have "step\<^sup>*\<^sup>* (g', d) (g', fw_dev c')" "device_wf (g', c')" by (simp_all add: served_def reaches_def device_wf_def)
  moreover have "step (g, fw_dev c) (g', d)" using d(1) by (rule main_task)
  ultimately show ?thesis by (simp add: converse_rtranclp_into_rtranclp)
qed

lemma device_step_refines:
  assumes "device_step h s s'" "device_wf s"
  shows "step\<^sup>*\<^sup>* (fst s, fw_dev (snd s)) (fst s', fw_dev (snd s')) \<and> device_wf s'"
  using assms
proof (cases rule: device_step.cases)
  case (usb_event e g c)
  then show ?thesis using bus_follows [of e c h] assms(2) by (auto simp: follows_def reaches_def device_wf_def)
next
  case (turn stale level)
  then show ?thesis using main_turn_steps [of h stale level "fst s" "snd s" "fst s'" "snd s'"] assms(2) by simp
qed (use assms(2) in \<open>auto simp: device_wf_def\<close>)

lemma device_refines:
  assumes "(device_step h)\<^sup>*\<^sup>* s s'" "device_wf s"
  shows "step\<^sup>*\<^sup>* (fst s, fw_dev (snd s)) (fst s', fw_dev (snd s')) \<and> device_wf s'"
  using assms
proof (induction rule: rtranclp_induct)
  case (step y z)
  then show ?case using device_step_refines [of h y z] by (auto intro: rtranclp_trans)
qed simp


section \<open>Initialisation\<close>

lemma usb_init_served: "control_wf c \<Longrightarrow> served (fw_dev c) (USB_Init h c) \<and> events (USB_Init h c) = events c"
  by (auto simp: USB_Init_def USB_ResetInterface_def USB_Init_Device_def served_def int_ops USB_INT_DisableAllInterrupts_def
      USB_INT_ClearAllInterrupts_def configure_endpoint_frame Let_def intro!: configure_endpoint_frame(5))
    (simp add: control_wf_def regs_wf_def setup_wf_def)

lemma usb_task_hang: "USB_USBTask h c = Inl e \<Longrightarrow> RXSTPI (endpoint c 0)"
  by (auto simp: USB_USBTask_def USB_DeviceTask_def Let_def andthen_Inl_iff Endpoint_IsSETUPReceived_def cur_def
      ENDPOINT_CONTROLEP_def split: if_splits)

end
