(* ===== verification/Mf_Enumeration.thy ===== *)
theory Mf_Enumeration
  imports Mf_Control
begin

unbundle bit_operations_syntax

text \<open>
  The control endpoint seen from the host: a descriptor arrives byte for byte in packets of the control
  endpoint's size, a request the device does not know is stalled, and a host that resets the bus, assigns an
  address and selects the configuration ends with a configured device and both streaming endpoints on.
\<close>

section \<open>What the host receives\<close>

text \<open>Packets of 64 bytes, the last one shorter, so that the host can tell the end.\<close>

function control_packets :: "u8 list \<Rightarrow> u8 list list" where
  "control_packets bs =
     (if length bs < FIXED_CONTROL_ENDPOINT_SIZE then [bs]
      else take FIXED_CONTROL_ENDPOINT_SIZE bs # control_packets (drop FIXED_CONTROL_ENDPOINT_SIZE bs))"
  by pat_completeness auto
termination by (relation "measure length") (auto simp: FIXED_CONTROL_ENDPOINT_SIZE_def)

declare control_packets.simps [simp del]

lemma concat_control_packets: "concat (control_packets bs) = bs"
  by (induction bs rule: control_packets.induct) (subst control_packets.simps, simp)

definition control_ready :: "control \<Rightarrow> bool" where
  "control_ready c \<longleftrightarrow> UENUM c = 0 \<and> UEDATX_out (cur c) = [] \<and> TXINI (cur c) \<and> \<not> RXOUTI (cur c) \<and> stream_abort c = None"

definition delivered :: "u8 list list \<Rightarrow> bus_event list \<Rightarrow> control \<Rightarrow> control" where
  "delivered ps es c = (set_cur (\<lambda>e. e\<lparr>TXINI := True, RXOUTI := True, sent := sent e @ ps\<rparr>) c)\<lparr>events := es\<rparr>"

lemma stream_abort_cong: "fw_dev c' = fw_dev c \<Longrightarrow> RXSTPI (cur c') = RXSTPI (cur c) \<Longrightarrow> stream_abort c' = stream_abort c"
  by (simp add: stream_abort_def DeviceState_def Endpoint_IsSETUPReceived_def)

lemma fetch_after_write:
  assumes "UENUM c = 0"
  shows "bus h Fetch_IN (set_cur (\<lambda>e. e\<lparr>TXINI := False, sent := sent e @ [p], UEDATX_out := []\<rparr>) c)
    = set_cur (\<lambda>e. e\<lparr>TXINI := True, sent := sent e @ [p], UEDATX_out := []\<rparr>) c"
  using assms by (cases "endpoint c 0") (simp add: on_endpoint0_def set_cur_def cur_def)

lemma control_loop_last:
  assumes "control_ready c" "unat L \<le> length bs" "unat L < FIXED_CONTROL_ENDPOINT_SIZE" "L \<noteq> 0 \<or> F"
  shows "control_loop h (Fetch_IN # OUT_packet # es) bs L F c = Inr (ENDPOINT_RWCSTREAM_NoError, delivered [take (unat L) bs] es c)"
proof -
  let ?t = "set_cur (\<lambda>e. e\<lparr>TXINI := False, sent := sent e @ [take (unat L) bs], UEDATX_out := []\<rparr>) c"
  have t: "write_turn bs L F c = Inr (drop (unat L) bs, 0, False, ?t)"
    using assms write_turn_spec [of L bs c "unat L" F] by (simp add: control_ready_def Endpoint_IsINReady_def)
  let ?b = "set_cur (\<lambda>e. e\<lparr>TXINI := True, sent := sent e @ [take (unat L) bs], UEDATX_out := []\<rparr>) c"
  have b: "bus h Fetch_IN ?t = ?b"
    using assms(1) by (intro fetch_after_write) (simp add: control_ready_def)
  have "\<not> OUTReceived ?b" "stream_abort ?b = None"
    using assms(1) stream_abort_cong [of ?b c] by (simp_all add: control_ready_def OUTReceived_def)
  moreover have "OUTReceived (bus h OUT_packet ?b)" "(bus h OUT_packet ?b)\<lparr>events := es\<rparr> = delivered [take (unat L) bs] es c"
    using assms(1) by (cases "endpoint c 0"; simp add: on_endpoint0_def OUTReceived_def cur_def set_cur_def delivered_def control_ready_def)+
  ultimately have "control_loop h (OUT_packet # es) (drop (unat L) bs) 0 False ?b
      = Inr (ENDPOINT_RWCSTREAM_NoError, delivered [take (unat L) bs] es c)"
    by (subst control_loop.simps, cases es) (simp_all add: wait_OUT_def del: bus.simps)
  then show ?thesis using assms(1,4) t b
    by (subst control_loop.simps) (auto simp: control_ready_def OUTReceived_def simp del: bus.simps)
qed

lemma control_loop_delivers:
  assumes "control_ready c" "unat L \<le> length bs" "L \<noteq> 0 \<or> F"
  shows "control_loop h (replicate (length (control_packets (take (unat L) bs))) Fetch_IN @ OUT_packet # es) bs L F c
    = Inr (ENDPOINT_RWCSTREAM_NoError, delivered (control_packets (take (unat L) bs)) es c)"
  using assms
proof (induction "unat L" arbitrary: L bs F c rule: less_induct)
  case less
  show ?case
  proof (cases "unat L < FIXED_CONTROL_ENDPOINT_SIZE")
    case True
    then have "control_packets (take (unat L) bs) = [take (unat L) bs]"
      using less.prems(2) by (subst control_packets.simps) (simp add: min_absorb1)
    then show ?thesis using control_loop_last [OF less.prems(1,2) True less.prems(3), of h es] by simp
  next
    case False
    let ?n = FIXED_CONTROL_ENDPOINT_SIZE
    let ?b = "set_cur (\<lambda>e. e\<lparr>TXINI := True, sent := sent e @ [take ?n bs], UEDATX_out := []\<rparr>) c"
    let ?L = "L - of_nat ?n"
    have n: "?n \<le> unat L" "?n \<le> length bs" using False less.prems(2) by simp_all
    have "(of_nat ?n :: u16) \<le> L" "unat (of_nat ?n :: u16) = ?n"
      using n(1) by (simp_all add: FIXED_CONTROL_ENDPOINT_SIZE_def word_le_nat_alt)
    then have L: "unat ?L = unat L - ?n" by (simp add: unat_sub)
    have n0: "unat L - ?n < unat L" using n(1) unfolding FIXED_CONTROL_ENDPOINT_SIZE_def by linarith
    have t: "write_turn bs L F c = Inr (drop ?n bs, ?L, True, set_cur (\<lambda>e. e\<lparr>TXINI := False, sent := sent e @ [take ?n bs], UEDATX_out := []\<rparr>) c)"
      using less.prems(1,2) n write_turn_spec [of L bs c ?n F] by (simp add: control_ready_def Endpoint_IsINReady_def)
    have b: "bus h Fetch_IN (set_cur (\<lambda>e. e\<lparr>TXINI := False, sent := sent e @ [take ?n bs], UEDATX_out := []\<rparr>) c) = ?b"
      using less.prems(1) by (intro fetch_after_write) (simp add: control_ready_def)
    have ready: "control_ready ?b"
      using less.prems(1) stream_abort_cong [of ?b c] by (simp add: control_ready_def)
    have p: "control_packets (take (unat L) bs) = take ?n bs # control_packets (take (unat ?L) (drop ?n bs))"
      using n by (subst control_packets.simps) (simp add: L min_def drop_take)
    have "control_loop h (replicate (length (control_packets (take (unat ?L) (drop ?n bs)))) Fetch_IN @ OUT_packet # es) (drop ?n bs) ?L True ?b
        = Inr (ENDPOINT_RWCSTREAM_NoError, delivered (control_packets (take (unat ?L) (drop ?n bs))) es ?b)"
      using ready less.prems(2) n by (intro less.hyps) (simp_all add: L n0)
    moreover have "delivered ps es ?b = delivered (take ?n bs # ps) es c" for ps
      using less.prems(1) by (cases "endpoint c 0") (auto simp: delivered_def set_cur_def cur_def control_ready_def)
    ultimately show ?thesis using less.prems(1,3) t b
      by (subst control_loop.simps) (auto simp: p control_ready_def OUTReceived_def simp del: bus.simps)
  qed
qed


text \<open>A request as its eight bytes.\<close>

definition request_bytes :: "u8 \<Rightarrow> u8 \<Rightarrow> u16 \<Rightarrow> u16 \<Rightarrow> u16 \<Rightarrow> u8 list" where
  "request_bytes r q v i l = [r, q] @ le16 v @ le16 i @ le16 l"

lemma le_word_le16: "le_word (ucast w) (ucast (drop_bit 8 w)) = w"
  by (rule bit_word_eqI) (auto simp: le_word_def bit_simps)

definition receive_request :: "u8 \<Rightarrow> u8 \<Rightarrow> u16 \<Rightarrow> u16 \<Rightarrow> u16 \<Rightarrow> control \<Rightarrow> control" where
  "receive_request r q v i l c =
     c\<lparr>endpoint := (endpoint c)(0 := (endpoint c 0)\<lparr>RXSTPI := True, STALLRQ := False, UEDATX_in := []\<rparr>), UENUM := 0,
       USB_ControlRequest := \<lparr>bmRequestType = r, bRequest = q, wValue = v, wIndex = i, wLength = l\<rparr>\<rparr>"

lemma read_request_bytes:
  "read_request (Endpoint_SelectEndpoint ENDPOINT_CONTROLEP (bus h (SETUP_packet (request_bytes r q v i l)) c))
   = Inr (receive_request r q v i l c)"
  by (cases "endpoint c 0")
    (simp add: read_request_def request_bytes_def le16_def le_word_le16 receive_request_def register_ops on_endpoint0_def
      ENDPOINT_CONTROLEP_def)

lemma usb_task_request:
  assumes "DeviceState c \<noteq> DEVICE_STATE_Unattached"
  shows "USB_USBTask h (bus h (SETUP_packet (request_bytes r q v i l)) c) =
    andthen (standard_request h (receive_request r q v i l c)) (\<lambda>c'.
      Inr (Endpoint_SelectEndpoint (Endpoint_GetCurrentEndpoint c)
        (if Endpoint_IsSETUPReceived c' then Endpoint_StallTransaction (Endpoint_ClearSETUP c') else c')))"
proof -
  let ?b = "bus h (SETUP_packet (request_bytes r q v i l)) c"
  have "DeviceState ?b = DeviceState c" by (simp add: DeviceState_def on_endpoint0_def)
  moreover have "Endpoint_IsSETUPReceived (Endpoint_SelectEndpoint ENDPOINT_CONTROLEP ?b)"
    "Endpoint_IsSETUPReceived (receive_request r q v i l c)"
    by (simp_all add: Endpoint_IsSETUPReceived_def cur_def on_endpoint0_def ENDPOINT_CONTROLEP_def receive_request_def)
  moreover have "Endpoint_GetCurrentEndpoint ?b = Endpoint_GetCurrentEndpoint c"
    by (simp add: Endpoint_GetCurrentEndpoint_def Endpoint_GetEndpointDirection_def cur_def on_endpoint0_def)
  ultimately show ?thesis using assms
    by (simp add: USB_USBTask_def USB_DeviceTask_def USB_Device_ProcessControlRequest_def read_request_bytes
        EVENT_USB_Device_ControlRequest_def andthen_assoc Let_def del: bus.simps)
qed


section \<open>What configuring does to the registers\<close>

definition configured_regs :: "u8 \<Rightarrow> u8 \<Rightarrow> u8 \<Rightarrow> u8 \<Rightarrow> endpoint_regs \<Rightarrow> endpoint_regs" where
  "configured_regs n a b k e =
     (if k = n then e\<lparr>EPEN := True, UECFG0X := a, UECFG1X := b, UEIENX := 0\<rparr>
      else if UECFG1X e AND 2 \<noteq> 0 then e\<lparr>EPEN := True\<rparr> else e)"

lemma configure_from_ok:
  assumes "\<And>n a b. CFGOK h n a b" "b AND 2 \<noteq> 0" "distinct ns" "list_all (\<lambda>k. k AND ENDPOINT_EPNUM_MASK = k) ns"
  shows "configure_from h n a b ns c =
    (True, c\<lparr>UENUM := n AND ENDPOINT_EPNUM_MASK, endpoint := \<lambda>k. if k \<in> set ns then configured_regs n a b k (endpoint c k) else endpoint c k\<rparr>)"
  using assms(3,4)
proof (induction ns arbitrary: c)
  case Nil
  then show ?case by (cases c) (simp add: Endpoint_SelectEndpoint_def)
next
  case (Cons k ns)
  let ?e = "configured_regs n a b k (endpoint c k)"
  let ?c = "c\<lparr>UENUM := k, endpoint := (endpoint c)(k := ?e)\<rparr>"
  have "configure_from h n a b (k # ns) c = configure_from h n a b ns ?c"
    using Cons.prems assms(1,2)
    by (cases "endpoint c k")
      (auto simp: Let_def Endpoint_SelectEndpoint_def Endpoint_IsConfigured_def Endpoint_DisableEndpoint_def Endpoint_EnableEndpoint_def
        set_cur_twice configured_regs_def set_cur_def cur_def fun_upd_idem)
  also have "\<dots> = (True, ?c\<lparr>UENUM := n AND ENDPOINT_EPNUM_MASK,
      endpoint := \<lambda>j. if j \<in> set ns then configured_regs n a b j (endpoint ?c j) else endpoint ?c j\<rparr>)"
    using Cons.prems by (intro Cons.IH) simp_all
  also have "(\<lambda>j. if j \<in> set ns then configured_regs n a b j (endpoint ?c j) else endpoint ?c j)
      = (\<lambda>j. if j \<in> set (k # ns) then configured_regs n a b j (endpoint c j) else endpoint c j)"
    using Cons.prems by auto
  finally show ?case by simp
qed

definition total_endpoints :: "u8 \<Rightarrow> u8 list" where
  "total_endpoints n = map of_nat [unat n..<unat ENDPOINT_TOTAL_ENDPOINTS]"

lemma total_endpoints_simps:
  "total_endpoints 0 = [0, 1, 2, 3, 4, 5, 6]" "total_endpoints 1 = [1, 2, 3, 4, 5, 6]" "total_endpoints 2 = [2, 3, 4, 5, 6]"
  by code_simp+

lemma configure_endpoint_ok:
  assumes "\<And>n a b. CFGOK h n a b"
  shows
    "Endpoint_ConfigureEndpoint h ENDPOINT_CONTROLEP EP_TYPE_CONTROL (of_nat FIXED_CONTROL_ENDPOINT_SIZE) 1 c =
      (True, c\<lparr>UENUM := 0, endpoint := \<lambda>k. if k \<in> set (total_endpoints 0) then configured_regs 0 0 0x32 k (endpoint c k) else endpoint c k\<rparr>)"
    "Endpoint_ConfigureEndpoint h MIDI_STREAM_IN_EPADDR EP_TYPE_BULK 64 1 c =
      (True, c\<lparr>UENUM := 2, endpoint := \<lambda>k. if k \<in> set (total_endpoints 2) then configured_regs 2 0x81 0x32 k (endpoint c k) else endpoint c k\<rparr>)"
    "Endpoint_ConfigureEndpoint h MIDI_STREAM_OUT_EPADDR EP_TYPE_BULK 64 1 c =
      (True, c\<lparr>UENUM := 1, endpoint := \<lambda>k. if k \<in> set (total_endpoints 1) then configured_regs 1 0x80 0x32 k (endpoint c k) else endpoint c k\<rparr>)"
proof -
  have m: "Endpoint_BytesToEPSizeMask 64 = 0x30" by code_simp
  have a: "MIDI_STREAM_IN_EPADDR = 0x82" "MIDI_STREAM_OUT_EPADDR = 1" "ENDPOINT_EPNUM_MASK = 0xF" "ENDPOINT_TOTAL_ENDPOINTS = 7"
    "ENDPOINT_DIR_IN = 0x80" "EP_TYPE_BULK = 2" "EP_TYPE_CONTROL = 0" by code_simp+
  have prv: "Endpoint_ConfigureEndpoint_Prv h n x 0x32 c
      = (True, c\<lparr>UENUM := n, endpoint := \<lambda>k. if k \<in> set (total_endpoints n) then configured_regs n x 0x32 k (endpoint c k) else endpoint c k\<rparr>)"
    if "n \<in> {0, 1, 2}" for n x
    using that unfolding Endpoint_ConfigureEndpoint_Prv_def total_endpoints_def [symmetric]
    by (subst configure_from_ok) (auto simp: assms total_endpoints_simps a)
  show "Endpoint_ConfigureEndpoint h ENDPOINT_CONTROLEP EP_TYPE_CONTROL (of_nat FIXED_CONTROL_ENDPOINT_SIZE) 1 c =
      (True, c\<lparr>UENUM := 0, endpoint := \<lambda>k. if k \<in> set (total_endpoints 0) then configured_regs 0 0 0x32 k (endpoint c k) else endpoint c k\<rparr>)"
    using prv [of 0 0] by (simp add: Endpoint_ConfigureEndpoint_def a m FIXED_CONTROL_ENDPOINT_SIZE_def ENDPOINT_CONTROLEP_def)
  show "Endpoint_ConfigureEndpoint h MIDI_STREAM_IN_EPADDR EP_TYPE_BULK 64 1 c =
      (True, c\<lparr>UENUM := 2, endpoint := \<lambda>k. if k \<in> set (total_endpoints 2) then configured_regs 2 0x81 0x32 k (endpoint c k) else endpoint c k\<rparr>)"
    using prv [of 2 "0x81"] by (simp add: Endpoint_ConfigureEndpoint_def a m)
  show "Endpoint_ConfigureEndpoint h MIDI_STREAM_OUT_EPADDR EP_TYPE_BULK 64 1 c =
      (True, c\<lparr>UENUM := 1, endpoint := \<lambda>k. if k \<in> set (total_endpoints 1) then configured_regs 1 0x80 0x32 k (endpoint c k) else endpoint c k\<rparr>)"
    using prv [of 1 "0x80"] by (simp add: Endpoint_ConfigureEndpoint_def a m word_le_nat_alt)
qed


section \<open>Enumeration\<close>

text \<open>The control endpoint after a request without data has been acknowledged.\<close>

definition acknowledged :: "bool \<Rightarrow> endpoint_regs \<Rightarrow> endpoint_regs" where
  "acknowledged fetched e =
     e\<lparr>RXSTPI := False, STALLRQ := False, UEDATX_in := [], TXINI := fetched, sent := sent e @ [UEDATX_out e], UEDATX_out := []\<rparr>"

lemma set_address_answered:
  assumes "DeviceState c \<noteq> DEVICE_STATE_Unattached" "TXINI (endpoint c 0)" "events c = [Fetch_IN]"
  shows "\<exists>c'. USB_USBTask h (bus h (SETUP_packet (request_bytes 0 REQ_SetAddress v 0 0)) c) = Inr c'
    \<and> fw_dev c' = set_usb_state (if ucast (v AND 0x7F) \<noteq> (0 :: u8) then DEVICE_STATE_Addressed else DEVICE_STATE_Default) (fw_dev c)
    \<and> UDADDR c' = 0x80 OR (ucast (v AND 0x7F) AND 0x7F) \<and> events c' = []
    \<and> USB_Device_ConfigurationNumber c' = USB_Device_ConfigurationNumber c
    \<and> endpoint c' = (endpoint c)(0 := acknowledged True (endpoint c 0))"
proof -
  let ?q = "receive_request 0 REQ_SetAddress v 0 0 c"
  have "standard_request h ?q = USB_Device_SetAddress h ?q"
    by (simp add: standard_request_def receive_request_def control_constants)
  moreover have "\<exists>c'. USB_Device_SetAddress h ?q = Inr c' \<and> \<not> Endpoint_IsSETUPReceived c'
    \<and> fw_dev c' = set_usb_state (if ucast (v AND 0x7F) \<noteq> (0 :: u8) then DEVICE_STATE_Addressed else DEVICE_STATE_Default) (fw_dev c)
    \<and> UDADDR c' = (UDADDR c AND 0x80 OR (ucast (v AND 0x7F) AND 0x7F)) OR 0x80 \<and> events c' = []
    \<and> USB_Device_ConfigurationNumber c' = USB_Device_ConfigurationNumber c
    \<and> endpoint c' = (endpoint c)(0 := acknowledged True (endpoint c 0))"
    using assms
    by (cases "endpoint c 0")
      (simp add: USB_Device_SetAddress_def receive_request_def USB_Device_SetDeviceAddress_def Endpoint_ClearStatusStage_def register_ops
        REQDIR_DEVICETOHOST_def Endpoint_IsINReady_def on_endpoint0_def USB_Device_EnableDeviceAddress_def set_DeviceState_def
        Endpoint_IsSETUPReceived_def acknowledged_def)
  moreover have "(x AND 0x80 OR y) OR 0x80 = 0x80 OR y" for x y :: u8
    by (rule bit_word_eqI) (auto simp: bit_simps)
  ultimately show ?thesis using usb_task_request [OF assms(1), of h 0 REQ_SetAddress v 0 0] by auto
qed


text \<open>Both streaming endpoints switched on: bulk, one bank of 64 bytes, in their directions.\<close>

definition streaming_on :: "control \<Rightarrow> bool" where
  "streaming_on c \<longleftrightarrow>
     EPEN (endpoint c 1) \<and> UECFG0X (endpoint c 1) = 0x80 \<and> UECFG1X (endpoint c 1) = 0x32
     \<and> EPEN (endpoint c 2) \<and> UECFG0X (endpoint c 2) = 0x81 \<and> UECFG1X (endpoint c 2) = 0x32"

lemma configuration_changed_ok:
  assumes "\<And>n a b. CFGOK h n a b"
  shows "fw_dev (ConfigurationChanged h c) = EVENT_USB_Device_ConfigurationChanged True (fw_dev c)
    \<and> UDADDR (ConfigurationChanged h c) = UDADDR c \<and> UENUM (ConfigurationChanged h c) = 1
    \<and> USB_Device_ConfigurationNumber (ConfigurationChanged h c) = USB_Device_ConfigurationNumber c
    \<and> RXSTPI (endpoint (ConfigurationChanged h c) 1) = RXSTPI (endpoint c 1)
    \<and> endpoint (ConfigurationChanged h c) 0 = endpoint c 0 \<and> streaming_on (ConfigurationChanged h c)"
proof -
  have "MIDI_STREAM_IN_EPADDR \<noteq> 0" "MIDI_STREAM_OUT_EPADDR \<noteq> 0" by code_simp+
  then show ?thesis
    by (simp add: ConfigurationChanged_def MIDI_Device_ConfigureEndpoints_def DataINEndpoint_def DataOUTEndpoint_def
        configure_endpoint_ok [OF assms] total_endpoints_simps configured_regs_def streaming_on_def)
qed

definition configuration_state :: "u8 \<Rightarrow> control \<Rightarrow> usb_device_state" where
  "configuration_state n c = (if n \<noteq> 0 \<or> USB_Device_IsAddressSet c then DEVICE_STATE_Configured else DEVICE_STATE_Powered)"

lemma set_configuration_answered:
  assumes "DeviceState c \<noteq> DEVICE_STATE_Unattached" "TXINI (endpoint c 0)" "\<not> RXSTPI (endpoint c 1)" "n \<le> 1"
    "\<And>n a b. CFGOK h n a b"
  shows "\<exists>c'. USB_USBTask h (bus h (SETUP_packet (request_bytes 0 REQ_SetConfiguration (ucast n) 0 0)) c) = Inr c'
    \<and> fw_dev c' = EVENT_USB_Device_ConfigurationChanged True (set_usb_state (configuration_state n c) (fw_dev c))
    \<and> UDADDR c' = UDADDR c \<and> USB_Device_ConfigurationNumber c' = n
    \<and> endpoint c' 0 = acknowledged False (endpoint c 0) \<and> streaming_on c'"
proof -
  let ?q = "receive_request 0 REQ_SetConfiguration (ucast n) 0 0 c"
  let ?a = "(?q\<lparr>endpoint := (endpoint c)(0 := acknowledged False (endpoint c 0)), USB_Device_ConfigurationNumber := n, events := events c,
    fw_dev := set_usb_state (configuration_state n c) (fw_dev c)\<rparr>)"
  have n: "ucast (ucast n :: u16) = n" by (rule bit_word_eqI) (simp add: bit_simps)
  have 1: "standard_request h ?q = USB_Device_SetConfiguration h ?q"
    by (simp add: standard_request_def receive_request_def control_constants)
  have w: "wait_until h ready leave es c = Inr (True, c\<lparr>events := es\<rparr>)" if "ready c" for ready leave es and c :: control
    using that by (cases es) simp_all
  have 2: "USB_Device_SetConfiguration h ?q = Inr (ConfigurationChanged h ?a)"
    using assms(2,4) by (cases "endpoint c 0")
      (auto simp: USB_Device_SetConfiguration_def receive_request_def Endpoint_ClearStatusStage_def register_ops
        REQDIR_DEVICETOHOST_def Endpoint_IsINReady_def w set_DeviceState_def acknowledged_def configuration_state_def
        USB_Device_IsAddressSet_def n FIXED_NUM_CONFIGURATIONS_def intro!: arg_cong [where f = "ConfigurationChanged h"])
  have "\<not> Endpoint_IsSETUPReceived (ConfigurationChanged h ?a)"
    using assms(3) configuration_changed_ok [OF assms(5), of ?a] by (simp add: Endpoint_IsSETUPReceived_def cur_def)
  then show ?thesis
    using usb_task_request [OF assms(1), of h 0 REQ_SetConfiguration "ucast n" 0 0] 1 2 configuration_changed_ok [OF assms(5), of ?a]
    by (simp add: streaming_on_def) (simp add: receive_request_def)
qed


section \<open>Bus events of an enumeration\<close>

definition attach_irq :: bus_event where "attach_irq = Usb_Interrupt (\<lambda>i. i = USB_INT_VBUSTI) True"
definition detach_irq :: bus_event where "detach_irq = Usb_Interrupt (\<lambda>i. i = USB_INT_VBUSTI) False"
definition reset_irq :: bus_event where "reset_irq = Usb_Interrupt (\<lambda>i. i = USB_INT_EORSTI) True"
definition suspend_irq :: bus_event where "suspend_irq = Usb_Interrupt (\<lambda>i. i = USB_INT_SUSPI) True"
definition wakeup_irq :: bus_event where "wakeup_irq = Usb_Interrupt (\<lambda>i. i = USB_INT_WAKEUPI) True"

lemmas bus_irqs = attach_irq_def detach_irq_def reset_irq_def suspend_irq_def wakeup_irq_def

lemma usb_init_registers:
  assumes "\<And>n a b. CFGOK h n a b"
  shows "int_enabled (USB_Init h c) USB_INT_VBUSTI \<and> int_enabled (USB_Init h c) USB_INT_EORSTI \<and> int_enabled (USB_Init h c) USB_INT_SUSPI
    \<and> TXINI (endpoint (USB_Init h c) 0) = TXINI (endpoint c 0) \<and> RXSTPI (endpoint (USB_Init h c) 1) = RXSTPI (endpoint c 1)"
  by (simp add: USB_Init_def USB_ResetInterface_def USB_Init_Device_def Let_def int_ops configure_endpoint_ok [OF assms]
      total_endpoints_simps configured_regs_def USB_INT_DisableAllInterrupts_def USB_INT_ClearAllInterrupts_def)

lemma attach_registers:
  assumes "int_enabled c USB_INT_VBUSTI"
  shows "fw_dev (bus h attach_irq c) = EVENT_USB_Device_Connect (set_usb_state DEVICE_STATE_Powered (fw_dev c))
    \<and> endpoint (bus h attach_irq c) = endpoint c \<and> int_enabled (bus h attach_irq c) = int_enabled c"
  using assms by (simp add: attach_irq_def USB_GEN_vect_def Let_def int_due_def int_ops vbus_changed_def)

lemma reset_registers:
  assumes "\<And>n a b. CFGOK h n a b" "int_enabled c USB_INT_EORSTI"
  shows "fw_dev (bus h reset_irq c) = set_usb_state DEVICE_STATE_Default (fw_dev c)
    \<and> TXINI (endpoint (bus h reset_irq c) 0) = TXINI (endpoint c 0) \<and> RXSTPI (endpoint (bus h reset_irq c) 1) = RXSTPI (endpoint c 1)
    \<and> USB_Device_ConfigurationNumber (bus h reset_irq c) = 0 \<and> UDADDR (bus h reset_irq c) = 0"
  using assms(2) by (simp add: reset_irq_def USB_GEN_vect_def Let_def int_due_def int_ops end_of_reset_def configure_endpoint_ok [OF assms(1)]
      total_endpoints_simps configured_regs_def)

lemma attached_and_reset:
  assumes "\<And>n a b. CFGOK h n a b" "c1 = bus h reset_irq (bus h attach_irq (USB_Init h c))"
  shows "DeviceState c1 = DEVICE_STATE_Default \<and> TXINI (endpoint c1 0) = TXINI (endpoint c 0)
    \<and> RXSTPI (endpoint c1 1) = RXSTPI (endpoint c 1) \<and> USB_Device_ConfigurationNumber c1 = 0 \<and> UDADDR c1 = 0"
  using usb_init_registers [OF assms(1), of c] attach_registers [of "USB_Init h c" h]
    reset_registers [OF assms(1), of "bus h attach_irq (USB_Init h c)"]
  by (simp add: assms(2) DeviceState_def set_usb_state_def)


lemma suspend_registers:
  assumes "int_enabled c USB_INT_SUSPI"
  shows "fw_dev (bus h suspend_irq c) = set_usb_state DEVICE_STATE_Suspended (fw_dev c) \<and> UDADDR (bus h suspend_irq c) = UDADDR c
    \<and> USB_Device_ConfigurationNumber (bus h suspend_irq c) = USB_Device_ConfigurationNumber c
    \<and> int_enabled (bus h suspend_irq c) USB_INT_WAKEUPI"
  using assms by (simp add: suspend_irq_def USB_GEN_vect_def Let_def int_due_def int_ops suspended_def)

lemma wakeup_registers:
  assumes "int_enabled c USB_INT_WAKEUPI"
  shows "DeviceState (bus h wakeup_irq c) = (if USB_Device_ConfigurationNumber c \<noteq> 0 then DEVICE_STATE_Configured
      else if USB_Device_IsAddressSet c then DEVICE_STATE_Addressed else DEVICE_STATE_Powered)"
  using assms by (simp add: wakeup_irq_def USB_GEN_vect_def Let_def int_due_def int_ops woken_up_def DeviceState_def set_usb_state_def
      USB_Device_IsAddressSet_def)

section \<open>Properties\<close>

definition avr_example :: avr where
  "avr_example = \<lparr>boot_signature_byte_get = \<lambda>a. a, CFGOK = \<lambda>_ _ _. True\<rparr>"

definition endpoint_example :: endpoint_regs where
  "endpoint_example = \<lparr>EPEN = False, STALLRQ = False, UECFG0X = 0, UECFG1X = 0, UEIENX = 0, RXSTPI = False, RXOUTI = False,
     TXINI = True, UEDATX_in = [], UEDATX_out = [], sent = []\<rparr>"

definition control_example :: control where
  "control_example = \<lparr>fw_dev = set_usb_state DEVICE_STATE_Default dev_example,
     USB_ControlRequest = \<lparr>bmRequestType = 0, bRequest = 0, wValue = 0, wIndex = 0, wLength = 0\<rparr>,
     USB_Device_ConfigurationNumber = 0, USB_Device_CurrentlySelfPowered = False, USB_Device_RemoteWakeupEnabled = False,
     USB_IsInitialized = False, UDADDR = 0, UENUM = 0, endpoint = \<lambda>_. endpoint_example, int_flag = \<lambda>_. False,
     int_enabled = \<lambda>_. False, VBUS = False, DETACH = True, LSM = False, FRZCLK = False, USBE = False, PLLE = False,
     UVREGE = False, OTGPADE = False, PLLFRQ = 0, events = []\<rparr>"

lemma control_example_state: "DeviceState control_example = DEVICE_STATE_Default"
  by (simp add: control_example_def DeviceState_def set_usb_state_def)

text \<open>C13: a descriptor arrives complete.  A host that asks an attached device for a descriptor it has, fetches every packet
  and then acknowledges, receives the descriptor cut to the length it asked for, and nothing else, in packets
  of 64 bytes of which the last is shorter; the request is neither stalled nor left pending.\<close>

theorem descriptor_delivered:
  assumes "DeviceState c \<noteq> DEVICE_STATE_Unattached" "DeviceState c \<noteq> DEVICE_STATE_Suspended"
    and "UEDATX_out (endpoint c 0) = []" "TXINI (endpoint c 0)" "\<not> RXOUTI (endpoint c 0)"
    and "r = 0x80 \<or> r = 0x81" "v \<noteq> 0x03DC" "l \<noteq> 0"
    and d: "CALLBACK_USB_GetDescriptor v (ucast i) = (n, Some bs)"
    and a: "answer = take (min (unat n) (unat l)) bs"
    and es: "events c = replicate (length (control_packets answer)) Fetch_IN @ OUT_packet # es"
  shows "\<exists>c'. USB_USBTask h (bus h (SETUP_packet (request_bytes r REQ_GetDescriptor v i l)) c) = Inr c'
    \<and> sent (endpoint c' 0) = sent (endpoint c 0) @ control_packets answer \<and> concat (control_packets answer) = answer
    \<and> \<not> RXSTPI (endpoint c' 0) \<and> \<not> STALLRQ (endpoint c' 0) \<and> fw_dev c' = fw_dev c \<and> events c' = es"
proof -
  let ?q = "receive_request r REQ_GetDescriptor v i l c"
  let ?s = "Endpoint_ClearSETUP ?q"
  let ?L = "if n > l then l else n"
  have n: "n \<noteq> 0" "unat n \<le> length bs" using get_descriptor_safe [of v "ucast i"] d by auto
  have L: "unat ?L = min (unat n) (unat l)" "?L \<noteq> 0" using n(1) assms(8) by (auto simp: word_less_nat_alt min_def)
  have ready: "control_ready ?s" using assms(1-5)
    by (simp add: control_ready_def register_ops receive_request_def stream_abort_def DeviceState_def Endpoint_IsSETUPReceived_def)
  have dest: "(push_bit 8 (ucast DTYPE_String) OR ucast USE_INTERNAL_SERIAL :: u16) = 0x03DC" by code_simp
  have e: "events ?s = events c" "USB_ControlRequest ?s = USB_ControlRequest ?q" by (simp_all add: register_ops receive_request_def)
  have "control_loop h (events ?s) bs ?L False ?s
      = Inr (ENDPOINT_RWCSTREAM_NoError, delivered (control_packets answer) es ?s)"
    using control_loop_delivers [OF ready, of ?L bs False h es] L n(2) unfolding e es a by (simp only: L) simp
  then have w: "Endpoint_Write_Control_Stream_LE h bs n ?s = Inr (ENDPOINT_RWCSTREAM_NoError, delivered (control_packets answer) es ?s)"
    using n(1) by (simp add: Endpoint_Write_Control_Stream_LE_def Let_def e) (simp add: receive_request_def split: if_splits)
  have "standard_request h ?q = USB_Device_GetDescriptor h ?q"
    using assms(6) by (auto simp: standard_request_def receive_request_def control_constants)
  also have "\<dots> = Inr (ClearOUT (delivered (control_packets answer) es ?s))"
    using assms(7) n(1) d w unfolding USB_Device_GetDescriptor_def Endpoint_Write_Control_PStream_LE_def dest
    by (simp add: receive_request_def NO_DESCRIPTOR_def)
  finally have q: "standard_request h ?q = Inr (ClearOUT (delivered (control_packets answer) es ?s))" .
  let ?f = "ClearOUT (delivered (control_packets answer) es ?s)"
  have "\<not> Endpoint_IsSETUPReceived ?f" by (simp add: register_ops delivered_def Endpoint_IsSETUPReceived_def)
  then show ?thesis
    using usb_task_request [OF assms(1), of h r REQ_GetDescriptor v i l] q
    by (simp add: concat_control_packets) (simp add: register_ops delivered_def receive_request_def)
qed


theorem descriptor_delivered_witness:
  "\<exists>c'. USB_USBTask avr_example (bus avr_example (SETUP_packet (request_bytes 0x80 REQ_GetDescriptor 0x0200 0 0xFF))
       (control_example\<lparr>events := [Fetch_IN, Fetch_IN, OUT_packet]\<rparr>)) = Inr c'
     \<and> length (sent (endpoint c' 0)) = 2
     \<and> concat (sent (endpoint c' 0)) = concat (map descriptor_bytes ConfigurationDescriptor)"
proof -
  let ?c = "control_example\<lparr>events := [Fetch_IN, Fetch_IN, OUT_packet]\<rparr>"
  let ?bs = "concat (map descriptor_bytes ConfigurationDescriptor)"
  have d: "CALLBACK_USB_GetDescriptor 0x0200 (ucast (0 :: u16)) = (101, Some ?bs)" by code_simp
  have l: "length ?bs = 101" by code_simp
  then have p: "control_packets ?bs = [take 64 ?bs, drop 64 ?bs]"
    by (subst control_packets.simps, subst control_packets.simps) (simp add: FIXED_CONTROL_ENDPOINT_SIZE_def)
  have a: "?bs = take (min (unat (101 :: u16)) (unat (0xFF :: u16))) ?bs" using l by simp
  have e: "events ?c = replicate (length (control_packets ?bs)) Fetch_IN @ OUT_packet # []" unfolding p by simp
  have st: "DeviceState ?c = DEVICE_STATE_Default" using control_example_state by (simp add: DeviceState_def)
  have r: "endpoint control_example 0 = endpoint_example" by (simp add: control_example_def)
  have "\<exists>c'. USB_USBTask avr_example (bus avr_example (SETUP_packet (request_bytes 0x80 REQ_GetDescriptor 0x0200 0 0xFF)) ?c) = Inr c'
      \<and> sent (endpoint c' 0) = sent (endpoint ?c 0) @ control_packets ?bs \<and> concat (control_packets ?bs) = ?bs
      \<and> \<not> RXSTPI (endpoint c' 0) \<and> \<not> STALLRQ (endpoint c' 0) \<and> fw_dev c' = fw_dev ?c \<and> events c' = []"
    by (rule descriptor_delivered [OF _ _ _ _ _ _ _ _ d a e]) (simp_all add: st r endpoint_example_def)
  then show ?thesis by (auto simp: r endpoint_example_def p)
qed

text \<open>The requests that are refused: unknown ones, and known ones with a recipient or a value the device does not have.\<close>

definition refused :: "u8 \<Rightarrow> u8 \<Rightarrow> u16 \<Rightarrow> u16 \<Rightarrow> bool" where
  "refused r q v i \<longleftrightarrow>
     (if q = REQ_GetStatus then r \<noteq> 0x80 \<and> r \<noteq> 0x82
      else if q = REQ_ClearFeature \<or> q = REQ_SetFeature
      then (r \<noteq> 0 \<or> ucast v \<noteq> FEATURE_SEL_DeviceRemoteWakeup)
           \<and> (r \<noteq> 2 \<or> (ucast v = FEATURE_SEL_EndpointHalt \<and> ucast i AND ENDPOINT_EPNUM_MASK = ENDPOINT_CONTROLEP))
      else if q = REQ_SetAddress then r \<noteq> 0
      else if q = REQ_GetDescriptor
      then (r \<noteq> 0x80 \<and> r \<noteq> 0x81) \<or> (v \<noteq> 0x03DC \<and> fst (CALLBACK_USB_GetDescriptor v (ucast i)) = 0)
      else if q = REQ_GetConfiguration then r \<noteq> 0x80
      else if q = REQ_SetConfiguration then r \<noteq> 0 \<or> ucast v > FIXED_NUM_CONFIGURATIONS
      else True)"

lemma refused_unchanged:
  assumes "refused r q v i"
  shows "standard_request h (receive_request r q v i l c) = Inr (receive_request r q v i l c)"
proof -
  have serial: "(push_bit 8 (ucast DTYPE_String) OR ucast USE_INTERNAL_SERIAL :: u16) = 0x03DC" by code_simp
  have req: "USB_ControlRequest (receive_request r q v i l c) = \<lparr>bmRequestType = r, bRequest = q, wValue = v, wIndex = i, wLength = l\<rparr>" for r q
    by (simp add: receive_request_def)
  have gd: "USB_Device_GetDescriptor h (receive_request r q v i l c) = Inr (receive_request r q v i l c)"
    if "v \<noteq> 0x03DC" "fst (CALLBACK_USB_GetDescriptor v (ucast i)) = 0"
    using that by (simp add: USB_Device_GetDescriptor_def req serial NO_DESCRIPTOR_def split_beta)
  have sc: "USB_Device_SetConfiguration h (receive_request r q v i l c) = Inr (receive_request r q v i l c)"
    if "ucast v > FIXED_NUM_CONFIGURATIONS"
    using that by (simp add: USB_Device_SetConfiguration_def req)
  have cf: "USB_Device_ClearSetFeature h (receive_request r q v i l c) = Inr (receive_request r q v i l c)"
    if "r = 0 \<and> ucast v \<noteq> FEATURE_SEL_DeviceRemoteWakeup
      \<or> r = 2 \<and> ucast v = FEATURE_SEL_EndpointHalt \<and> ucast i AND ENDPOINT_EPNUM_MASK = ENDPOINT_CONTROLEP"
    using that by (auto simp: USB_Device_ClearSetFeature_def req Let_def CONTROL_REQTYPE_RECIPIENT_def REQREC_DEVICE_def REQREC_ENDPOINT_def)
  consider "q = 0" | "q = 1 \<or> q = 3" | "q = 5" | "q = 6" | "q = 8" | "q = 9" | "q \<notin> {0, 1, 3, 5, 6, 8, 9}" by blast
  then show ?thesis
  proof cases
    case 2
    then show ?thesis using assms cf by (auto simp: standard_request_def refused_def Let_def req control_constants)
  next
    case 4
    then show ?thesis using assms gd by (auto simp: standard_request_def refused_def Let_def req control_constants)
  next
    case 6
    then show ?thesis using assms sc by (auto simp: standard_request_def refused_def Let_def req control_constants)
  qed (use assms in \<open>simp_all add: standard_request_def refused_def Let_def req control_constants\<close>)
qed

text \<open>C28: a request the device does not implement is refused.  Its SETUP packet is consumed, the control endpoint is stalled,
  no byte is sent, and the rest of the device is as before.\<close>

theorem unknown_request_stalled:
  assumes "DeviceState c \<noteq> DEVICE_STATE_Unattached" "refused r q v i"
  shows "\<exists>c'. USB_USBTask h (bus h (SETUP_packet (request_bytes r q v i l)) c) = Inr c'
    \<and> \<not> RXSTPI (endpoint c' 0) \<and> STALLRQ (endpoint c' 0) \<and> sent (endpoint c' 0) = sent (endpoint c 0)
    \<and> (\<forall>n. n = 0 \<or> endpoint c' n = endpoint c n) \<and> fw_dev c' = fw_dev c \<and> UDADDR c' = UDADDR c
    \<and> USB_Device_ConfigurationNumber c' = USB_Device_ConfigurationNumber c"
proof -
  have "Endpoint_IsSETUPReceived (receive_request r q v i l c)"
    by (simp add: Endpoint_IsSETUPReceived_def cur_def receive_request_def)
  then show ?thesis
    using usb_task_request [OF assms(1), of h r q v i l] refused_unchanged [OF assms(2), of h l c]
    by (simp add: register_ops) (simp add: receive_request_def)
qed

theorem unknown_request_stalled_witness:
  "\<exists>c'. USB_USBTask avr_example (bus avr_example (SETUP_packet (request_bytes 0x80 REQ_GetDescriptor 0x0600 0 10)) control_example) = Inr c'
     \<and> STALLRQ (endpoint c' 0) \<and> \<not> RXSTPI (endpoint c' 0)"
proof -
  have "refused 0x80 REQ_GetDescriptor 0x0600 0" by code_simp
  then show ?thesis using unknown_request_stalled [of control_example "0x80" REQ_GetDescriptor "0x0600" 0 avr_example 10]
    control_example_state by auto
qed


text \<open>C12: enumeration completes.  After initialisation, a host that powers the cable, resets the bus, assigns any address
  other than zero and selects the configuration leaves a device in the configured state at that address, with
  both streaming endpoints switched on as bulk endpoints of 64 bytes in their directions, provided the
  controller has the memory for them.\<close>

theorem enumeration_completes:
  assumes cfg: "\<And>n x y. CFGOK h n x y" and "TXINI (endpoint c 0)" "\<not> RXSTPI (endpoint c 1)" "a \<noteq> 0" "a < 128"
    and c1: "c1 = bus h reset_irq (bus h attach_irq (USB_Init h c))"
  shows "\<exists>c2 c3. USB_USBTask h (bus h (SETUP_packet (request_bytes 0 REQ_SetAddress (ucast a) 0 0)) (c1\<lparr>events := [Fetch_IN]\<rparr>)) = Inr c2
    \<and> USB_USBTask h (bus h (SETUP_packet (request_bytes 0 REQ_SetConfiguration 1 0 0)) c2) = Inr c3
    \<and> DeviceState c1 = DEVICE_STATE_Default \<and> DeviceState c2 = DEVICE_STATE_Addressed \<and> DeviceState c3 = DEVICE_STATE_Configured
    \<and> UDADDR c3 = 0x80 OR a \<and> USB_Device_ConfigurationNumber c3 = 1 \<and> streaming_on c3"
proof -
  let ?c = "c1\<lparr>events := [Fetch_IN]\<rparr>"
  have m: "(x :: u16) AND 0x7F = take_bit 7 x" "(y :: u8) AND 0x7F = take_bit 7 y" for x y
    by (simp_all add: take_bit_eq_mask mask_eq_exp_minus_1)
  have t: "take_bit 7 a = a" using assms(5) by (simp add: word_unat_eq_iff unsigned_take_bit_eq take_bit_nat_eq_self word_less_nat_alt)
  have "ucast (ucast a AND 0x7F :: u16) = take_bit 7 a" unfolding m by (auto intro!: bit_word_eqI simp: bit_simps)
  then have a: "ucast (ucast a AND 0x7F :: u16) = a" "a AND 0x7F = a" using t m by simp_all
  have 1: "DeviceState ?c = DEVICE_STATE_Default" "TXINI (endpoint ?c 0)" "\<not> RXSTPI (endpoint ?c 1)"
    using attached_and_reset [OF cfg c1] assms(2,3) by (simp_all add: DeviceState_def)
  obtain c2 where 2: "USB_USBTask h (bus h (SETUP_packet (request_bytes 0 REQ_SetAddress (ucast a) 0 0)) ?c) = Inr c2"
    "fw_dev c2 = set_usb_state DEVICE_STATE_Addressed (fw_dev ?c)" "UDADDR c2 = 0x80 OR a"
    "endpoint c2 = (endpoint ?c)(0 := acknowledged True (endpoint ?c 0))"
    using set_address_answered [of ?c h "ucast a"] 1 assms(4) a by auto
  have s2: "DeviceState c2 = DEVICE_STATE_Addressed" by (simp add: DeviceState_def 2(2) set_usb_state_def)
  have "TXINI (endpoint c2 0)" "\<not> RXSTPI (endpoint c2 1)" using 1 by (simp_all add: 2(4) acknowledged_def)
  then obtain c3 where 3: "USB_USBTask h (bus h (SETUP_packet (request_bytes 0 REQ_SetConfiguration 1 0 0)) c2) = Inr c3"
    "fw_dev c3 = EVENT_USB_Device_ConfigurationChanged True (set_usb_state (configuration_state 1 c2) (fw_dev c2))"
    "UDADDR c3 = UDADDR c2" "USB_Device_ConfigurationNumber c3 = 1" "streaming_on c3"
    using set_configuration_answered [of c2 1 h] s2 cfg by auto
  have "DeviceState c3 = DEVICE_STATE_Configured"
    by (simp add: DeviceState_def 3(2) EVENT_USB_Device_ConfigurationChanged_def led_enable_def set_usb_state_def configuration_state_def)
  then show ?thesis using 2 3 s2 attached_and_reset [OF cfg c1] by (intro exI [of _ c2] exI [of _ c3]) simp
qed

theorem enumeration_completes_witness:
  "\<exists>c2 c3. USB_USBTask avr_example (bus avr_example (SETUP_packet (request_bytes 0 REQ_SetAddress (ucast (5 :: u8)) 0 0))
        ((bus avr_example reset_irq (bus avr_example attach_irq (USB_Init avr_example control_example)))\<lparr>events := [Fetch_IN]\<rparr>)) = Inr c2
    \<and> USB_USBTask avr_example (bus avr_example (SETUP_packet (request_bytes 0 REQ_SetConfiguration 1 0 0)) c2) = Inr c3
    \<and> DeviceState c3 = DEVICE_STATE_Configured \<and> streaming_on c3"
  using enumeration_completes [of avr_example control_example 5 "bus avr_example reset_irq (bus avr_example attach_irq (USB_Init avr_example control_example))"]
  by (fastforce simp: avr_example_def control_example_def endpoint_example_def)

text \<open>Suspending and resuming the bus gives back a state that agrees with configuration and address.\<close>

lemma suspend_resume_roundtrip:
  assumes "int_enabled c USB_INT_SUSPI"
    and "DeviceState c = (if USB_Device_ConfigurationNumber c \<noteq> 0 then DEVICE_STATE_Configured
      else if USB_Device_IsAddressSet c then DEVICE_STATE_Addressed else DEVICE_STATE_Powered)"
  shows "DeviceState (bus h suspend_irq c) = DEVICE_STATE_Suspended \<and> DeviceState (bus h wakeup_irq (bus h suspend_irq c)) = DeviceState c"
  using suspend_registers [OF assms(1), of h] wakeup_registers [of "bus h suspend_irq c" h] assms(2)
  by (simp add: DeviceState_def set_usb_state_def USB_Device_IsAddressSet_def)

text \<open>C40: deselecting the configuration does not unconfigure the device.  A host that selects configuration zero, which should
  take a device back to the addressed state, leaves it in the configured state with its endpoints on; if the
  bus is then suspended and resumed, the same device comes back in the addressed state.\<close>

theorem configuration_zero_stays_configured:
  assumes cfg: "\<And>n x y. CFGOK h n x y" and "DeviceState c \<noteq> DEVICE_STATE_Unattached" "TXINI (endpoint c 0)" "\<not> RXSTPI (endpoint c 1)"
    and addr: "USB_Device_IsAddressSet c"
  shows "\<exists>c'. USB_USBTask h (bus h (SETUP_packet (request_bytes 0 REQ_SetConfiguration 0 0 0)) c) = Inr c'
    \<and> USB_Device_ConfigurationNumber c' = 0 \<and> DeviceState c' = DEVICE_STATE_Configured \<and> streaming_on c'
    \<and> (int_enabled c' USB_INT_SUSPI \<longrightarrow> DeviceState (bus h wakeup_irq (bus h suspend_irq c')) = DEVICE_STATE_Addressed)"
proof -
  obtain c' where c': "USB_USBTask h (bus h (SETUP_packet (request_bytes 0 REQ_SetConfiguration 0 0 0)) c) = Inr c'"
    "fw_dev c' = EVENT_USB_Device_ConfigurationChanged True (set_usb_state (configuration_state 0 c) (fw_dev c))"
    "UDADDR c' = UDADDR c" "USB_Device_ConfigurationNumber c' = 0" "streaming_on c'"
    using set_configuration_answered [of c 0 h] assms(2-4) cfg by auto
  have "DeviceState c' = DEVICE_STATE_Configured"
    using addr by (simp add: DeviceState_def c'(2) EVENT_USB_Device_ConfigurationChanged_def led_enable_def set_usb_state_def configuration_state_def)
  moreover have "DeviceState (bus h wakeup_irq (bus h suspend_irq c')) = DEVICE_STATE_Addressed" if "int_enabled c' USB_INT_SUSPI"
    using suspend_registers [OF that, of h] wakeup_registers [of "bus h suspend_irq c'" h] c'(3,4) addr
    by (simp add: USB_Device_IsAddressSet_def)
  ultimately show ?thesis using c' by blast
qed


theorem configuration_zero_stays_configured_witness:
  "\<exists>c'. USB_USBTask avr_example (bus avr_example (SETUP_packet (request_bytes 0 REQ_SetConfiguration 0 0 0))
        (control_example\<lparr>UDADDR := 0x85\<rparr>)) = Inr c'
     \<and> USB_Device_ConfigurationNumber c' = 0 \<and> DeviceState c' = DEVICE_STATE_Configured"
proof -
  have "DeviceState (control_example\<lparr>UDADDR := 0x85\<rparr>) \<noteq> DEVICE_STATE_Unattached"
    using control_example_state by (simp add: DeviceState_def)
  then show ?thesis
    using configuration_zero_stays_configured [of avr_example "control_example\<lparr>UDADDR := 0x85\<rparr>"]
    by (auto simp: avr_example_def control_example_def endpoint_example_def USB_Device_IsAddressSet_def)
qed

text \<open>
  The loop of \<^verbatim>\<open>USB_Device_SetAddress\<close> that waits for the bank after the status stage does not look at the device state:
  pulling the cable at that moment leaves the firmware in it, while the status stage itself is left.
\<close>

lemma detach_registers:
  assumes "int_enabled c USB_INT_VBUSTI"
  shows "DeviceState (bus h detach_irq c) = DEVICE_STATE_Unattached \<and> endpoint (bus h detach_irq c) = endpoint c
    \<and> UENUM (bus h detach_irq c) = UENUM c"
  using assms by (simp add: detach_irq_def USB_GEN_vect_def Let_def int_due_def int_ops vbus_changed_def DeviceState_def
      EVENT_USB_Device_Disconnect_def set_usb_state_def)

lemma quiet_hangs: "\<not> ready c \<Longrightarrow> \<not> leave c \<Longrightarrow> wait_until h ready leave (replicate n Quiet) c = Inl Hang"
  by (induction n) simp_all

lemma set_address_unplugged_hangs:
  assumes "DeviceState c \<noteq> DEVICE_STATE_Unattached" "int_enabled c USB_INT_VBUSTI" "\<not> TXINI (endpoint c 0)"
    and "events c = detach_irq # replicate n Quiet"
  shows "USB_USBTask h (bus h (SETUP_packet (request_bytes 0 REQ_SetAddress v 0 0)) c) = Inl Hang"
proof -
  let ?q = "receive_request 0 REQ_SetAddress v 0 0 c"
  let ?s = "Endpoint_ClearSETUP (USB_Device_SetDeviceAddress (ucast (wValue (USB_ControlRequest ?q) AND 0x7F)) ?q)"
  let ?d = "bus h detach_irq ?s"
  have s: "UENUM ?s = 0" "\<not> TXINI (endpoint ?s 0)" "events ?s = events c" "DeviceState ?s = DeviceState c"
    "int_enabled ?s USB_INT_VBUSTI" "bmRequestType (USB_ControlRequest ?s) = 0"
    using assms(2,3) by (simp_all add: register_ops receive_request_def USB_Device_SetDeviceAddress_def DeviceState_def)
  then have d: "DeviceState ?d = DEVICE_STATE_Unattached" "\<not> Endpoint_IsINReady ?d" "\<not> Endpoint_IsINReady ?s"
    using detach_registers [OF s(5), of h] by (simp_all add: Endpoint_IsINReady_def cur_def)
  have "Endpoint_ClearStatusStage h ?s = Inr (?d\<lparr>events := replicate n Quiet\<rparr>)"
    using s assms(1,4) d by (cases n) (simp_all add: Endpoint_ClearStatusStage_def unattached_def REQDIR_DEVICETOHOST_def)
  moreover have "wait_until h Endpoint_IsINReady (\<lambda>_. False) (replicate n Quiet) (?d\<lparr>events := replicate n Quiet\<rparr>) = Inl Hang"
    using d(2) by (intro quiet_hangs) (simp_all add: Endpoint_IsINReady_def cur_def)
  ultimately have "USB_Device_SetAddress h ?q = Inl Hang" by (simp add: USB_Device_SetAddress_def Let_def)
  moreover have "standard_request h ?q = USB_Device_SetAddress h ?q"
    by (simp add: standard_request_def receive_request_def control_constants)
  ultimately show ?thesis using usb_task_request [OF assms(1), of h 0 REQ_SetAddress v 0 0] by simp
qed

text \<open>C11: the device with its control endpoint is safe.  From power-on with any EEPROM contents and any well-formed start state of
  the USB registers, through any interleaving of interrupts, bus traffic and turns of the main loop, each turn with any
  conforming bus events while it waits, the firmware stays within the states of the system without the control
  endpoint and its invariant holds.  A turn of the main loop returns to such a state, enters the boot loader, or
  waits for the host inside a control request; the one exception is again the combo table.\<close>

theorem device_safe:
  assumes "usb_wf u" "out_queue u = []" "main_setup pins (power_on m u) = Inr (g0, fw_dev c0)"
    and "control_wf c0" "list_all event_wf (events c0)" "(device_step h)\<^sup>*\<^sup>* (g0, USB_Init h c0) (g, c)"
  shows "step\<^sup>*\<^sup>* (g0, fw_dev c0) (g, fw_dev c) \<and> fw_wf (g, fw_dev c) \<and> control_wf c
    \<and> (case main_turn h stale level (g, c) of
         Inr (g', c') \<Rightarrow> fw_wf (g', fw_dev c') \<and> control_wf c'
       | Inl e \<Rightarrow> e = Bootloader \<or> combo_stuck (combo_g (fw_dev c)) \<or> e = Hang \<and> RXSTPI (endpoint c 0))"
proof -
  have "fw_wf (g0, fw_dev c0)" using boot_spec [OF assms(1,2), of m pins] assms(3) by (auto split: if_splits)
  have i: "served (fw_dev c0) (USB_Init h c0)" "device_wf (g0, USB_Init h c0)"
    using usb_init_served [OF assms(4), of h] assms(5) by (simp_all add: device_wf_def served_def)
  then have s: "step\<^sup>*\<^sup>* (g0, fw_dev c0) (g, fw_dev c)" "device_wf (g, c)"
    using device_refines [OF assms(6) i(2)] by (auto simp: served_def reaches_def intro: rtranclp_trans)
  have wf: "fw_wf (g, fw_dev c)" using reachable_fw_wf [OF s(1)] \<open>fw_wf (g0, fw_dev c0)\<close> by blast
  have t: "runs (combo_stuck (combo_g (fw_dev c))) fw_wf (Midifighter_Task stale level (g, fw_dev c))" using wf by (rule task_runs)
  have "case main_turn h stale level (g, c) of
         Inr (g', c') \<Rightarrow> fw_wf (g', fw_dev c') \<and> control_wf c'
       | Inl e \<Rightarrow> e = Bootloader \<or> combo_stuck (combo_g (fw_dev c)) \<or> e = Hang \<and> RXSTPI (endpoint c 0)"
  proof (cases "main_turn h stale level (g, c)")
    case (Inr x)
    then have "step\<^sup>*\<^sup>* (g, fw_dev c) (fst x, fw_dev (snd x))" "device_wf x"
      using main_turn_steps [of h stale level g c "fst x" "snd x"] s(2) by simp_all
    then show ?thesis using Inr reachable_fw_wf wf by (cases x) (auto simp: device_wf_def)
  next
    case (Inl e)
    then consider "Midifighter_Task stale level (g, fw_dev c) = Inl e"
      | d where "USB_USBTask h (c\<lparr>fw_dev := d\<rparr>) = Inl e" by (auto simp: main_turn_def andthen_Inl_iff)
    then show ?thesis
    proof cases
      case 2
      then show ?thesis using usb_task_served [of "c\<lparr>fw_dev := d\<rparr>" h] usb_task_hang [OF 2] s(2) Inl by (simp add: device_wf_def)
    qed (use t Inl in \<open>auto simp: runs_def\<close>)
  qed
  then show ?thesis using s wf by (simp add: device_wf_def)
qed

theorem device_safe_witness:
  "\<exists>g0 d0. main_setup (replicate 10 (\<lambda>_. False)) (power_on (\<lambda>_. 1) usb_quiet) = Inr (g0, d0)
     \<and> step\<^sup>*\<^sup>* (g0, d0) (g0, fw_dev (USB_Init avr_example (control_example\<lparr>fw_dev := d0\<rparr>)))
     \<and> control_wf (USB_Init avr_example (control_example\<lparr>fw_dev := d0\<rparr>))"
proof -
  obtain g d where s: "main_setup (replicate 10 (\<lambda>_. False)) (power_on (\<lambda>_. 1) usb_quiet) = Inr (g, d)"
    using boot_cases [OF usb_quiet_facts, of "replicate 10 (\<lambda>_. False)" "\<lambda>_. 1"] by auto
  let ?c = "control_example\<lparr>fw_dev := d\<rparr>"
  have "main_setup (replicate 10 (\<lambda>_. False)) (power_on (\<lambda>_. 1) usb_quiet) = Inr (g, fw_dev ?c)" using s by simp
  moreover have "control_wf ?c" "list_all event_wf (events ?c)"
    by (simp_all add: control_wf_def regs_wf_def bank_wf_def setup_wf_def control_example_def endpoint_example_def)
  ultimately show ?thesis using device_safe [OF usb_quiet_facts _ _ _ rtranclp.rtrancl_refl, of _ _ _ ?c avr_example] s by auto
qed

end
