(* ===== verification/Mf_Boot.thy ===== *)
theory Mf_Boot
  imports Mf_Enumeration
begin

unbundle bit_operations_syntax

text \<open>
  \<^verbatim>\<open>jumptoboot.c\<close>: entering the boot loader through a watchdog reset.  The firmware leaves a key in a variable that the
  start-up code does not initialise, arms the watchdog and waits for the reset; the check that runs before
  \<^verbatim>\<open>main\<close> finds the key and jumps.  The two seconds of delay before the reset are not modelled.
\<close>

section \<open>The chip\<close>

record chip =
  Boot_Key :: u32
  MCUSR :: u8
  watchdog :: "u8 option"
  interrupts :: bool

definition MAGIC_BOOT_KEY :: u32 where "MAGIC_BOOT_KEY = 0xDC42ACCA"
definition WDRF :: nat where "WDRF = 3"
definition WDTO_250MS :: u8 where "WDTO_250MS = 4"

text \<open>
  What a reset does to the chip.  Its cause is added to the flags of \<open>MCUSR\<close>, which only a power-on clears; memory
  keeps its contents except when the supply fails, and then holds anything.  The watchdog stays on, at its shortest
  period, after a watchdog reset.
\<close>

datatype reset = Power_On u32 | External | Brown_Out u32 | Watchdog

fun chip_reset :: "reset \<Rightarrow> chip \<Rightarrow> chip" where
  "chip_reset (Power_On ram) k = k\<lparr>Boot_Key := ram, MCUSR := 1, watchdog := None, interrupts := False\<rparr>"
| "chip_reset External k = k\<lparr>MCUSR := MCUSR k OR 2, watchdog := None, interrupts := False\<rparr>"
| "chip_reset (Brown_Out ram) k = k\<lparr>Boot_Key := ram, MCUSR := MCUSR k OR 4, watchdog := None, interrupts := False\<rparr>"
| "chip_reset Watchdog k = k\<lparr>MCUSR := MCUSR k OR 8, watchdog := Some 0, interrupts := False\<rparr>"

section \<open>The jump\<close>

text \<open>The result says whether the jump is taken.\<close>

definition Bootloader_Jump_Check :: "chip \<Rightarrow> bool \<times> chip" where
  "Bootloader_Jump_Check k =
     (if MCUSR k AND push_bit WDRF 1 \<noteq> 0 \<and> Boot_Key k = MAGIC_BOOT_KEY then (True, k\<lparr>Boot_Key := 0\<rparr>) else (False, k))"

text \<open>The state in which the endless loop at the end waits for the watchdog.\<close>

definition Jump_To_Bootloader :: "chip \<times> control \<Rightarrow> chip \<times> control" where
  "Jump_To_Bootloader s = (case s of (k, c) \<Rightarrow>
     let c = USB_Disable c;
         k = k\<lparr>interrupts := False\<rparr>
     in (k\<lparr>Boot_Key := MAGIC_BOOT_KEY, watchdog := Some WDTO_250MS\<rparr>, c))"

text \<open>The first statements of \<^verbatim>\<open>main\<close>.\<close>

definition main_entry :: "chip \<Rightarrow> chip" where
  "main_entry k = k\<lparr>MCUSR := MCUSR k AND NOT (push_bit WDRF 1), watchdog := None\<rparr>"

text \<open>A start of the chip after a reset, and a sequence of them: did each enter the boot loader?\<close>

definition start :: "reset \<Rightarrow> chip \<Rightarrow> bool \<times> chip" where
  "start r k = (case Bootloader_Jump_Check (chip_reset r k) of (jumps, k) \<Rightarrow> (jumps, if jumps then k else main_entry k))"

fun starts :: "reset list \<Rightarrow> chip \<Rightarrow> bool list" where
  "starts [] k = []"
| "starts (r # rs) k = (case start r k of (jumps, k) \<Rightarrow> jumps # starts rs k)"

fun leaves_no_key :: "reset \<Rightarrow> bool" where
  "leaves_no_key (Power_On ram) \<longleftrightarrow> ram \<noteq> MAGIC_BOOT_KEY"
| "leaves_no_key (Brown_Out ram) \<longleftrightarrow> ram \<noteq> MAGIC_BOOT_KEY"
| "leaves_no_key _ \<longleftrightarrow> True"

lemma start_without_key:
  assumes "Boot_Key k \<noteq> MAGIC_BOOT_KEY" "leaves_no_key r"
  shows "\<exists>k'. start r k = (False, k') \<and> Boot_Key k' \<noteq> MAGIC_BOOT_KEY"
  using assms by (cases r) (simp_all add: start_def Bootloader_Jump_Check_def main_entry_def)

lemma starts_without_key:
  "Boot_Key k \<noteq> MAGIC_BOOT_KEY \<Longrightarrow> list_all leaves_no_key rs \<Longrightarrow> starts rs k = replicate (length rs) False"
proof (induction rs arbitrary: k)
  case (Cons r rs)
  then obtain k' where "start r k = (False, k')" "Boot_Key k' \<noteq> MAGIC_BOOT_KEY" using start_without_key [of k r] by auto
  then show ?case using Cons by simp
qed simp

lemma watchdog_flag [simp]: "(x OR 8) AND 2 ^ WDRF \<noteq> (0 :: u8)"
proof -
  have "bit ((x OR 8) AND 2 ^ WDRF) 3" by (simp add: WDRF_def bit_simps)
  then show ?thesis by auto
qed

text \<open>C27: the boot loader is entered exactly once.  After the firmware has asked for it, the USB side is detached with all its
  interrupts off, the watchdog reset that follows enters the boot loader, and no later reset of any kind does so
  again, unless memory that lost its supply happens to come back with the key.\<close>

theorem boot_loader_entered_once:
  assumes "list_all leaves_no_key rs" "Jump_To_Bootloader (k, c) = (k', c')"
  shows "starts (Watchdog # rs) k' = True # replicate (length rs) False
    \<and> watchdog k' \<noteq> None \<and> \<not> interrupts k' \<and> DETACH c' \<and> \<not> USBE c' \<and> (\<forall>i. \<not> int_enabled c' i)"
proof -
  have k: "k' = k\<lparr>interrupts := False, Boot_Key := MAGIC_BOOT_KEY, watchdog := Some WDTO_250MS\<rparr>" "c' = USB_Disable c"
    using assms(2) by (auto simp: Jump_To_Bootloader_def)
  obtain k2 where k2: "start Watchdog k' = (True, k2)" "Boot_Key k2 = 0"
    by (simp add: k start_def Bootloader_Jump_Check_def)
  have "Boot_Key k2 \<noteq> MAGIC_BOOT_KEY" using k2(2) by (simp add: MAGIC_BOOT_KEY_def)
  from starts_without_key [OF this assms(1)] have "starts (Watchdog # rs) k' = True # replicate (length rs) False" by (simp add: k2(1))
  then show ?thesis by (simp add: k USB_Disable_def USB_INT_DisableAllInterrupts_def USB_INT_ClearAllInterrupts_def)
qed

definition chip_example :: chip where
  "chip_example = \<lparr>Boot_Key = 0x12345678, MCUSR = 0, watchdog = Some 7, interrupts = True\<rparr>"

theorem boot_loader_entered_once_witness:
  "starts [Watchdog, External, Watchdog, Power_On 0xFFFFFFFF] (fst (Jump_To_Bootloader (chip_example, control_example)))
   = [True, False, False, False]"
proof -
  obtain k c where j: "Jump_To_Bootloader (chip_example, control_example) = (k, c)" by fastforce
  have "list_all leaves_no_key [External, Watchdog, Power_On 0xFFFFFFFF]" by (simp add: MAGIC_BOOT_KEY_def)
  from boot_loader_entered_once [OF this j] show ?thesis unfolding j fst_conv by (simp add: numeral_eq_Suc)
qed

text \<open>A watchdog reset without the key, and any other reset even with it, starts the firmware; but then the key stays where it is, and
  the next watchdog reset takes the jump.\<close>

lemma key_stays_armed:
  assumes "Boot_Key k = MAGIC_BOOT_KEY" "MCUSR k AND push_bit WDRF 1 = 0"
  shows "starts [External, Watchdog] k = [False, True]"
proof -
  have "(MCUSR k OR 2) AND push_bit WDRF 1 = MCUSR k AND push_bit WDRF 1"
    by (rule bit_word_eqI) (auto simp: WDRF_def bit_simps)
  then show ?thesis using assms by (simp add: start_def Bootloader_Jump_Check_def main_entry_def)
qed

end
