(* ===== verification/Mf_Interrupt.thy ===== *)
theory Mf_Interrupt
  imports Mf_Midifighter
begin

unbundle bit_operations_syntax

text \<open>
  The key interrupt inside the task.  The controller is an eight-bit machine and the task does not disable interrupts
  when it reads the samples and the clock, so the interrupt can fall between the bytes of a variable.  Which bytes are
  read after the interrupt depends on where it falls and on the order the compiler chose, and is an argument here.
  An interrupt comes every millisecond and a read takes less, so that one falls into a read at most.
\<close>

section \<open>Reading the samples\<close>

text \<open>A variable of eight bytes, of which some are read after it has changed.\<close>

definition torn_u64 :: "(nat \<Rightarrow> bool) \<Rightarrow> u64 \<Rightarrow> u64 \<Rightarrow> u64" where
  "torn_u64 late before after =
     fold (\<lambda>b acc. acc OR ((if late b then after else before) AND push_bit (8 * b) 0xFF)) [0..<8] 0"

definition key_read_interrupted :: "(nat \<Rightarrow> nat \<Rightarrow> bool) \<Rightarrow> (nat \<Rightarrow> bool) \<Rightarrow> key_globals \<Rightarrow> u32 \<times> key_globals" where
  "key_read_interrupted late pin k =
     (let k' = TIMER0_OVF_vect pin k;
          st = fold (\<lambda>i acc. acc AND torn_u64 (late i) (g_key_debounce_buffer k ! i) (g_key_debounce_buffer k' ! i))
                 [0..<DEBOUNCE_BUFFER_SIZE] 0xffffffffffffffff
      in (ucast st, k'\<lparr>g_key_state := st\<rparr>))"

lemma bit_byte_mask:
  assumes "j < 64"
  shows "bit (push_bit (8 * b) 0xFF :: u64) j \<longleftrightarrow> j div 8 = b"
proof -
  have m: "(0xFF :: u64) = mask 8" by (simp add: mask_eq_exp_minus_1)
  have "bit (push_bit (8 * b) 0xFF :: u64) j \<longleftrightarrow> 8 * b \<le> j \<and> j - 8 * b < 8" unfolding m using assms by (auto simp: bit_simps)
  also have "\<dots> \<longleftrightarrow> j div 8 = b" by auto
  finally show ?thesis .
qed

lemma bit_torn_u64:
  assumes "j < 64"
  shows "bit (torn_u64 late before after) j \<longleftrightarrow> bit (if late (j div 8) then after else before) j"
proof -
  have "bit (fold (\<lambda>b acc. acc OR ((if late b then after else before) AND push_bit (8 * b) 0xFF)) bs acc) j
      \<longleftrightarrow> bit acc j \<or> (j div 8 \<in> set bs \<and> bit (if late (j div 8) then after else before) j)"
    for bs acc
    by (induction bs arbitrary: acc) (auto simp: bit_or_iff bit_and_iff bit_byte_mask [OF assms])
  from this [of "[0..<8]" 0] show ?thesis using assms by (auto simp: torn_u64_def)
qed

lemma bit_all_ones: "j < 64 \<Longrightarrow> bit (0xffffffffffffffff :: u64) j"
proof -
  assume "j < 64"
  have "(0xffffffffffffffff :: u64) = - 1" by simp
  with \<open>j < 64\<close> show ?thesis by (simp only: bit_minus_1_iff) simp
qed

lemma bit_fold_and:
  fixes acc :: u64
  shows "bit (fold (\<lambda>i acc. acc AND f i) is acc) j \<longleftrightarrow> bit acc j \<and> (\<forall>i \<in> set is. bit (f i) j)"
  by (induction "is" arbitrary: acc) (auto simp: bit_and_iff)

lemma bit_key_state:
  "j < 64 \<Longrightarrow> bit (g_key_state (snd (key_read k))) j \<longleftrightarrow> (\<forall>i<DEBOUNCE_BUFFER_SIZE. bit (g_key_debounce_buffer k ! i) j)"
  using bit_all_ones [of j] by (auto simp: key_read_def Let_def bit_fold_and)

text \<open>C26: an interrupt in the middle of reading the keys does no harm.  Wherever it falls, every key is reported as a read
  just before or just after the interrupt would report it: as after it when the byte of that key in the sample
  that the interrupt replaces was still to be read, as before it otherwise.  Everything else is as if the
  interrupt had come first.\<close>

theorem key_read_linearizable:
  assumes "j < 64" "k' = snd (key_read_interrupted late pin k)"
  shows "(bit (g_key_state k') j \<longleftrightarrow>
      bit (g_key_state (snd (key_read (if late (unat (buffer_pos k)) (j div 8) then TIMER0_OVF_vect pin k else k)))) j)
    \<and> (\<forall>st. k'\<lparr>g_key_state := st\<rparr> = (snd (key_read (TIMER0_OVF_vect pin k)))\<lparr>g_key_state := st\<rparr>)"
proof
  let ?b = "g_key_debounce_buffer k" and ?b' = "g_key_debounce_buffer (TIMER0_OVF_vect pin k)"
  have same: "?b' ! i = ?b ! i" if "i \<noteq> unat (buffer_pos k)" for i using that by (simp add: TIMER0_OVF_vect_def)
  have cell: "(if late i (j div 8) then ?b' ! i else ?b ! i) = (if late (unat (buffer_pos k)) (j div 8) then ?b' else ?b) ! i" for i
    using same [of i] by (cases "i = unat (buffer_pos k)") simp_all
  have "bit (g_key_state k') j \<longleftrightarrow> (\<forall>i<DEBOUNCE_BUFFER_SIZE. bit (if late i (j div 8) then ?b' ! i else ?b ! i) j)"
    using bit_all_ones [OF assms(1)]
    by (auto simp: assms(2) key_read_interrupted_def Let_def bit_fold_and bit_torn_u64 [OF assms(1)])
  also have "\<dots> \<longleftrightarrow> (\<forall>i<DEBOUNCE_BUFFER_SIZE. bit ((if late (unat (buffer_pos k)) (j div 8) then ?b' else ?b) ! i) j)"
    by (simp only: cell)
  finally show "bit (g_key_state k') j \<longleftrightarrow>
      bit (g_key_state (snd (key_read (if late (unat (buffer_pos k)) (j div 8) then TIMER0_OVF_vect pin k else k)))) j"
    by (simp add: bit_key_state [OF assms(1)])
  show "\<forall>st. k'\<lparr>g_key_state := st\<rparr> = (snd (key_read (TIMER0_OVF_vect pin k)))\<lparr>g_key_state := st\<rparr>"
    by (simp add: assms(2) key_read_interrupted_def key_read_def Let_def)
qed

theorem key_read_linearizable_witness:
  "bit (g_key_state (snd (key_read_interrupted (\<lambda>i b. 0 < i) (\<lambda>_. True) (key_g dev_example)))) 5
   = bit (g_key_state (snd (key_read (key_g dev_example)))) 5"
proof -
  have p: "buffer_pos (key_g dev_example) = 0" by code_simp
  show ?thesis using key_read_linearizable [of 5 _ "\<lambda>i b. 0 < i" "\<lambda>_. True" "key_g dev_example"] by (simp add: p)
qed

section \<open>Reading the clock\<close>

text \<open>The clock read as two bytes with one interrupt between them.\<close>

definition torn_clock :: "bool \<Rightarrow> u16 \<Rightarrow> u16" where
  "torn_clock low_first t =
     (let lo = ucast (if low_first then t else t + 1) :: u8;
          hi = ucast (drop_bit 8 (if low_first then t + 1 else t)) :: u8
      in push_bit 8 (ucast hi) OR ucast lo)"

lemma joined_bytes: "unat (push_bit 8 (ucast hi) OR ucast lo :: u16) = 256 * unat (hi :: u8) + unat (lo :: u8)"
proof -
  have "(push_bit 8 (ucast hi) AND ucast lo :: u16) = 0"
    by (rule bit_word_eqI) (auto simp: bit_simps dest: bit_imp_le_length)
  then have "(push_bit 8 (ucast hi) OR ucast lo :: u16) = push_bit 8 (ucast hi) + ucast lo"
    by (simp add: disjunctive_add_eq_or)
  moreover have "unat hi < 256" "unat lo < 256" using unsigned_less [of hi, where ?'a = nat] unsigned_less [of lo, where ?'a = nat] by simp_all
  moreover from this have "256 * unat hi + unat lo < 65536" by linarith
  moreover have "take_bit 16 (unat x) = unat x" for x :: u8
    using unsigned_less [of x, where ?'a = nat] by (intro take_bit_nat_eq_self) (rule order.strict_trans, assumption, simp)
  ultimately show ?thesis by (simp add: push_bit_eq_mult unat_word_ariths unsigned_ucast_eq mult.commute)
qed

lemma torn_clock_unat:
  "unat (torn_clock low_first t) = 256 * (unat (if low_first then t + 1 else t) div 256) + unat (if low_first then t else t + 1) mod 256"
proof -
  have "unat (ucast (x :: u16) :: u8) = unat x mod 256" for x by (simp add: unsigned_ucast_eq take_bit_nat_def)
  moreover have "unat (ucast (drop_bit 8 (x :: u16)) :: u8) = unat x div 256" for x
  proof -
    have "unat x < 65536" using unsigned_less [of x, where ?'a = nat] by simp
    then show ?thesis by (simp add: unsigned_ucast_eq take_bit_nat_def unsigned_drop_bit_eq drop_bit_nat_def less_mult_imp_div_less)
  qed
  ultimately show ?thesis by (simp add: torn_clock_def Let_def joined_bytes)
qed

lemma next_clock:
  fixes t :: "u16" shows "unat (t + 1) = (if unat t = 65535 then 0 else unat t + 1)"
proof -
  have "unat t < 65536" using unsigned_less [of t, where ?'a = nat] by simp
  then have "unat t \<noteq> 65535 \<Longrightarrow> Suc (unat t) < 65536" by linarith
  then show ?thesis by (auto simp: unat_word_ariths)
qed

lemma low_byte: "(t :: u16) AND 0xFF = 0xFF \<longleftrightarrow> unat t mod 256 = 255"
proof -
  have "t AND 0xFF = take_bit 8 t" by (simp add: take_bit_eq_mask mask_eq_exp_minus_1)
  then show ?thesis by (simp add: word_unat_eq_iff unsigned_take_bit_eq take_bit_nat_def)
qed

lemma torn_clock_cases: "torn_clock True t = (if t AND 0xFF = 0xFF then t + 256 else t)"
   "torn_clock False t = (if t AND 0xFF = 0xFF then t - 255 else t + 1)"
proof -
  obtain H L where n: "unat t = 256 * H + L" "L < 256" using that [of "unat t div 256" "unat t mod 256"] by simp
  have "unat t < 65536" using unsigned_less [of t, where ?'a = nat] by simp
  then have H: "H < 256" using n by simp
  have low: "t AND 0xFF = 0xFF \<longleftrightarrow> L = 255" using n by (simp add: low_byte)
  have nx: "unat (t + 1) = (if L = 255 then (if H = 255 then 0 else 256 * (H + 1)) else 256 * H + (L + 1))"
    using n H by (auto simp: next_clock)
  have far: "unat (t + 256) = (if H = 255 then L else 256 * (H + 1) + L)"
    using n H by (cases "H = 255") (simp_all add: unat_word_ariths)
  have near: "unat (t - 255) = 256 * H" if "L = 255" using n that by (simp add: unat_sub_if')
  show "torn_clock True t = (if t AND 0xFF = 0xFF then t + 256 else t)"
    unfolding low using n H far by (cases "L = 255", cases "H = 255") (simp_all add: word_unat_eq_iff torn_clock_unat nx)
  show "torn_clock False t = (if t AND 0xFF = 0xFF then t - 255 else t + 1)"
    unfolding low using n H near by (cases "L = 255", cases "H = 255") (simp_all add: word_unat_eq_iff torn_clock_unat nx)
qed



end
