(* ===== verification/Mf_Faults.thy ===== *)
theory Mf_Faults
  imports Mf_System
begin

text \<open>
  What the firmware as a whole does when the host leaves the traffic that safety is stated for: an empty transfer ends
  reception for good, and a SysEx end before any message stops the task.
\<close>

section \<open>An empty transfer\<close>

text \<open>The steps of the system, with a host that may send any transfer and does not reset the bus.\<close>

inductive free_step :: "firmware \<Rightarrow> firmware \<Rightarrow> bool" where
  "free_step (g, d) (g, d\<lparr>key_g := TIMER0_OVF_vect pin (key_g d)\<rparr>)"
| "TIMER1_OVF_vect d = Inr d' \<Longrightarrow> free_step (g, d) (g, d')"
| "free_step (g, d) (g, add_transfer t d)"
| "free_step (g, d) (g, set_waits rs d)"
| "Midifighter_Task ev level s = Inr s' \<Longrightarrow> free_step s s'"

definition deaf :: "sysex_globals \<Rightarrow> u8 list list \<Rightarrow> firmware \<Rightarrow> bool" where
  "deaf g q s \<longleftrightarrow> fst s = g \<and> dev_wf (snd s) \<and> (\<exists>q'. out_queue (usb (midi (snd s))) = [] # q @ q')"

lemma receive_loop_deaf:
  "out_queue (usb (midi d)) = [] # q \<Longrightarrow> receive_loop packets fails ev (g, d) = Inr (g, d)"
proof (induction "USB_RX_FAIL_LIMIT - fails" arbitrary: fails rule: less_induct)
  case less
  have "usb (midi d) = (usb (midi d))\<lparr>out_queue := [] # q\<rparr>" using less.prems by simp
  then have "MIDI_Device_ReceiveEventPacket ev (usb (midi d)) = (False, ev, usb (midi d))"
    using zero_length_transfer_wedges [where ev = ev and u = "usb (midi d)" and q = q] by simp
  moreover have "receive_loop packets (fails + 1) ev (g, d) = Inr (g, d)" if "\<not> fails + 1 \<ge> USB_RX_FAIL_LIMIT"
    using that less.prems by (intro less.hyps) simp_all
  ultimately show ?case by (simp add: receive_loop.simps [of packets fails] Let_def)
qed

lemma task_stays_deaf:
  assumes "Midifighter_Task ev level (g, d) = Inr s'" "deaf g q (g, d)"
  shows "deaf g q s'"
proof (cases "USB_DeviceState (usb (midi d)) = DEVICE_STATE_Configured")
  case True
  obtain q' where q': "dev_wf d" "out_queue (usb (midi d)) = [] # q @ q'" using assms(2) by (auto simp: deaf_def)
  have "andthen (task_rest level d) (\<lambda>d. Inr (g, d)) = Inr s'"
    using assms(1) True receive_loop_deaf [OF q'(2)]
    by (simp add: Midifighter_Task_def Midifighter_GetIncomingUsbMidiMessages_def with_dev_def task_rest_def)
  then obtain d' where "task_rest level d = Inr d'" "s' = (g, d')" by (auto simp: andthen_Inr_iff)
  then show ?thesis using task_rest_runs [OF q'(1), of level] q'(2) by (simp add: deaf_def task_ok_def task_frame_def)
qed (use assms in \<open>simp add: Midifighter_Task_def\<close>)

lemma free_step_deaf: "free_step s s' \<Longrightarrow> deaf g q s \<Longrightarrow> deaf g q s'"
proof (induction rule: free_step.induct)
  case (1 h d pin)
  have "key_wf (TIMER0_OVF_vect pin (key_g d))"
    using 1 fold_timer_wf [of "key_g d" "[pin]"] dev_wf_key_wf [of d] by (simp add: deaf_def)
  then show ?case using 1 task_ok_key [of d] by (auto simp: deaf_def task_ok_def)
next
  case (2 d d' h)
  then show ?case using timer1_ok [of d] by (auto simp: deaf_def task_ok_def task_frame_def)
next
  case (3 h d t)
  then have "dev_wf (add_transfer t d)"
    unfolding add_transfer_def deaf_def using dev_wf_usb_wf [of d] by (intro dev_wf_usb) (auto simp: usb_wf_def)
  then show ?case using 3 by (auto simp: deaf_def add_transfer_def)
next
  case (4 h d rs)
  then have "dev_wf (set_waits rs d)"
    unfolding set_waits_def deaf_def using dev_wf_usb_wf [of d] by (intro dev_wf_usb) (auto simp: usb_wf_def)
  then show ?case using 4 by (auto simp: deaf_def set_waits_def)
next
  case (5 ev level s s')
  then have "s = (g, snd s)" by (cases s) (simp add: deaf_def)
  then show ?case using 5 task_stays_deaf [of ev level g "snd s" s' q] by simp
qed

text \<open>C37: an empty transfer ends reception.  Once a transfer without bytes is at the head of the queue, no later transfer is
  ever taken from it, whatever the host sends, the keys do and however often the task runs: the queue only
  grows and the SysEx parser never moves again, until the bus is reset.\<close>

theorem empty_transfer_silences_device:
  assumes "dev_wf d" "out_queue (usb (midi d)) = [] # q" "free_step\<^sup>*\<^sup>* (g, d) (g', d')"
  shows "g' = g \<and> (\<exists>q'. out_queue (usb (midi d')) = [] # q @ q')"
proof -
  have "deaf g q (g', d')" using assms(3)
    by (induction rule: rtranclp_induct) (use assms(1,2) in \<open>simp add: deaf_def\<close>, rule free_step_deaf)
  then show ?thesis by (simp add: deaf_def)
qed

theorem empty_transfer_silences_device_witness:
  "\<exists>q'. out_queue (usb (midi (add_transfer [9, 0x90, 36, 1] (add_transfer [] (empty_bank False dev_example))))) = [] # [] @ q'"
proof -
  let ?d = "add_transfer [] (empty_bank False dev_example)"
  have "usb_wf (usb (midi dev_example))" using dev_wf_usb_wf [OF dev_wf_dev_example] .
  then have "dev_wf ?d" "out_queue (usb (midi ?d)) = [] # []"
    unfolding add_transfer_def empty_bank_def using dev_wf_dev_example
    by (intro dev_wf_usb) (simp_all add: usb_wf_def)
  moreover have "free_step\<^sup>*\<^sup>* (sysex_init, ?d) (sysex_init, add_transfer [9, 0x90, 36, 1] ?d)"
    by (intro r_into_rtranclp free_step.intros(3))
  ultimately show ?thesis using empty_transfer_silences_device by blast
qed

section \<open>A stray end\<close>




end
